(* ===== verification/Go_Prelude.thy ===== *)
theory Go_Prelude
  imports Main "HOL-Library.Word"
begin

text \<open>
  The prelude of the development: the part of the Go language and of its standard library that
  the components share. A Go \<open>string\<close> or \<open>[]byte\<close> is a \<^typ>\<open>string\<close>, a list of bytes (a
  \<^typ>\<open>char\<close> is one of 256 values), so that \<open>len\<close> counts bytes as Go does. \<open>int32\<close> is a
  \<open>32 word\<close>, which wraps on overflow and is read with \<open>sint\<close>; \<open>int64\<close> generations, instants of
  time and durations are integers that the code only copies and compares. A function that
  returns \<open>(T, error)\<close> returns a value of \<open>'a result\<close>, \<open>Inl\<close> for the error. The named
  collections gather the definitions (\<open>go_defs\<close>) that the component proofs unfold.
\<close>

unbundle bit_operations_syntax

named_theorems go_defs "definitions of the modelled standard library functions"

type_synonym int32 = "32 word"
type_synonym time = int
type_synonym 'a result = "string + 'a"

text \<open>An object key: \<open>types.NamespacedName\<close>, printed by its \<open>String\<close> method as \<open>ns/name\<close>.\<close>

type_synonym NamespacedName = "string \<times> string"

definition nl :: char where
  "nl = CHR 0x0A"

definition slash :: char where
  "slash = CHR ''/''"

fun keyString :: "NamespacedName \<Rightarrow> string" where
  "keyString (ns, n) = ns @ ''/'' @ n"

subsection \<open>\<open>strings.Split\<close>, \<open>strings.SplitN\<close>, \<open>strings.Join\<close>, \<open>bytes.HasSuffix\<close>\<close>

text \<open>\<open>strings.Split(s, sep)\<close> for a separator of one byte: always at least one piece.\<close>

fun splitOn :: "char \<Rightarrow> string \<Rightarrow> string list" where
  "splitOn c [] = [[]]"
| "splitOn c (x # xs) =
     (if x = c then [] # splitOn c xs
      else (case splitOn c xs of p # ps \<Rightarrow> (x # p) # ps | [] \<Rightarrow> [[x]]))"

text \<open>\<open>strings.SplitN(s, sep, 2)\<close>: the text before the first separator and the rest.\<close>

fun splitN2 :: "char \<Rightarrow> string \<Rightarrow> string list" where
  "splitN2 c s =
     (if c \<in> set s then [takeWhile (\<lambda>x. x \<noteq> c) s, tl (dropWhile (\<lambda>x. x \<noteq> c) s)] else [s])"

fun joinWith :: "string \<Rightarrow> string list \<Rightarrow> string" where
  "joinWith sep [] = []"
| "joinWith sep [s] = s"
| "joinWith sep (s # t # ss) = s @ sep @ joinWith sep (t # ss)"

definition HasSuffix :: "string \<Rightarrow> string \<Rightarrow> bool" where
  [go_defs]: "HasSuffix s suf \<longleftrightarrow>
     length suf \<le> length s \<and> drop (length s - length suf) s = suf"

subsection \<open>\<open>strconv.Itoa\<close> and the verbs of \<open>fmt.Sprintf\<close> the code uses\<close>

definition digitChar :: "nat \<Rightarrow> char" where
  "digitChar d = char_of (48 + d)"

fun natDigits :: "nat \<Rightarrow> string" where
  "natDigits n = (if n < 10 then [digitChar n] else natDigits (n div 10) @ [digitChar (n mod 10)])"

declare natDigits.simps [simp del]

definition Itoa :: "int \<Rightarrow> string" where
  "Itoa i = (if i < 0 then ''-'' @ natDigits (nat (- i)) else natDigits (nat i))"

text \<open>
  \<open>%q\<close>, used in texts of errors only: \<open>strconv.Quote\<close> on ASCII text. Bytes from 128 up are copied,
  which is what \<open>Quote\<close> does with the bytes of a printable rune.
\<close>

definition hexDigit :: "nat \<Rightarrow> char" where
  "hexDigit d = (if d < 10 then char_of (48 + d) else char_of (87 + d))"

definition quoteChar :: "char \<Rightarrow> string" where
  "quoteChar c =
     (let n = of_char c :: nat in
      if n = 34 then [CHR 0x5C, CHR 0x22] else if n = 92 then [CHR 0x5C, CHR 0x5C]
      else if n = 7 then [CHR 0x5C, CHR ''a''] else if n = 8 then [CHR 0x5C, CHR ''b'']
      else if n = 9 then [CHR 0x5C, CHR ''t''] else if n = 10 then [CHR 0x5C, CHR ''n'']
      else if n = 11 then [CHR 0x5C, CHR ''v''] else if n = 12 then [CHR 0x5C, CHR ''f'']
      else if n = 13 then [CHR 0x5C, CHR ''r'']
      else if n < 32 \<or> n = 127 then [CHR 0x5C, CHR ''x'', hexDigit (n div 16), hexDigit (n mod 16)]
      else [c])"

definition Quote :: "string \<Rightarrow> string" where
  "Quote s = [CHR 0x22] @ concat (map quoteChar s) @ [CHR 0x22]"

subsection \<open>Lemmas on splitting\<close>

lemma splitOn_nonempty [simp]: "splitOn c s \<noteq> []"
  by (induction s) (auto split: list.splits)

lemma splitOn_append_sep:
  "splitOn c (xs @ c # ys) = splitOn c xs @ splitOn c ys"
  by (induction xs) (auto split: list.splits)

lemma splitOn_no_sep: "c \<notin> set s \<Longrightarrow> splitOn c s = [s]"
  by (induction s) auto

lemma splitOn_pieces: "p \<in> set (splitOn c s) \<Longrightarrow> c \<notin> set p"
  by (induction s arbitrary: p) (auto split: list.splits if_splits)

lemma joinWith_Cons:
  "ss \<noteq> [] \<Longrightarrow> joinWith sep (s # ss) = s @ sep @ joinWith sep ss"
  by (cases ss) simp_all

lemma joinWith_splitOn: "joinWith [c] (splitOn c s) = s"
proof (induction s)
  case Nil
  show ?case by simp
next
  case (Cons x xs)
  obtain p ps where p: "splitOn c xs = p # ps"
    by (cases "splitOn c xs") auto
  show ?case
    using Cons p by (cases ps) auto
qed

lemma splitOn_snoc_sep: "splitOn c (xs @ [c]) = splitOn c xs @ [[]]"
  using splitOn_append_sep [of c xs "[]"] by simp

lemma splitN2_sep: "c \<notin> set a \<Longrightarrow> splitN2 c (a @ c # b) = [a, b]"
  by (induction a) auto

lemma splitN2_length_2: "length (splitN2 c s) = 2 \<longleftrightarrow> c \<in> set s"
  by simp

lemma splitN2_join: "splitN2 c s = [a, b] \<longleftrightarrow> s = a @ c # b \<and> c \<notin> set a"
proof (induction s arbitrary: a)
  case Nil
  then show ?case by simp
next
  case (Cons x xs)
  show ?case
  proof (cases "x = c")
    case True
    then show ?thesis by (cases a) auto
  next
    case False
    then show ?thesis
      using Cons.IH [of "tl a"] by (cases a) auto
  qed
qed

lemma HasSuffix_append [simp]: "HasSuffix (s @ t) t"
  by (simp add: HasSuffix_def)

lemma HasSuffix_iff: "HasSuffix s t \<longleftrightarrow> (\<exists>p. s = p @ t)"
proof
  assume "HasSuffix s t"
  then have "s = take (length s - length t) s @ t"
    by (metis HasSuffix_def append_take_drop_id)
  then show "\<exists>p. s = p @ t" ..
qed auto

subsection \<open>Lemmas on decimal texts\<close>

lemma natDigits_nonempty [simp]: "natDigits n \<noteq> []" "[] \<noteq> natDigits n"
  by (subst natDigits.simps, simp)+

lemma Itoa_nonempty [simp]: "Itoa i \<noteq> []"
  by (simp add: Itoa_def)

lemma of_char_digitChar: "d < 10 \<Longrightarrow> (of_char (digitChar d) :: nat) = 48 + d"
  by (simp add: digitChar_def)

lemma digitChar_inj: "d < 10 \<Longrightarrow> e < 10 \<Longrightarrow> digitChar d = digitChar e \<longleftrightarrow> d = e"
  by (metis of_char_digitChar add_left_cancel)

definition isDigitChar :: "char \<Rightarrow> bool" where
  "isDigitChar c \<longleftrightarrow> (let n = of_char c :: nat in 48 \<le> n \<and> n \<le> 57)"

lemma isDigitChar_digitChar: "d < 10 \<Longrightarrow> isDigitChar (digitChar d)"
  by (simp add: isDigitChar_def of_char_digitChar)

lemma natDigits_digits: "c \<in> set (natDigits n) \<Longrightarrow> isDigitChar c"
proof (induction n rule: natDigits.induct)
  case (1 n)
  show ?case
  proof (cases "n < 10")
    case True
    with "1.prems" show ?thesis
      by (simp add: natDigits.simps [of n] isDigitChar_digitChar)
  next
    case False
    with 1 show ?thesis
      by (auto simp: natDigits.simps [of n] isDigitChar_digitChar)
  qed
qed

lemma natDigits_inject: "natDigits m = natDigits n \<Longrightarrow> m = n"
proof (induction m arbitrary: n rule: natDigits.induct)
  case (1 m)
  have mn: "natDigits m = natDigits n" by (rule "1.prems")
  show ?case
  proof (cases "m < 10")
    case True
    with mn have "\<not> n \<ge> 10"
      by (auto simp: natDigits.simps [of m] natDigits.simps [of n] split: if_splits)
    with True mn show ?thesis
      by (simp add: natDigits.simps [of m] natDigits.simps [of n] digitChar_inj)
  next
    case False
    with mn have n10: "\<not> n < 10"
      by (auto simp: natDigits.simps [of m] natDigits.simps [of n] split: if_splits)
    with False mn have "natDigits (m div 10) = natDigits (n div 10)" "m mod 10 = n mod 10"
      by (simp_all add: natDigits.simps [of m] natDigits.simps [of n] digitChar_inj)
    with "1.IH" [OF False] have "m div 10 = n div 10" "m mod 10 = n mod 10"
      by simp_all
    then show ?thesis
      by (metis div_mult_mod_eq)
  qed
qed

lemma Itoa_inject: "Itoa i = Itoa j \<longleftrightarrow> i = j"
proof
  have minus: "natDigits n \<noteq> CHR ''-'' # s" for n s
    using natDigits_digits [of "CHR ''-''" n] by (auto simp: isDigitChar_def)
  assume "Itoa i = Itoa j"
  then show "i = j"
    using minus minus [symmetric]
    by (auto simp: Itoa_def split: if_splits dest!: natDigits_inject)
qed simp

subsection \<open>Results\<close>

lemma result_cases [case_names error ok]:
  fixes r :: "'e + 'a"
  obtains (error) e where "r = Inl e" | (ok) x where "r = Inr x"
  by (cases r)

lemma result_pair_cases [case_names error ok]:
  fixes r :: "('e + 'a) \<times> 'w"
  obtains (error) e w where "r = (Inl e, w)" | (ok) x w where "r = (Inr x, w)"
  by (cases r; cases "fst r") auto

end
