(* ===== verification/Api_Types.thy ===== *)
theory Api_Types
  imports Go_Prelude
begin

text \<open>
  The custom resources of \<open>api/v1\<close>: \<open>SecRules\<close>, \<open>ClusterSecRules\<close>, \<open>RuleSet\<close> and \<open>Engine\<close> with
  their specs and statuses, the condition types and reasons, and the Kubernetes metadata the code reads and
  writes. A Go pointer field is an option; a Go map is a partial function; a nil slice and an empty slice
  are the empty list, which \<open>equality.Semantic\<close> does not distinguish either.
\<close>

subsection \<open>Kubernetes metadata and conditions\<close>

record ObjectMeta =
  om_Name :: string
  om_Namespace :: string
  om_Generation :: int
  om_ResourceVersion :: string
  om_Labels :: "string \<rightharpoonup> string"
  om_Annotations :: "string \<rightharpoonup> string"
  om_OwnerReferences :: "string list"

record Condition =
  c_Type :: string
  c_Status :: string
  c_Reason :: string
  c_Message :: string
  c_ObservedGeneration :: int
  c_LastTransitionTime :: time

definition ConditionTrue :: string where "ConditionTrue = ''True''"
definition ConditionFalse :: string where "ConditionFalse = ''False''"

text \<open>\<open>api/v1/conditions.go\<close>\<close>

definition ConditionReady :: string where "ConditionReady = ''Ready''"
definition ConditionProgressing :: string where "ConditionProgressing = ''Progressing''"
definition ConditionDegraded :: string where "ConditionDegraded = ''Degraded''"

definition ReasonReconciling :: string where "ReasonReconciling = ''Reconciling''"
definition ReasonReconciled :: string where "ReasonReconciled = ''Reconciled''"
definition ReasonInvalidSpec :: string where "ReasonInvalidSpec = ''InvalidSpec''"
definition ReasonDependencyMissing :: string where "ReasonDependencyMissing = ''DependencyMissing''"
definition ReasonRuleConflict :: string where "ReasonRuleConflict = ''RuleConflict''"
definition ReasonCompiled :: string where "ReasonCompiled = ''Compiled''"

lemma condition_types_distinct [simp]:
  "ConditionReady \<noteq> ConditionProgressing" "ConditionProgressing \<noteq> ConditionReady"
  "ConditionReady \<noteq> ConditionDegraded" "ConditionDegraded \<noteq> ConditionReady"
  "ConditionProgressing \<noteq> ConditionDegraded" "ConditionDegraded \<noteq> ConditionProgressing"
  by (simp_all add: ConditionReady_def ConditionProgressing_def ConditionDegraded_def)

lemma condition_status_distinct [simp]:
  "ConditionTrue \<noteq> ConditionFalse" "ConditionFalse \<noteq> ConditionTrue"
  by (simp_all add: ConditionTrue_def ConditionFalse_def)

text \<open>A condition literal of the code: the transition time is left zero for the library to fill.\<close>

definition mkCondition :: "string \<Rightarrow> string \<Rightarrow> string \<Rightarrow> string \<Rightarrow> int \<Rightarrow> Condition" where
  "mkCondition t st reason msg gen =
     \<lparr>c_Type = t, c_Status = st, c_Reason = reason, c_Message = msg,
      c_ObservedGeneration = gen, c_LastTransitionTime = 0\<rparr>"

subsection \<open>SecRules and ClusterSecRules\<close>

record SecRulesSpec =
  srs_Rules :: string
  srs_Description :: string

record SecRulesStatus =
  srt_Conditions :: "Condition list"
  srt_ObservedGeneration :: int
  srt_ParsedRuleCount :: int32

record SecRules =
  sr_Meta :: ObjectMeta
  sr_Spec :: SecRulesSpec
  sr_Status :: SecRulesStatus

record ClusterSecRulesSpec =
  csrs_Rules :: string
  csrs_Description :: string

record ClusterSecRulesStatus =
  csrt_Conditions :: "Condition list"
  csrt_ObservedGeneration :: int
  csrt_ParsedRuleCount :: int32

record ClusterSecRules =
  csr_Meta :: ObjectMeta
  csr_Spec :: ClusterSecRulesSpec
  csr_Status :: ClusterSecRulesStatus

subsection \<open>RuleSet\<close>

text \<open>\<open>SourceRefKind\<close> is a Go string type: the reconcilers also handle the empty and unknown kinds.\<close>

definition SourceRefKindSecRules :: string where "SourceRefKindSecRules = ''SecRules''"
definition SourceRefKindClusterSecRules :: string where
  "SourceRefKindClusterSecRules = ''ClusterSecRules''"

record SourceRef =
  ref_Kind :: string
  ref_Name :: string

record RuleSetSpec =
  rss_Sources :: "SourceRef list"

record RuleSetStatus =
  rst_Conditions :: "Condition list"
  rst_ObservedGeneration :: int
  rst_CompiledHash :: string
  rst_RuleCount :: int32
  rst_LastCompiledAt :: "time option"

record RuleSet =
  rs_Meta :: ObjectMeta
  rs_Spec :: RuleSetSpec
  rs_Status :: RuleSetStatus

subsection \<open>Engine\<close>

definition EngineTypeCorazaHTTP :: string where "EngineTypeCorazaHTTP = ''coraza-http''"
definition EngineModeDetection :: string where "EngineModeDetection = ''Detection''"
definition EngineModeBlocking :: string where "EngineModeBlocking = ''Blocking''"

record ListenerConfig =
  lc_Port :: int32
  lc_ProxyProtocol :: bool
  lc_SPOAPort :: int32

record UpstreamConfig =
  uc_URL :: string

text \<open>\<open>corev1.ResourceRequirements\<close>: quantities by resource name, only copied by the code.\<close>

record ResourceRequirements =
  rr_Limits :: "string \<rightharpoonup> string"
  rr_Requests :: "string \<rightharpoonup> string"

record EngineSpec =
  es_Type :: string
  es_RuleSetRef :: string
  es_Replicas :: "int32 option"
  es_Image :: "string option"
  es_Listener :: ListenerConfig
  es_Upstream :: UpstreamConfig
  es_Mode :: string
  es_Resources :: ResourceRequirements

record EngineStatus =
  et_Conditions :: "Condition list"
  et_ObservedGeneration :: int
  et_ReadyReplicas :: int32
  et_AppliedRuleSetHash :: string

record Engine =
  en_Meta :: ObjectMeta
  en_Spec :: EngineSpec
  en_Status :: EngineStatus

abbreviation en_Name :: "Engine \<Rightarrow> string" where "en_Name e \<equiv> om_Name (en_Meta e)"
abbreviation en_Namespace :: "Engine \<Rightarrow> string" where "en_Namespace e \<equiv> om_Namespace (en_Meta e)"
abbreviation rs_Name :: "RuleSet \<Rightarrow> string" where "rs_Name r \<equiv> om_Name (rs_Meta r)"
abbreviation rs_Namespace :: "RuleSet \<Rightarrow> string" where "rs_Namespace r \<equiv> om_Namespace (rs_Meta r)"

end
