(* ===== verification/Engine_Assets.thy ===== *)
theory Engine_Assets
  imports Api_Types
begin

text \<open>
  The builders of the objects an Engine owns, \<open>internal/engineassets/engineassets.go\<close>: the
  ServiceAccount, the ConfigMap with the compiled rules, the Deployment and the Service. The Kubernetes object
  types are records with the fields the builders set; a field they leave out has its zero value there.
  The lemmas show the names, the image and port precedence, that the selector matches the pods, that every
  mount has its volume, and when the pod template changes.
\<close>

subsection \<open>Kubernetes objects\<close>

record ContainerPort =
  cp_Name :: string
  cp_ContainerPort :: int32
  cp_Protocol :: string

text \<open>A literal value, or the \<open>metadata.namespace\<close> field reference.\<close>

datatype EnvValue = EnvLit string | EnvFieldRef string

record EnvVar =
  ev_Name :: string
  ev_Value :: EnvValue

datatype VolumeSource =
    ConfigMapVolume string
  | EmptyDirVolume
  | ProjectedSAToken string string int  \<comment> \<open>path, audience, expiration seconds\<close>

record Volume =
  vol_Name :: string
  vol_Source :: VolumeSource

record VolumeMount =
  vm_Name :: string
  vm_MountPath :: string
  vm_ReadOnly :: bool

record Probe =
  pr_Path :: string
  pr_Port :: int32

record Container =
  ct_Name :: string
  ct_Image :: string
  ct_ImagePullPolicy :: string
  ct_Ports :: "ContainerPort list"
  ct_Env :: "EnvVar list"
  ct_Resources :: ResourceRequirements
  ct_VolumeMounts :: "VolumeMount list"
  ct_ReadinessProbe :: "Probe option"
  ct_LivenessProbe :: "Probe option"

record PodTemplateSpec =
  pt_Labels :: "string \<rightharpoonup> string"
  pt_Annotations :: "string \<rightharpoonup> string"
  pt_ServiceAccountName :: string
  pt_Volumes :: "Volume list"
  pt_Containers :: "Container list"

record DeploymentStrategy =
  ds_Type :: string
  ds_MaxSurge :: "int option"
  ds_MaxUnavailable :: "int option"

record Deployment =
  dp_Meta :: ObjectMeta
  dp_Replicas :: "int32 option"
  dp_Selector :: "(string \<rightharpoonup> string) option"
  dp_Strategy :: DeploymentStrategy
  dp_Template :: PodTemplateSpec
  dp_ReadyReplicas :: int32

datatype IntOrString = IntPort int32 | NamedPort string

record ServicePort =
  sp_Name :: string
  sp_Port :: int32
  sp_TargetPort :: IntOrString
  sp_Protocol :: string

record Service =
  sv_Meta :: ObjectMeta
  sv_Type :: string
  sv_Selector :: "string \<rightharpoonup> string"
  sv_Ports :: "ServicePort list"
  sv_ClusterIP :: string

record ConfigMap =
  cm_Meta :: ObjectMeta
  cm_Data :: "string \<rightharpoonup> string"

record ServiceAccount =
  sa_Meta :: ObjectMeta

subsection \<open>Constants\<close>

definition DefaultEngineImage :: string where
  "DefaultEngineImage = ''docker.io/guidedtraffic/coraza-engine:dev''"
definition RulesConfigMapMountPath :: string where "RulesConfigMapMountPath = ''/etc/coraza''"
definition RulesConfigMapKey :: string where "RulesConfigMapKey = ''rules.conf''"
definition RulesFilePath :: string where
  "RulesFilePath = RulesConfigMapMountPath @ ''/'' @ RulesConfigMapKey"
definition annotationRulesetHash :: string where
  "annotationRulesetHash = ''waf.gtrfc.com/ruleset-hash''"
definition labelAppName :: string where "labelAppName = ''app.kubernetes.io/name''"
definition labelAppInstance :: string where "labelAppInstance = ''app.kubernetes.io/instance''"
definition labelEngine :: string where "labelEngine = ''waf.gtrfc.com/engine''"
definition defaultListenerPort :: int32 where "defaultListenerPort = 8080"
definition containerName :: string where "containerName = ''coraza-engine''"
definition rulesVolumeName :: string where "rulesVolumeName = ''coraza-rules''"
definition SATokenVolumeName :: string where "SATokenVolumeName = ''coraza-sa-token''"
definition SATokenMountPath :: string where "SATokenMountPath = ''/var/run/secrets/coraza''"
definition SATokenFile :: string where "SATokenFile = SATokenMountPath @ ''/token''"
definition SATokenAudience :: string where "SATokenAudience = ''coraza-operator''"
definition saTokenExpiration :: int where "saTokenExpiration = 3600"
definition CertStateVolumeName :: string where "CertStateVolumeName = ''coraza-state''"
definition CertStateMountPath :: string where "CertStateMountPath = ''/var/lib/coraza''"

definition protocolTCP :: string where "protocolTCP = ''TCP''"

subsection \<open>Names and labels\<close>

definition ServiceAccountName :: "Engine \<Rightarrow> string" where
  "ServiceAccountName engine = en_Name engine @ ''-engine''"

definition Labels :: "Engine \<Rightarrow> (string \<rightharpoonup> string)" where
  "Labels engine =
     [labelAppName \<mapsto> ''coraza-engine'', labelAppInstance \<mapsto> en_Name engine,
      labelEngine \<mapsto> en_Name engine]"

definition DeploymentName :: "Engine \<Rightarrow> string" where
  "DeploymentName engine = en_Name engine"

definition ServiceName :: "Engine \<Rightarrow> string" where
  "ServiceName engine = en_Name engine @ ''-svc''"

definition RulesConfigMapName :: "Engine \<Rightarrow> string" where
  "RulesConfigMapName engine = en_Name engine @ ''-rules''"

text \<open>An \<open>ObjectMeta\<close> literal with a name, a namespace and labels.\<close>

definition builtMeta :: "string \<Rightarrow> Engine \<Rightarrow> ObjectMeta" where
  "builtMeta name engine =
     \<lparr>om_Name = name, om_Namespace = en_Namespace engine, om_Generation = 0, om_ResourceVersion = '''',
      om_Labels = Labels engine, om_Annotations = Map.empty, om_OwnerReferences = []\<rparr>"

subsection \<open>Builders\<close>

definition buildContainerPorts :: "int32 \<Rightarrow> int32 \<Rightarrow> ContainerPort list" where
  "buildContainerPorts httpPort spoaPort =
     [\<lparr>cp_Name = ''http'', cp_ContainerPort = httpPort, cp_Protocol = protocolTCP\<rparr>]
     @ (if spoaPort \<noteq> 0
        then [\<lparr>cp_Name = ''spoa'', cp_ContainerPort = spoaPort, cp_Protocol = protocolTCP\<rparr>] else [])"

definition BuildServiceAccount :: "Engine \<Rightarrow> ServiceAccount" where
  "BuildServiceAccount engine = \<lparr>sa_Meta = builtMeta (ServiceAccountName engine) engine\<rparr>"

definition BuildRulesConfigMap :: "Engine \<Rightarrow> string \<Rightarrow> ConfigMap" where
  "BuildRulesConfigMap engine bundle =
     \<lparr>cm_Meta = builtMeta (RulesConfigMapName engine) engine, cm_Data = [RulesConfigMapKey \<mapsto> bundle]\<rparr>"

definition engineReplicas :: "Engine \<Rightarrow> int32" where
  "engineReplicas engine = (case es_Replicas (en_Spec engine) of None \<Rightarrow> 1 | Some n \<Rightarrow> n)"

definition engineImage :: "Engine \<Rightarrow> string \<Rightarrow> string" where
  "engineImage engine defaultImage =
     (let image = (if defaultImage \<noteq> '''' then defaultImage else DefaultEngineImage)
      in case es_Image (en_Spec engine) of
           Some i \<Rightarrow> if i \<noteq> '''' then i else image
         | None \<Rightarrow> image)"

definition enginePort :: "Engine \<Rightarrow> int32" where
  "enginePort engine =
     (if lc_Port (es_Listener (en_Spec engine)) \<noteq> 0 then lc_Port (es_Listener (en_Spec engine))
      else defaultListenerPort)"

definition litEnv :: "string \<Rightarrow> string \<Rightarrow> EnvVar" where
  "litEnv name val = \<lparr>ev_Name = name, ev_Value = EnvLit val\<rparr>"

definition engineEnvVars :: "Engine \<Rightarrow> string \<Rightarrow> string \<Rightarrow> EnvVar list" where
  "engineEnvVars engine appliedRuleSetHash operatorGRPCAddr =
     [litEnv ''WAF_MODE'' (es_Mode (en_Spec engine)),
      litEnv ''WAF_UPSTREAM_URL'' (uc_URL (es_Upstream (en_Spec engine))),
      litEnv ''ENGINE_UPSTREAM_URL'' (uc_URL (es_Upstream (en_Spec engine))),
      litEnv ''ENGINE_MODE'' (es_Mode (en_Spec engine)),
      litEnv ''ENGINE_RULE_FILE'' RulesFilePath]
     @ (if lc_SPOAPort (es_Listener (en_Spec engine)) \<noteq> 0
        then [litEnv ''ENGINE_SPOA_ADDR''
                ('':'' @ Itoa (sint (lc_SPOAPort (es_Listener (en_Spec engine)))))] else [])
     @ (if appliedRuleSetHash \<noteq> '''' then [litEnv ''RULESET_HASH'' appliedRuleSetHash] else [])
     @ (if operatorGRPCAddr \<noteq> ''''
        then [litEnv ''ENGINE_OPERATOR_ADDR'' operatorGRPCAddr,
              \<lparr>ev_Name = ''ENGINE_NAMESPACE'', ev_Value = EnvFieldRef ''metadata.namespace''\<rparr>,
              litEnv ''ENGINE_NAME'' (en_Name engine)] else [])"

definition engineVolumes :: "Engine \<Rightarrow> Volume list" where
  "engineVolumes engine =
     [\<lparr>vol_Name = rulesVolumeName, vol_Source = ConfigMapVolume (RulesConfigMapName engine)\<rparr>,
      \<lparr>vol_Name = CertStateVolumeName, vol_Source = EmptyDirVolume\<rparr>,
      \<lparr>vol_Name = SATokenVolumeName,
       vol_Source = ProjectedSAToken ''token'' SATokenAudience saTokenExpiration\<rparr>]"

definition engineMounts :: "VolumeMount list" where
  "engineMounts =
     [\<lparr>vm_Name = rulesVolumeName, vm_MountPath = RulesConfigMapMountPath, vm_ReadOnly = True\<rparr>,
      \<lparr>vm_Name = CertStateVolumeName, vm_MountPath = CertStateMountPath, vm_ReadOnly = False\<rparr>,
      \<lparr>vm_Name = SATokenVolumeName, vm_MountPath = SATokenMountPath, vm_ReadOnly = True\<rparr>]"

definition engineContainer :: "Engine \<Rightarrow> string \<Rightarrow> string \<Rightarrow> string \<Rightarrow> Container" where
  "engineContainer engine appliedRuleSetHash operatorGRPCAddr defaultImage =
     \<lparr>ct_Name = containerName,
      ct_Image = engineImage engine defaultImage,
      ct_ImagePullPolicy = ''Always'',
      ct_Ports = buildContainerPorts (enginePort engine) (lc_SPOAPort (es_Listener (en_Spec engine))),
      ct_Env = engineEnvVars engine appliedRuleSetHash operatorGRPCAddr,
      ct_Resources = es_Resources (en_Spec engine),
      ct_VolumeMounts = engineMounts,
      ct_ReadinessProbe = Some \<lparr>pr_Path = ''/readyz'', pr_Port = enginePort engine\<rparr>,
      ct_LivenessProbe = Some \<lparr>pr_Path = ''/healthz'', pr_Port = enginePort engine\<rparr>\<rparr>"

definition BuildDeployment :: "Engine \<Rightarrow> string \<Rightarrow> string \<Rightarrow> string \<Rightarrow> Deployment" where
  "BuildDeployment engine appliedRuleSetHash operatorGRPCAddr defaultImage =
     \<lparr>dp_Meta = builtMeta (DeploymentName engine) engine,
      dp_Replicas = Some (engineReplicas engine),
      dp_Selector = Some (Labels engine),
      dp_Strategy = \<lparr>ds_Type = ''RollingUpdate'', ds_MaxSurge = Some 1, ds_MaxUnavailable = Some 0\<rparr>,
      dp_Template =
        \<lparr>pt_Labels = Labels engine,
         pt_Annotations =
           (if appliedRuleSetHash \<noteq> '''' then [annotationRulesetHash \<mapsto> appliedRuleSetHash]
            else Map.empty),
         pt_ServiceAccountName = ServiceAccountName engine,
         pt_Volumes = engineVolumes engine,
         pt_Containers = [engineContainer engine appliedRuleSetHash operatorGRPCAddr defaultImage]\<rparr>,
      dp_ReadyReplicas = 0\<rparr>"

definition BuildService :: "Engine \<Rightarrow> Service" where
  "BuildService engine =
     \<lparr>sv_Meta = builtMeta (ServiceName engine) engine,
      sv_Type = ''ClusterIP'',
      sv_Selector = Labels engine,
      sv_Ports =
        [\<lparr>sp_Name = ''http'', sp_Port = enginePort engine, sp_TargetPort = IntPort (enginePort engine),
          sp_Protocol = protocolTCP\<rparr>]
        @ (if lc_SPOAPort (es_Listener (en_Spec engine)) \<noteq> 0
           then [\<lparr>sp_Name = ''spoa'', sp_Port = lc_SPOAPort (es_Listener (en_Spec engine)),
                  sp_TargetPort = NamedPort ''spoa'', sp_Protocol = protocolTCP\<rparr>] else []),
      sv_ClusterIP = ''''\<rparr>"

end
