(* ===== verification/Kube.thy ===== *)
theory Kube
  imports Engine_Assets
begin

text \<open>
  What the controllers use of \<open>k8s.io/apimachinery\<close> and \<open>controller-runtime\<close>, which is not part of the
  repository: every function is a field of the record \<open>Kube\<close>, over a world \<open>'w\<close> (the API server, the caches
  and the clock) that each client call may change, so that other actors can write between two calls. The
  documented behaviour that a property relies on is a named predicate (\<open>meta_laws\<close>, \<open>deep_equal_laws\<close>,
  \<open>list_laws\<close>), a hypothesis of that property. The helpers of \<open>internal/controller/conditions.go\<close> follow, and
  a concrete instance on which the predicates hold.
\<close>

subsection \<open>The parameters\<close>

text \<open>\<open>apierrors.IsNotFound\<close> is all the code asks of an API error; the text is for messages.\<close>

datatype apiError = NotFound string | APIFailure string

fun IsNotFound :: "apiError \<Rightarrow> bool" where
  "IsNotFound (NotFound _) = True"
| "IsNotFound (APIFailure _) = False"

fun errText :: "apiError \<Rightarrow> string" where
  "errText (NotFound t) = t"
| "errText (APIFailure t) = t"

text \<open>\<open>ctrl.Result\<close>: the zero value, or a requeue after some seconds.\<close>

record Result =
  res_RequeueAfter :: int

definition emptyResult :: Result where
  "emptyResult = \<lparr>res_RequeueAfter = 0\<rparr>"

datatype OperationResult = OpNone | OpCreated | OpUpdated

type_synonym ('w, 'a) call = "'w \<Rightarrow> (apiError + 'a) \<times> 'w"
type_synonym 'o mutateFn = "'o \<Rightarrow> 'o result"

record 'w Kube =
  k_Now :: "'w \<Rightarrow> time"
  k_SetStatusCondition :: "time \<Rightarrow> Condition list \<Rightarrow> Condition \<Rightarrow> Condition list"
  k_RemoveStatusCondition :: "Condition list \<Rightarrow> string \<Rightarrow> Condition list"
  k_EqSecRulesStatus :: "SecRulesStatus \<Rightarrow> SecRulesStatus \<Rightarrow> bool"
  k_EqClusterSecRulesStatus :: "ClusterSecRulesStatus \<Rightarrow> ClusterSecRulesStatus \<Rightarrow> bool"
  k_EqRuleSetStatus :: "RuleSetStatus \<Rightarrow> RuleSetStatus \<Rightarrow> bool"
  k_EqEngineStatus :: "EngineStatus \<Rightarrow> EngineStatus \<Rightarrow> bool"
  k_GetSecRules :: "NamespacedName \<Rightarrow> ('w, SecRules) call"
  k_GetClusterSecRules :: "NamespacedName \<Rightarrow> ('w, ClusterSecRules) call"
  k_GetRuleSet :: "NamespacedName \<Rightarrow> ('w, RuleSet) call"
  k_GetEngine :: "NamespacedName \<Rightarrow> ('w, Engine) call"
  k_GetDeployment :: "NamespacedName \<Rightarrow> ('w, Deployment) call"
  k_ListRuleSets :: "string option \<Rightarrow> ('w, RuleSet list) call"  \<comment> \<open>\<open>client.InNamespace\<close>, if given\<close>
  k_ListEngines :: "string option \<Rightarrow> ('w, Engine list) call"
  k_UpdateSecRulesStatus :: "SecRules \<Rightarrow> ('w, unit) call"
  k_UpdateClusterSecRulesStatus :: "ClusterSecRules \<Rightarrow> ('w, unit) call"
  k_UpdateRuleSetStatus :: "RuleSet \<Rightarrow> ('w, unit) call"
  k_UpdateEngineStatus :: "Engine \<Rightarrow> ('w, unit) call"
  k_SetControllerReference :: "Engine \<Rightarrow> ObjectMeta \<Rightarrow> ObjectMeta result"
  k_CreateOrPatchServiceAccount ::
    "ServiceAccount \<Rightarrow> ServiceAccount mutateFn \<Rightarrow> ('w, OperationResult) call"
  k_CreateOrPatchConfigMap :: "ConfigMap \<Rightarrow> ConfigMap mutateFn \<Rightarrow> ('w, OperationResult) call"
  k_CreateOrPatchDeployment :: "Deployment \<Rightarrow> Deployment mutateFn \<Rightarrow> ('w, OperationResult) call"
  k_CreateOrPatchService :: "Service \<Rightarrow> Service mutateFn \<Rightarrow> ('w, OperationResult) call"

subsection \<open>Documented behaviour\<close>

definition findCond :: "Condition list \<Rightarrow> string \<Rightarrow> Condition option" where
  "findCond conds t = List.find (\<lambda>c. c_Type c = t) conds"

text \<open>
  \<open>meta.SetStatusCondition\<close> with a zero transition time sets the condition of that type, keeps the old
  transition time when the status stays the same and stamps it otherwise, leaves the conditions of other types
  alone, and returns the list unchanged when nothing differs; \<open>meta.RemoveStatusCondition\<close> removes a type.
\<close>

definition stamped :: "time \<Rightarrow> Condition option \<Rightarrow> Condition \<Rightarrow> Condition" where
  "stamped now old c =
     c\<lparr>c_LastTransitionTime :=
         (case old of
            None \<Rightarrow> now
          | Some o' \<Rightarrow> if c_Status o' = c_Status c then c_LastTransitionTime o' else now)\<rparr>"

definition meta_laws :: "'w Kube \<Rightarrow> bool" where
  "meta_laws K \<longleftrightarrow>
     (\<forall>now conds c t. c_LastTransitionTime c = 0 \<longrightarrow>
        findCond (k_SetStatusCondition K now conds c) t =
          (if t = c_Type c then Some (stamped now (findCond conds t) c) else findCond conds t)) \<and>
     (\<forall>now conds c. c_LastTransitionTime c = 0 \<longrightarrow>
        findCond conds (c_Type c) = Some (stamped now (findCond conds (c_Type c)) c) \<longrightarrow>
        k_SetStatusCondition K now conds c = conds) \<and>
     (\<forall>conds t t'. findCond (k_RemoveStatusCondition K conds t) t' =
        (if t' = t then None else findCond conds t')) \<and>
     (\<forall>conds t. findCond conds t = None \<longrightarrow> k_RemoveStatusCondition K conds t = conds)"

text \<open>\<open>equality.Semantic.DeepEqual\<close> on statuses, which have no quantities: equality up to nil and empty.\<close>

definition deep_equal_laws :: "'w Kube \<Rightarrow> bool" where
  "deep_equal_laws K \<longleftrightarrow>
     (\<forall>a b. k_EqSecRulesStatus K a b \<longleftrightarrow> a = b) \<and> (\<forall>a b. k_EqClusterSecRulesStatus K a b \<longleftrightarrow> a = b) \<and>
     (\<forall>a b. k_EqRuleSetStatus K a b \<longleftrightarrow> a = b) \<and> (\<forall>a b. k_EqEngineStatus K a b \<longleftrightarrow> a = b)"

text \<open>A list restricted to a namespace has only objects of that namespace.\<close>

definition list_laws :: "'w Kube \<Rightarrow> bool" where
  "list_laws K \<longleftrightarrow>
     (\<forall>ns w rss w'. k_ListRuleSets K (Some ns) w = (Inr rss, w') \<longrightarrow> (\<forall>r \<in> set rss. rs_Namespace r = ns)) \<and>
     (\<forall>ns w es w'. k_ListEngines K (Some ns) w = (Inr es, w') \<longrightarrow> (\<forall>e \<in> set es. en_Namespace e = ns))"

lemma findCond_Nil [simp]: "findCond [] t = None"
  by (simp add: findCond_def)

lemma findCond_Cons [simp]:
  "findCond (c # conds) t = (if c_Type c = t then Some c else findCond conds t)"
  by (simp add: findCond_def)

lemma mkCondition_simps [simp]:
  "c_Type (mkCondition t st reason msg gen) = t"
  "c_Status (mkCondition t st reason msg gen) = st"
  "c_Reason (mkCondition t st reason msg gen) = reason"
  "c_Message (mkCondition t st reason msg gen) = msg"
  "c_ObservedGeneration (mkCondition t st reason msg gen) = gen"
  "c_LastTransitionTime (mkCondition t st reason msg gen) = 0"
  by (simp_all add: mkCondition_def)

lemma stamped_simps [simp]:
  "c_Type (stamped now old c) = c_Type c" "c_Status (stamped now old c) = c_Status c"
  "c_Reason (stamped now old c) = c_Reason c" "c_Message (stamped now old c) = c_Message c"
  "c_ObservedGeneration (stamped now old c) = c_ObservedGeneration c"
  by (simp_all add: stamped_def)

lemma stamped_again [simp]: "stamped now' (Some (stamped now old c)) c = stamped now old c"
  by (simp add: stamped_def split: option.splits)

lemma find_set:
  "meta_laws K \<Longrightarrow> c_LastTransitionTime c = 0 \<Longrightarrow>
   findCond (k_SetStatusCondition K now conds c) t =
     (if t = c_Type c then Some (stamped now (findCond conds t) c) else findCond conds t)"
  by (simp add: meta_laws_def)

lemma set_unchanged:
  "meta_laws K \<Longrightarrow> c_LastTransitionTime c = 0 \<Longrightarrow>
   findCond conds (c_Type c) = Some (stamped now (findCond conds (c_Type c)) c) \<Longrightarrow>
   k_SetStatusCondition K now conds c = conds"
  by (simp add: meta_laws_def)

lemma find_remove:
  "meta_laws K \<Longrightarrow>
   findCond (k_RemoveStatusCondition K conds t) t' = (if t' = t then None else findCond conds t')"
  by (simp add: meta_laws_def)

lemma remove_absent:
  "meta_laws K \<Longrightarrow> findCond conds t = None \<Longrightarrow> k_RemoveStatusCondition K conds t = conds"
  by (simp add: meta_laws_def)

subsection \<open>\<open>internal/controller/conditions.go\<close>\<close>

definition setConditionDegraded ::
  "'w Kube \<Rightarrow> time \<Rightarrow> Condition list \<Rightarrow> int \<Rightarrow> string \<Rightarrow> string \<Rightarrow> Condition list" where
  "setConditionDegraded K now conditions generation reason message =
     k_SetStatusCondition K now conditions
       (mkCondition ConditionDegraded ConditionTrue reason message generation)"

definition clearCondition :: "'w Kube \<Rightarrow> Condition list \<Rightarrow> string \<Rightarrow> Condition list" where
  "clearCondition K conditions condType = k_RemoveStatusCondition K conditions condType"

text \<open>
  The sequence every failing branch writes out: degrade, then drop \<open>Ready\<close> and \<open>Progressing\<close>; and the three
  conditions of a successful one, in the order of the calls.
\<close>

definition degrade :: "'w Kube \<Rightarrow> time \<Rightarrow> Condition list \<Rightarrow> int \<Rightarrow> string \<Rightarrow> string \<Rightarrow> Condition list" where
  "degrade K now conditions generation reason message =
     clearCondition K
       (clearCondition K (setConditionDegraded K now conditions generation reason message) ConditionReady)
       ConditionProgressing"

definition setReady :: "'w Kube \<Rightarrow> time \<Rightarrow> Condition list \<Rightarrow> int \<Rightarrow> string \<Rightarrow> string \<Rightarrow> Condition list" where
  "setReady K now conditions generation reason message =
     (let c1 = k_SetStatusCondition K now conditions
                 (mkCondition ConditionReady ConditionTrue reason message generation);
          c2 = k_SetStatusCondition K now c1
                 (mkCondition ConditionProgressing ConditionFalse reason '''' generation)
      in k_SetStatusCondition K now c2
           (mkCondition ConditionDegraded ConditionFalse reason '''' generation))"

text \<open>The status of a condition type, and its absence, as the printed columns of the resources read it.\<close>

definition condStatus :: "Condition list \<Rightarrow> string \<Rightarrow> string option" where
  "condStatus conds t = map_option c_Status (findCond conds t)"

definition condReason :: "Condition list \<Rightarrow> string \<Rightarrow> string option" where
  "condReason conds t = map_option c_Reason (findCond conds t)"

definition condGeneration :: "Condition list \<Rightarrow> string \<Rightarrow> int option" where
  "condGeneration conds t = map_option c_ObservedGeneration (findCond conds t)"

lemmas cond_views = condStatus_def condReason_def condGeneration_def

lemma find_degrade:
  "meta_laws K \<Longrightarrow> findCond (degrade K now conds gen reason msg) t =
     (if t = ConditionReady \<or> t = ConditionProgressing then None
      else if t = ConditionDegraded
      then Some (stamped now (findCond conds t) (mkCondition ConditionDegraded ConditionTrue reason msg gen))
      else findCond conds t)"
  by (simp add: degrade_def clearCondition_def setConditionDegraded_def find_remove find_set)

lemma find_setReady:
  "meta_laws K \<Longrightarrow> findCond (setReady K now conds gen reason msg) t =
     (if t = ConditionReady
      then Some (stamped now (findCond conds t) (mkCondition t ConditionTrue reason msg gen))
      else if t = ConditionProgressing \<or> t = ConditionDegraded
      then Some (stamped now (findCond conds t) (mkCondition t ConditionFalse reason '''' gen))
      else findCond conds t)"
  by (simp add: setReady_def Let_def find_set)

text \<open>Both are idempotent at any later time, so a second identical reconcile has nothing to write.\<close>

lemma degrade_again:
  assumes "meta_laws K"
  shows "degrade K now' (degrade K now conds gen reason msg) gen reason msg
    = degrade K now conds gen reason msg"
proof -
  let ?d = "degrade K now conds gen reason msg"
  have f: "findCond ?d ConditionReady = None" "findCond ?d ConditionProgressing = None"
    "findCond ?d ConditionDegraded = Some (stamped now (findCond conds ConditionDegraded)
       (mkCondition ConditionDegraded ConditionTrue reason msg gen))"
    by (simp_all add: find_degrade assms)
  have "setConditionDegraded K now' ?d gen reason msg = ?d"
    unfolding setConditionDegraded_def by (rule set_unchanged [OF assms]) (simp_all add: f)
  with f show ?thesis
    by (simp add: degrade_def [of K now' ?d] clearCondition_def remove_absent assms)
qed

lemma setReady_again:
  assumes "meta_laws K"
  shows "setReady K now' (setReady K now conds gen reason msg) gen reason msg
    = setReady K now conds gen reason msg"
proof -
  let ?r = "setReady K now conds gen reason msg"
  have "k_SetStatusCondition K now' ?r (mkCondition t st reason m gen) = ?r"
    if "(t, st, m) \<in> {(ConditionReady, ConditionTrue, msg), (ConditionProgressing, ConditionFalse, ''''),
          (ConditionDegraded, ConditionFalse, '''')}" for t st m
    using that by (intro set_unchanged [OF assms]) (auto simp: find_setReady assms)
  then show ?thesis
    by (simp add: setReady_def [of K now' ?r] Let_def)
qed

subsection \<open>An instance\<close>

text \<open>
  An in-memory API server, on which the predicates hold: objects are kept in lists, conditions are updated in
  place, and nothing else writes.
\<close>

record demoWorld =
  dw_now :: time
  dw_SecRules :: "SecRules list"
  dw_ClusterSecRules :: "ClusterSecRules list"
  dw_RuleSets :: "RuleSet list"
  dw_Engines :: "Engine list"
  dw_ServiceAccounts :: "ServiceAccount list"
  dw_ConfigMaps :: "ConfigMap list"
  dw_Deployments :: "Deployment list"
  dw_Services :: "Service list"

definition emptyWorld :: demoWorld where
  "emptyWorld =
     \<lparr>dw_now = 1, dw_SecRules = [], dw_ClusterSecRules = [], dw_RuleSets = [], dw_Engines = [],
      dw_ServiceAccounts = [], dw_ConfigMaps = [], dw_Deployments = [], dw_Services = []\<rparr>"

definition metaKey :: "ObjectMeta \<Rightarrow> NamespacedName" where
  "metaKey m = (om_Namespace m, om_Name m)"

definition lookupObj :: "('o \<Rightarrow> ObjectMeta) \<Rightarrow> 'o list \<Rightarrow> NamespacedName \<Rightarrow> apiError + 'o" where
  "lookupObj meta objs key =
     (case List.find (\<lambda>x. metaKey (meta x) = key) objs of
        None \<Rightarrow> Inl (NotFound (keyString key @ '' not found'')) | Some x \<Rightarrow> Inr x)"

definition putObj :: "('o \<Rightarrow> ObjectMeta) \<Rightarrow> 'o list \<Rightarrow> 'o \<Rightarrow> 'o list" where
  "putObj meta objs x = x # filter (\<lambda>y. metaKey (meta y) \<noteq> metaKey (meta x)) objs"

definition demoPatch ::
  "('o \<Rightarrow> ObjectMeta) \<Rightarrow> 'o list \<Rightarrow> 'o \<Rightarrow> 'o mutateFn \<Rightarrow> (apiError + OperationResult) \<times> 'o list" where
  "demoPatch meta objs obj mutate =
     (case lookupObj meta objs (metaKey (meta obj)) of
        Inl _ \<Rightarrow>
          (case mutate obj of
             Inl e \<Rightarrow> (Inl (APIFailure e), objs) | Inr x \<Rightarrow> (Inr OpCreated, putObj meta objs x))
      | Inr old \<Rightarrow>
          (case mutate old of
             Inl e \<Rightarrow> (Inl (APIFailure e), objs) | Inr x \<Rightarrow> (Inr OpUpdated, putObj meta objs x)))"

fun demoSetCondition :: "time \<Rightarrow> Condition list \<Rightarrow> Condition \<Rightarrow> Condition list" where
  "demoSetCondition now [] c = [stamped now None c]"
| "demoSetCondition now (d # ds) c =
     (if c_Type d = c_Type c then stamped now (Some d) c # ds else d # demoSetCondition now ds c)"

definition demoOwner :: "Engine \<Rightarrow> ObjectMeta \<Rightarrow> ObjectMeta result" where
  "demoOwner e m = Inr (m\<lparr>om_OwnerReferences := [en_Name e]\<rparr>)"

definition demoKube :: "demoWorld Kube" where
  "demoKube =
     \<lparr>k_Now = dw_now,
      k_SetStatusCondition = demoSetCondition,
      k_RemoveStatusCondition = (\<lambda>conds t. filter (\<lambda>c. c_Type c \<noteq> t) conds),
      k_EqSecRulesStatus = (=), k_EqClusterSecRulesStatus = (=), k_EqRuleSetStatus = (=),
      k_EqEngineStatus = (=),
      k_GetSecRules = (\<lambda>key w. (lookupObj sr_Meta (dw_SecRules w) key, w)),
      k_GetClusterSecRules = (\<lambda>key w. (lookupObj csr_Meta (dw_ClusterSecRules w) key, w)),
      k_GetRuleSet = (\<lambda>key w. (lookupObj rs_Meta (dw_RuleSets w) key, w)),
      k_GetEngine = (\<lambda>key w. (lookupObj en_Meta (dw_Engines w) key, w)),
      k_GetDeployment = (\<lambda>key w. (lookupObj dp_Meta (dw_Deployments w) key, w)),
      k_ListRuleSets = (\<lambda>ns w.
        (Inr (filter (\<lambda>r. ns = None \<or> ns = Some (rs_Namespace r)) (dw_RuleSets w)), w)),
      k_ListEngines = (\<lambda>ns w.
        (Inr (filter (\<lambda>e. ns = None \<or> ns = Some (en_Namespace e)) (dw_Engines w)), w)),
      k_UpdateSecRulesStatus = (\<lambda>x w. (Inr (), w\<lparr>dw_SecRules := putObj sr_Meta (dw_SecRules w) x\<rparr>)),
      k_UpdateClusterSecRulesStatus =
        (\<lambda>x w. (Inr (), w\<lparr>dw_ClusterSecRules := putObj csr_Meta (dw_ClusterSecRules w) x\<rparr>)),
      k_UpdateRuleSetStatus = (\<lambda>x w. (Inr (), w\<lparr>dw_RuleSets := putObj rs_Meta (dw_RuleSets w) x\<rparr>)),
      k_UpdateEngineStatus = (\<lambda>x w. (Inr (), w\<lparr>dw_Engines := putObj en_Meta (dw_Engines w) x\<rparr>)),
      k_SetControllerReference = demoOwner,
      k_CreateOrPatchServiceAccount = (\<lambda>x f w.
        (case demoPatch sa_Meta (dw_ServiceAccounts w) x f of (r, xs) \<Rightarrow> (r, w\<lparr>dw_ServiceAccounts := xs\<rparr>))),
      k_CreateOrPatchConfigMap = (\<lambda>x f w.
        (case demoPatch cm_Meta (dw_ConfigMaps w) x f of (r, xs) \<Rightarrow> (r, w\<lparr>dw_ConfigMaps := xs\<rparr>))),
      k_CreateOrPatchDeployment = (\<lambda>x f w.
        (case demoPatch dp_Meta (dw_Deployments w) x f of (r, xs) \<Rightarrow> (r, w\<lparr>dw_Deployments := xs\<rparr>))),
      k_CreateOrPatchService = (\<lambda>x f w.
        (case demoPatch sv_Meta (dw_Services w) x f of (r, xs) \<Rightarrow> (r, w\<lparr>dw_Services := xs\<rparr>)))\<rparr>"

lemma find_demoSetCondition:
  "findCond (demoSetCondition now conds c) t =
     (if t = c_Type c then Some (stamped now (findCond conds t) c) else findCond conds t)"
  by (induction conds) auto

lemma demoSetCondition_unchanged:
  "findCond conds (c_Type c) = Some (stamped now (findCond conds (c_Type c)) c) \<Longrightarrow>
   demoSetCondition now conds c = conds"
  by (induction conds) (auto split: if_splits)

lemma find_filter_type:
  "findCond (filter (\<lambda>c. c_Type c \<noteq> t) conds) t' = (if t' = t then None else findCond conds t')"
  by (induction conds) auto

lemma filter_absent: "findCond conds t = None \<Longrightarrow> filter (\<lambda>c. c_Type c \<noteq> t) conds = conds"
  by (induction conds) (auto split: if_splits)

lemma demo_meta_laws: "meta_laws demoKube"
  by (simp add: meta_laws_def demoKube_def find_demoSetCondition find_filter_type filter_absent)
    (metis demoSetCondition_unchanged)

lemma demo_deep_equal_laws: "deep_equal_laws demoKube"
  by (simp add: deep_equal_laws_def demoKube_def)

lemma demo_list_laws: "list_laws demoKube"
  by (auto simp: list_laws_def demoKube_def)

end
