(* ===== verification/Sha256.thy ===== *)
theory Sha256
  imports Go_Prelude
begin

text \<open>
  \<open>crypto/sha256.Sum256\<close> and the \<open>%x\<close> verb, which the operator (\<open>internal/compiler\<close>,
  \<open>sha256hex\<close>) and the engine (\<open>internal/enginepkg/server.go\<close>, \<open>sha256Hex\<close>) use to name a rule
  bundle. The digest is the one of FIPS 180-4 on 32-bit words, defined so that it evaluates. The lemmas
  give the shape of the name: 64 lower case hexadecimal digits, so never the empty string that
  the controllers and the readiness probe read as ``no bundle yet''.
\<close>

subsection \<open>The digest\<close>

definition rotr :: "nat \<Rightarrow> int32 \<Rightarrow> int32" where
  "rotr n w = drop_bit n w OR push_bit (32 - n) w"

definition bigSigma0 :: "int32 \<Rightarrow> int32" where
  "bigSigma0 x = rotr 2 x XOR rotr 13 x XOR rotr 22 x"

definition bigSigma1 :: "int32 \<Rightarrow> int32" where
  "bigSigma1 x = rotr 6 x XOR rotr 11 x XOR rotr 25 x"

definition smallSigma0 :: "int32 \<Rightarrow> int32" where
  "smallSigma0 x = rotr 7 x XOR rotr 18 x XOR drop_bit 3 x"

definition smallSigma1 :: "int32 \<Rightarrow> int32" where
  "smallSigma1 x = rotr 17 x XOR rotr 19 x XOR drop_bit 10 x"

definition sha256K :: "int32 list" where
  "sha256K = [
    0x428A2F98, 0x71374491, 0xB5C0FBCF, 0xE9B5DBA5,
    0x3956C25B, 0x59F111F1, 0x923F82A4, 0xAB1C5ED5,
    0xD807AA98, 0x12835B01, 0x243185BE, 0x550C7DC3,
    0x72BE5D74, 0x80DEB1FE, 0x9BDC06A7, 0xC19BF174,
    0xE49B69C1, 0xEFBE4786, 0x0FC19DC6, 0x240CA1CC,
    0x2DE92C6F, 0x4A7484AA, 0x5CB0A9DC, 0x76F988DA,
    0x983E5152, 0xA831C66D, 0xB00327C8, 0xBF597FC7,
    0xC6E00BF3, 0xD5A79147, 0x06CA6351, 0x14292967,
    0x27B70A85, 0x2E1B2138, 0x4D2C6DFC, 0x53380D13,
    0x650A7354, 0x766A0ABB, 0x81C2C92E, 0x92722C85,
    0xA2BFE8A1, 0xA81A664B, 0xC24B8B70, 0xC76C51A3,
    0xD192E819, 0xD6990624, 0xF40E3585, 0x106AA070,
    0x19A4C116, 0x1E376C08, 0x2748774C, 0x34B0BCB5,
    0x391C0CB3, 0x4ED8AA4A, 0x5B9CCA4F, 0x682E6FF3,
    0x748F82EE, 0x78A5636F, 0x84C87814, 0x8CC70208,
    0x90BEFFFA, 0xA4506CEB, 0xBEF9A3F7, 0xC67178F2]"

definition sha256H0 :: "int32 list" where
  "sha256H0 = [
    0x6A09E667, 0xBB67AE85, 0x3C6EF372, 0xA54FF53A,
    0x510E527F, 0x9B05688C, 0x1F83D9AB, 0x5BE0CD19]"

text \<open>Padding: the byte 128, zeros up to 56 modulo 64, then the bit length in eight bytes.\<close>

definition bigEndian8 :: "int \<Rightarrow> int list" where
  "bigEndian8 n = map (\<lambda>i. n div 256 ^ (7 - i) mod 256) [0..<8]"

definition sha256Pad :: "int list \<Rightarrow> int list" where
  "sha256Pad bs =
     (let n = length bs
      in bs @ [128] @ replicate ((119 - n mod 64) mod 64) 0 @ bigEndian8 (8 * int n))"

fun beWord :: "int list \<Rightarrow> int32" where
  "beWord bs = word_of_int (foldl (\<lambda>a b. 256 * a + b) 0 bs)"

fun blockWords :: "int list \<Rightarrow> int32 list" where
  "blockWords bs = map (\<lambda>i. beWord (take 4 (drop (4 * i) bs))) [0..<16]"

text \<open>The message schedule, newest word first.\<close>

fun schedule :: "nat \<Rightarrow> int32 list \<Rightarrow> int32 list" where
  "schedule 0 ws = ws"
| "schedule (Suc n) ws =
     schedule n ((smallSigma1 (ws ! 1) + ws ! 6 + smallSigma0 (ws ! 14) + ws ! 15) # ws)"

fun sha256Round :: "int32 list \<Rightarrow> int32 \<times> int32 \<Rightarrow> int32 list" where
  "sha256Round [a, b, c, d, e, f, g, h] (k, w) =
     (let t1 = h + bigSigma1 e + ((e AND f) XOR (NOT e AND g)) + k + w;
          t2 = bigSigma0 a + ((a AND b) XOR (a AND c) XOR (b AND c))
      in [t1 + t2, a, b, c, d + t1, e, f, g])"
| "sha256Round hs kw = hs"

definition sha256Block :: "int32 list \<Rightarrow> int list \<Rightarrow> int32 list" where
  "sha256Block hs bs =
     map2 (+) hs (foldl sha256Round hs (zip sha256K (rev (schedule 48 (rev (blockWords bs))))))"

function sha256Blocks :: "int32 list \<Rightarrow> int list \<Rightarrow> int32 list" where
  "sha256Blocks hs bs =
     (if length bs < 64 then hs else sha256Blocks (sha256Block hs (take 64 bs)) (drop 64 bs))"
  by pat_completeness auto
termination
  by (relation "measure (\<lambda>(hs, bs). length bs)") auto

declare sha256Blocks.simps [simp del]

definition wordBytes :: "int32 \<Rightarrow> int list" where
  "wordBytes w = map (\<lambda>i. uint w div 256 ^ (3 - i) mod 256) [0..<4]"

definition Sum256 :: "string \<Rightarrow> int list" where
  "Sum256 s = concat (map wordBytes (sha256Blocks sha256H0 (sha256Pad (map of_char s))))"

subsection \<open>The name of a bundle\<close>

definition sha256hex :: "string \<Rightarrow> string" where
  "sha256hex s = concat (map (\<lambda>b. [hexDigit (nat (b div 16)), hexDigit (nat (b mod 16))]) (Sum256 s))"

subsection \<open>Shape\<close>

definition isHexChar :: "char \<Rightarrow> bool" where
  "isHexChar c \<longleftrightarrow> (let n = of_char c :: nat in 48 \<le> n \<and> n \<le> 57 \<or> 97 \<le> n \<and> n \<le> 102)"

lemma isHexChar_hexDigit: "d < 16 \<Longrightarrow> isHexChar (hexDigit d)"
  by (auto simp: isHexChar_def hexDigit_def)

lemma length_sha256Round: "length (sha256Round hs kw) = length hs"
  by (cases "(hs, kw)" rule: sha256Round.cases) (simp_all add: Let_def)

lemma length_foldl_sha256Round: "length (foldl sha256Round hs kws) = length hs"
  by (induction kws arbitrary: hs) (simp_all add: length_sha256Round)

lemma length_sha256Blocks: "length (sha256Blocks hs bs) = length hs"
proof (induction hs bs rule: sha256Blocks.induct)
  case (1 hs bs)
  show ?case
  proof (cases "length bs < 64")
    case True
    then show ?thesis by (simp add: sha256Blocks.simps [of hs bs])
  next
    case False
    with 1 show ?thesis
      by (simp add: sha256Blocks.simps [of hs bs] sha256Block_def length_foldl_sha256Round)
  qed
qed

lemma length_concat_const:
  "(\<And>x. x \<in> set xs \<Longrightarrow> length (f x) = n) \<Longrightarrow> length (concat (map f xs)) = n * length xs"
  by (induction xs) auto

lemma length_Sum256: "length (Sum256 s) = 32"
proof -
  have "length (sha256Blocks sha256H0 bs) = 8" for bs
    by (simp add: length_sha256Blocks sha256H0_def)
  then show ?thesis
    using length_concat_const [of "sha256Blocks sha256H0 (sha256Pad (map of_char s))" wordBytes 4]
    by (simp add: Sum256_def wordBytes_def)
qed

lemma Sum256_bytes: "b \<in> set (Sum256 s) \<Longrightarrow> 0 \<le> b \<and> b < 256"
  by (auto simp: Sum256_def wordBytes_def)

lemma length_sha256hex: "length (sha256hex s) = 64"
  using length_concat_const [of "Sum256 s" "\<lambda>b. [hexDigit (nat (b div 16)), hexDigit (nat (b mod 16))]" 2]
  by (simp add: sha256hex_def length_Sum256)

lemma sha256hex_nonempty [simp]: "sha256hex s \<noteq> []" "[] \<noteq> sha256hex s"
  using length_sha256hex [of s] by auto

lemma sha256hex_hex: "c \<in> set (sha256hex s) \<Longrightarrow> isHexChar c"
  by (auto simp: sha256hex_def dest!: Sum256_bytes intro!: isHexChar_hexDigit)

end
