(* ===== verification/Compiler.thy ===== *)
theory Compiler
  imports Sha256
begin

text \<open>
  The rule compiler, \<open>internal/compiler/compiler.go\<close>: the recognition of \<open>SecRule\<close> and \<open>SecAction\<close>
  lines, the extraction of rule ids, \<open>Compile\<close> and \<open>CountRules\<close>. The two regular expressions are
  written out as matchers on bytes. The lemmas show what \<open>Compile\<close> concatenates, exactly when it
  reports a conflict and which two sources it names, and that the rule count it reports is the
  count the engine recomputes on the compiled text.
\<close>

subsection \<open>Data\<close>

record Source =
  src_Kind :: string
  src_Name :: string
  src_Body :: string

text \<open>\<open>compiler.Bundle\<close>; the prefix keeps it apart from the bundles of the store and the engine.\<close>

record CBundle =
  cb_Compiled :: string
  cb_SHA256 :: string
  cb_RuleCount :: int32

record ConflictError =
  ce_RuleID :: string
  ce_First :: string
  ce_Second :: string

definition ConflictError_Error :: "ConflictError \<Rightarrow> string" where
  "ConflictError_Error e =
     ''rule ID '' @ ce_RuleID e @ '' is declared in both '' @ ce_First e @ '' and '' @ ce_Second e"

subsection \<open>The regular expressions\<close>

text \<open>\<open>\s\<close>, the ASCII word class of \<open>\b\<close>, and \<open>\d\<close> of Go's RE2 syntax.\<close>

definition isSpaceChar :: "char \<Rightarrow> bool" where
  "isSpaceChar c \<longleftrightarrow> c \<in> set [CHR 0x09, CHR 0x0A, CHR 0x0C, CHR 0x0D, CHR '' '']"

definition isWordChar :: "char \<Rightarrow> bool" where
  "isWordChar c \<longleftrightarrow>
     (let n = of_char c :: nat
      in 48 \<le> n \<and> n \<le> 57 \<or> 65 \<le> n \<and> n \<le> 90 \<or> n = 95 \<or> 97 \<le> n \<and> n \<le> 122)"

text \<open>
  One letter of a literal under \<open>(?i)\<close>: the lower case letter, its upper case form, and for
  \<open>s\<close> also U+017F (long s, the bytes C5 BF), the only rune that folds to a letter of the two
  keywords and is not ASCII.
\<close>

definition eatFold :: "char \<Rightarrow> string \<Rightarrow> string option" where
  "eatFold p s =
     (case s of
        [] \<Rightarrow> None
      | c # cs \<Rightarrow>
          if c = p \<or> of_char c + 32 = (of_char p :: nat) then Some cs
          else if p = CHR ''s'' \<and> c = CHR 0xC5 \<and> cs \<noteq> [] \<and> hd cs = CHR 0xBF then Some (tl cs)
          else None)"

fun matchFold :: "string \<Rightarrow> string \<Rightarrow> string option" where
  "matchFold [] s = Some s"
| "matchFold (p # ps) s = (case eatFold p s of None \<Rightarrow> None | Some r \<Rightarrow> matchFold ps r)"

text \<open>A keyword followed by a word boundary; its last letter is a word character.\<close>

definition keywordAt :: "string \<Rightarrow> string \<Rightarrow> bool" where
  "keywordAt kw s =
     (case matchFold kw s of None \<Rightarrow> False | Some r \<Rightarrow> r = [] \<or> \<not> isWordChar (hd r))"

text \<open>\<open>ruleDirectiveRe.MatchString(line)\<close> for \<open>(?i)^\s*(SecRule|SecAction)\b\<close>.\<close>

definition ruleDirectiveRe :: "string \<Rightarrow> bool" where
  "ruleDirectiveRe line =
     (let s = dropWhile isSpaceChar line in keywordAt ''secrule'' s \<or> keywordAt ''secaction'' s)"

text \<open>
  \<open>ruleIDRe.FindStringSubmatch(line)[1]\<close> for \<open>\bid:(\d+)\<close>: the digits after the leftmost \<open>id:\<close>
  that starts a word and is followed by a digit. The first argument says whether the byte
  before the text is a word character.
\<close>

fun ruleIDFrom :: "bool \<Rightarrow> string \<Rightarrow> string option" where
  "ruleIDFrom prev [] = None"
| "ruleIDFrom prev (c # cs) =
     (if \<not> prev \<and> take 3 (c # cs) = ''id:'' \<and> takeWhile isDigitChar (drop 2 cs) \<noteq> []
      then Some (takeWhile isDigitChar (drop 2 cs))
      else ruleIDFrom (isWordChar c) cs)"

definition ruleIDRe :: "string \<Rightarrow> string option" where
  "ruleIDRe line = ruleIDFrom False line"

subsection \<open>Compile and CountRules\<close>

definition srcLabel :: "Source \<Rightarrow> string" where
  "srcLabel src = src_Kind src @ ''/'' @ src_Name src"

text \<open>What one iteration of the outer loop writes to the builder.\<close>

definition writeSource :: "Source \<Rightarrow> string" where
  "writeSource src =
     ''# --- begin '' @ srcLabel src @ '' ---'' @ [nl]
     @ src_Body src
     @ (if length (src_Body src) > 0 \<and> src_Body src ! (length (src_Body src) - 1) \<noteq> nl
        then [nl] else [])
     @ ''# --- end '' @ srcLabel src @ '' ---'' @ [nl]"

text \<open>The inner loop: the lines of one body, the owners of the ids so far and the count so far.\<close>

fun scanLines :: "string \<Rightarrow> string list \<Rightarrow> (string \<rightharpoonup> string) \<Rightarrow> int32
    \<Rightarrow> ConflictError + (string \<rightharpoonup> string) \<times> int32" where
  "scanLines label [] ruleOwner ruleCount = Inr (ruleOwner, ruleCount)"
| "scanLines label (line # lines) ruleOwner ruleCount =
     (if \<not> ruleDirectiveRe line then scanLines label lines ruleOwner ruleCount
      else
        (case ruleIDRe line of
           None \<Rightarrow> scanLines label lines ruleOwner (ruleCount + 1)
         | Some rid \<Rightarrow>
             (case ruleOwner rid of
                Some owner \<Rightarrow>
                  Inl \<lparr>ce_RuleID = rid, ce_First = owner, ce_Second = label\<rparr>
              | None \<Rightarrow> scanLines label lines (ruleOwner(rid \<mapsto> label)) (ruleCount + 1))))"

fun compileLoop :: "Source list \<Rightarrow> string \<Rightarrow> (string \<rightharpoonup> string) \<Rightarrow> int32
    \<Rightarrow> ConflictError + string \<times> int32" where
  "compileLoop [] sb ruleOwner ruleCount = Inr (sb, ruleCount)"
| "compileLoop (src # sources) sb ruleOwner ruleCount =
     (case scanLines (srcLabel src) (splitOn nl (src_Body src)) ruleOwner ruleCount of
        Inl e \<Rightarrow> Inl e
      | Inr (ruleOwner', ruleCount') \<Rightarrow>
          compileLoop sources (sb @ writeSource src) ruleOwner' ruleCount')"

definition Compile :: "Source list \<Rightarrow> ConflictError + CBundle" where
  "Compile sources =
     (if length sources = 0
      then Inr \<lparr>cb_Compiled = '''', cb_SHA256 = sha256hex '''', cb_RuleCount = 0\<rparr>
      else
        (case compileLoop sources '''' Map.empty 0 of
           Inl e \<Rightarrow> Inl e
         | Inr (compiled, ruleCount) \<Rightarrow>
             Inr \<lparr>cb_Compiled = compiled, cb_SHA256 = sha256hex compiled,
                  cb_RuleCount = ruleCount\<rparr>))"

fun countLines :: "string list \<Rightarrow> nat" where
  "countLines [] = 0"
| "countLines (line # lines) =
     (if ruleDirectiveRe line then Suc (countLines lines) else countLines lines)"

text \<open>\<open>CountRules\<close> counts in a Go \<open>int\<close>, which a text that fits in memory cannot overflow.\<close>

definition CountRules :: "string \<Rightarrow> nat" where
  "CountRules seclang = countLines (splitOn nl seclang)"

subsection \<open>What a list of sources declares\<close>

text \<open>The specification side: the ids of a body in order, and the ids of all sources with the labels that declare them.\<close>

definition lineID :: "string \<Rightarrow> string option" where
  "lineID line = (if ruleDirectiveRe line then ruleIDRe line else None)"

definition declaredIDs :: "string list \<Rightarrow> string list" where
  "declaredIDs lines = List.map_filter lineID lines"

definition bodyIDs :: "Source \<Rightarrow> string list" where
  "bodyIDs src = declaredIDs (splitOn nl (src_Body src))"

definition allIDs :: "Source list \<Rightarrow> string list" where
  "allIDs sources = concat (map bodyIDs sources)"

definition directiveCount :: "Source list \<Rightarrow> nat" where
  "directiveCount sources = sum_list (map (\<lambda>src. CountRules (src_Body src)) sources)"

lemma declaredIDs_simps [simp]:
  "declaredIDs [] = []"
  "declaredIDs (line # lines) =
     (case lineID line of None \<Rightarrow> declaredIDs lines | Some rid \<Rightarrow> rid # declaredIDs lines)"
  by (simp_all add: declaredIDs_def List.map_filter_simps split: option.splits)

lemma allIDs_simps [simp]:
  "allIDs [] = []" "allIDs (src # sources) = bodyIDs src @ allIDs sources"
  "allIDs (xs @ ys) = allIDs xs @ allIDs ys"
  by (simp_all add: allIDs_def)

lemma directiveCount_simps [simp]:
  "directiveCount [] = 0"
  "directiveCount (src # sources) = CountRules (src_Body src) + directiveCount sources"
  by (simp_all add: directiveCount_def)

subsection \<open>The inner loop\<close>

text \<open>The labels \<open>label\<close> recorded for every id of the lines, in a map that has none of them yet.\<close>

definition ownAll :: "string \<Rightarrow> string list \<Rightarrow> (string \<rightharpoonup> string) \<Rightarrow> (string \<rightharpoonup> string)" where
  "ownAll label ids m = (\<lambda>i. if i \<in> set ids then Some label else m i)"

lemma ownAll_Nil [simp]: "ownAll label [] m = m"
  by (simp add: ownAll_def)

lemma ownAll_Cons: "ownAll label ids (m(i \<mapsto> label)) = ownAll label (i # ids) m"
  by (auto simp: ownAll_def)

lemma scanLines_ok:
  assumes "distinct (declaredIDs lines)" and "set (declaredIDs lines) \<inter> dom m = {}"
  shows "scanLines label lines m n =
    Inr (ownAll label (declaredIDs lines) m, n + of_nat (countLines lines))"
  using assms
proof (induction lines arbitrary: m n)
  case Nil
  then show ?case by simp
next
  case (Cons line lines)
  show ?case
  proof (cases "ruleDirectiveRe line")
    case False
    with Cons show ?thesis by (simp add: lineID_def)
  next
    case True
    show ?thesis
    proof (cases "ruleIDRe line")
      case None
      with True Cons show ?thesis by (simp add: lineID_def add.assoc)
    next
      case (Some rid)
      with True Cons.prems have id: "m rid = None" "rid \<notin> set (declaredIDs lines)"
        "distinct (declaredIDs lines)" "set (declaredIDs lines) \<inter> dom m = {}"
        by (auto simp: lineID_def)
      then have "scanLines label lines (m(rid \<mapsto> label)) (n + 1) =
          Inr (ownAll label (declaredIDs lines) (m(rid \<mapsto> label)),
               n + 1 + of_nat (countLines lines))"
        by (intro Cons.IH) (auto split: if_splits)
      with True Some id(1) show ?thesis
        by (simp add: lineID_def ownAll_Cons add.assoc)
    qed
  qed
qed

lemma scanLines_InrD:
  assumes "scanLines label lines m n = Inr r"
  shows "distinct (declaredIDs lines) \<and> set (declaredIDs lines) \<inter> dom m = {}"
  using assms
proof (induction lines arbitrary: m n)
  case Nil
  then show ?case by simp
next
  case (Cons line lines)
  show ?case
  proof (cases "lineID line")
    case None
    then have "\<exists>n'. scanLines label lines m n' = Inr r"
      using Cons.prems by (auto simp: lineID_def split: if_splits)
    then obtain n' where "scanLines label lines m n' = Inr r" ..
    from Cons.IH [OF this] None show ?thesis by simp
  next
    case (Some rid)
    then have fresh: "m rid = None" and
      rest: "scanLines label lines (m(rid \<mapsto> label)) (n + 1) = Inr r"
      using Cons.prems by (auto simp: lineID_def split: if_splits option.splits)
    from Cons.IH [OF rest] fresh Some show ?thesis by auto
  qed
qed

lemma scanLines_conflict:
  assumes "scanLines label lines m n = Inl e"
  shows "\<exists>pre suf. declaredIDs lines = pre @ ce_RuleID e # suf \<and>
    distinct pre \<and> set pre \<inter> dom m = {} \<and> ce_Second e = label \<and>
    ownAll label pre m (ce_RuleID e) = Some (ce_First e)"
  using assms
proof (induction lines arbitrary: m n)
  case Nil
  then show ?case by simp
next
  case (Cons line lines)
  show ?case
  proof (cases "lineID line")
    case None
    then have "\<exists>n'. scanLines label lines m n' = Inl e"
      using Cons.prems by (auto simp: lineID_def split: if_splits)
    then obtain n' where "scanLines label lines m n' = Inl e" ..
    from Cons.IH [OF this] None show ?thesis by simp
  next
    case (Some rid)
    then have re: "ruleDirectiveRe line" "ruleIDRe line = Some rid"
      by (simp_all add: lineID_def split: if_splits)
    show ?thesis
    proof (cases "m rid")
      case owner: (Some owner)
      with re Cons.prems have "e = \<lparr>ce_RuleID = rid, ce_First = owner, ce_Second = label\<rparr>"
        by simp
      with Some owner show ?thesis
        by (intro exI [of _ "[]"] exI [of _ "declaredIDs lines"]) auto
    next
      case owner: None
      with re Cons.prems have "scanLines label lines (m(rid \<mapsto> label)) (n + 1) = Inl e"
        by simp
      from Cons.IH [OF this] obtain pre suf where IH:
        "declaredIDs lines = pre @ ce_RuleID e # suf" "distinct pre"
        "set pre \<inter> dom (m(rid \<mapsto> label)) = {}" "ce_Second e = label"
        "ownAll label pre (m(rid \<mapsto> label)) (ce_RuleID e) = Some (ce_First e)"
        by blast
      with Some owner show ?thesis
        by (intro exI [of _ "rid # pre"] exI [of _ suf]) (auto simp: ownAll_Cons)
    qed
  qed
qed

subsection \<open>The outer loop\<close>

text \<open>The owner of an id in a list of sources: the label of the first source that declares it.\<close>

fun firstOwner :: "Source list \<Rightarrow> (string \<rightharpoonup> string)" where
  "firstOwner [] = Map.empty"
| "firstOwner (src # sources) =
     (\<lambda>i. if i \<in> set (bodyIDs src) then Some (srcLabel src) else firstOwner sources i)"

lemma firstOwner_None: "firstOwner sources i = None \<longleftrightarrow> i \<notin> set (allIDs sources)"
  by (induction sources) auto

lemma dom_firstOwner: "dom (firstOwner sources) = set (allIDs sources)"
  by (simp add: dom_def firstOwner_None)

lemma firstOwner_append:
  "firstOwner (xs @ ys) i = (if i \<in> set (allIDs xs) then firstOwner xs i else firstOwner ys i)"
  by (induction xs) auto

lemma firstOwner_SomeD:
  "firstOwner sources i = Some l \<Longrightarrow> \<exists>src \<in> set sources. l = srcLabel src \<and> i \<in> set (bodyIDs src)"
  by (induction sources) (auto split: if_splits)

lemma firstOwner_snoc:
  "set (bodyIDs src) \<inter> set (allIDs sources) = {} \<Longrightarrow>
   ownAll (srcLabel src) (bodyIDs src) (firstOwner sources) = firstOwner (sources @ [src])"
  by (auto simp: ownAll_def fun_eq_iff firstOwner_append firstOwner_None)

lemma scanLines_source:
  assumes "distinct (bodyIDs src)" and "set (bodyIDs src) \<inter> set (allIDs prev) = {}"
  shows "scanLines (srcLabel src) (splitOn nl (src_Body src)) (firstOwner prev) n =
    Inr (firstOwner (prev @ [src]), n + of_nat (CountRules (src_Body src)))"
  using scanLines_ok [of "splitOn nl (src_Body src)" "firstOwner prev" "srcLabel src" n] assms
  by (simp add: bodyIDs_def [symmetric] firstOwner_snoc dom_firstOwner CountRules_def)

lemma compileLoop_ok:
  assumes "distinct (allIDs (prev @ sources))"
  shows "compileLoop sources sb (firstOwner prev) n =
    Inr (sb @ concat (map writeSource sources), n + of_nat (directiveCount sources))"
  using assms
proof (induction sources arbitrary: prev sb n)
  case Nil
  then show ?case by simp
next
  case (Cons src sources)
  then have d: "distinct (bodyIDs src)" "set (bodyIDs src) \<inter> set (allIDs prev) = {}"
    by (auto simp: allIDs_def)
  have "scanLines (srcLabel src) (splitOn nl (src_Body src)) (firstOwner prev) n =
      Inr (firstOwner (prev @ [src]), n + of_nat (CountRules (src_Body src)))"
    using d by (rule scanLines_source)
  moreover have "compileLoop sources (sb @ writeSource src) (firstOwner (prev @ [src]))
      (n + of_nat (CountRules (src_Body src))) =
    Inr ((sb @ writeSource src) @ concat (map writeSource sources),
         n + of_nat (CountRules (src_Body src)) + of_nat (directiveCount sources))"
    using Cons.prems by (intro Cons.IH) simp
  ultimately show ?case by (simp add: add.assoc)
qed

lemma scanLines_source_conflict:
  assumes "scanLines (srcLabel src) (splitOn nl (src_Body src)) (firstOwner prev) n = Inl e" and "distinct (allIDs prev)"
  obtains ids rest where "bodyIDs src = ids @ ce_RuleID e # rest" "distinct (allIDs prev @ ids)" "ce_Second e = srcLabel src"
    "firstOwner (prev @ [src]) (ce_RuleID e) = Some (ce_First e)" "ce_RuleID e \<in> set (allIDs prev @ ids)"
proof -
  from scanLines_conflict [OF assms(1)] obtain ids rest where ids:
    "bodyIDs src = ids @ ce_RuleID e # rest" "distinct ids"
    "set ids \<inter> set (allIDs prev) = {}" "ce_Second e = srcLabel src"
    "ownAll (srcLabel src) ids (firstOwner prev) (ce_RuleID e) = Some (ce_First e)"
    by (auto simp: bodyIDs_def dom_firstOwner)
  have "firstOwner (prev @ [src]) (ce_RuleID e) = Some (ce_First e)" "ce_RuleID e \<in> set (allIDs prev @ ids)"
    using ids firstOwner_None [of prev "ce_RuleID e"]
    by (auto simp: ownAll_def firstOwner_append split: if_splits)
  with ids assms(2) show thesis by (intro that) auto
qed

lemma compileLoop_conflict:
  assumes "compileLoop sources sb (firstOwner prev) n = Inl e" and "distinct (allIDs prev)"
  shows "\<exists>pre src post ids rest. sources = pre @ src # post \<and>
    bodyIDs src = ids @ ce_RuleID e # rest \<and> distinct (allIDs (prev @ pre) @ ids) \<and>
    ce_Second e = srcLabel src \<and>
    firstOwner (prev @ pre @ [src]) (ce_RuleID e) = Some (ce_First e) \<and>
    ce_RuleID e \<in> set (allIDs (prev @ pre) @ ids)"
  using assms
proof (induction sources arbitrary: prev sb n)
  case Nil
  then show ?case by simp
next
  case (Cons src sources)
  let ?scan = "scanLines (srcLabel src) (splitOn nl (src_Body src)) (firstOwner prev) n"
  show ?case
  proof (cases ?scan)
    case (Inl e')
    with Cons.prems have "?scan = Inl e" by simp
    then obtain ids rest where "bodyIDs src = ids @ ce_RuleID e # rest" "distinct (allIDs prev @ ids)"
      "ce_Second e = srcLabel src" "firstOwner (prev @ [src]) (ce_RuleID e) = Some (ce_First e)"
      "ce_RuleID e \<in> set (allIDs prev @ ids)"
      using Cons.prems(2) by (rule scanLines_source_conflict)
    then show ?thesis
      by (intro exI [of _ "[]"] exI [of _ src] exI [of _ sources] exI [of _ ids] exI [of _ rest]) simp
  next
    case (Inr r)
    from scanLines_InrD [OF this] have fresh:
      "distinct (bodyIDs src)" "set (bodyIDs src) \<inter> set (allIDs prev) = {}"
      by (simp_all add: bodyIDs_def dom_firstOwner)
    then have "?scan = Inr (firstOwner (prev @ [src]), n + of_nat (CountRules (src_Body src)))"
      by (rule scanLines_source)
    moreover have d: "distinct (allIDs (prev @ [src]))"
      using fresh Cons.prems(2) by auto
    ultimately have "compileLoop sources (sb @ writeSource src) (firstOwner (prev @ [src]))
        (n + of_nat (CountRules (src_Body src))) = Inl e"
      using Cons.prems(1) by simp
    from Cons.IH [OF this d] obtain pre s post ids rest where
      "sources = pre @ s # post" "bodyIDs s = ids @ ce_RuleID e # rest"
      "distinct (allIDs ((prev @ [src]) @ pre) @ ids)" "ce_Second e = srcLabel s"
      "firstOwner ((prev @ [src]) @ pre @ [s]) (ce_RuleID e) = Some (ce_First e)"
      "ce_RuleID e \<in> set (allIDs ((prev @ [src]) @ pre) @ ids)"
      by blast
    then show ?thesis
      by (intro exI [of _ "src # pre"] exI [of _ s] exI [of _ post] exI [of _ ids] exI [of _ rest])
        simp
  qed
qed

lemma compileLoop_InrD:
  assumes "compileLoop sources sb (firstOwner prev) n = Inr r" and "distinct (allIDs prev)"
  shows "distinct (allIDs (prev @ sources))"
  using assms
proof (induction sources arbitrary: prev sb n)
  case Nil
  then show ?case by simp
next
  case (Cons src sources)
  let ?scan = "scanLines (srcLabel src) (splitOn nl (src_Body src)) (firstOwner prev) n"
  obtain q where "?scan = Inr q"
    using Cons.prems(1) by (cases ?scan) simp_all
  from scanLines_InrD [OF this] have fresh:
    "distinct (bodyIDs src)" "set (bodyIDs src) \<inter> set (allIDs prev) = {}"
    by (simp_all add: bodyIDs_def dom_firstOwner)
  then have scan: "?scan = Inr (firstOwner (prev @ [src]), n + of_nat (CountRules (src_Body src)))"
    by (rule scanLines_source)
  have "distinct (allIDs ((prev @ [src]) @ sources))"
    by (rule Cons.IH) (use scan Cons.prems fresh in auto)
  then show ?case by simp
qed

lemma Compile_eq:
  "Compile sources =
     (case compileLoop sources '''' (firstOwner []) 0 of
        Inl e \<Rightarrow> Inl e
      | Inr (compiled, ruleCount) \<Rightarrow>
          Inr \<lparr>cb_Compiled = compiled, cb_SHA256 = sha256hex compiled, cb_RuleCount = ruleCount\<rparr>)"
  by (simp add: Compile_def split: sum.splits)

lemma Compile_InlD:
  assumes "Compile sources = Inl e"
  obtains pre src post ids rest where "sources = pre @ src # post"
    "bodyIDs src = ids @ ce_RuleID e # rest" "distinct (allIDs pre @ ids)"
    "ce_RuleID e \<in> set (allIDs pre @ ids)" "ce_Second e = srcLabel src"
    "firstOwner (pre @ [src]) (ce_RuleID e) = Some (ce_First e)"
proof -
  have "compileLoop sources '''' (firstOwner []) 0 = Inl e"
    using assms by (auto simp: Compile_eq split: sum.splits)
  from compileLoop_conflict [OF this] show thesis
    using that by auto
qed

lemma Compile_Inr_iff:
  "Compile sources = Inr b \<longleftrightarrow> distinct (allIDs sources) \<and>
     b = \<lparr>cb_Compiled = concat (map writeSource sources),
          cb_SHA256 = sha256hex (concat (map writeSource sources)),
          cb_RuleCount = of_nat (directiveCount sources)\<rparr>"
proof -
  have "distinct (allIDs sources)" if "Compile sources = Inr b"
    using that compileLoop_InrD [of sources "''''" "[]" 0]
    by (auto simp: Compile_eq split: sum.splits)
  moreover have "Compile sources = Inr
      \<lparr>cb_Compiled = concat (map writeSource sources),
       cb_SHA256 = sha256hex (concat (map writeSource sources)),
       cb_RuleCount = of_nat (directiveCount sources)\<rparr>" if "distinct (allIDs sources)"
    using that compileLoop_ok [of "[]" sources "''''" 0] by (simp add: Compile_eq)
  ultimately show ?thesis by auto
qed

subsection \<open>Counting on the compiled text\<close>

lemma countLines_append: "countLines (xs @ ys) = countLines xs + countLines ys"
  by (induction xs) auto

lemma CountRules_nl: "CountRules (a @ nl # b) = CountRules a + CountRules b"
  by (simp add: CountRules_def splitOn_append_sep countLines_append)

lemma CountRules_comment: "nl \<notin> set s \<Longrightarrow> CountRules (CHR ''#'' # s) = 0"
  by (simp add: CountRules_def nl_def splitOn_no_sep ruleDirectiveRe_def isSpaceChar_def
      keywordAt_def eatFold_def)

lemma CountRules_Nil [simp]: "CountRules [] = 0"
  by (simp add: CountRules_def ruleDirectiveRe_def keywordAt_def eatFold_def)

text \<open>A body and the newline the builder makes sure of, as the lines before the end banner.\<close>

lemma CountRules_body:
  "CountRules (b @ (if length b > 0 \<and> b ! (length b - 1) \<noteq> nl then [nl] else []) @ rest) =
   CountRules b + CountRules rest"
proof (cases b rule: rev_cases)
  case Nil
  then show ?thesis by simp
next
  case (snoc ys y)
  then show ?thesis
    using CountRules_nl [of b rest] CountRules_nl [of ys rest] CountRules_nl [of ys "[]"]
    by (cases "y = nl") (simp_all add: nth_append)
qed

lemma CountRules_writeSource:
  assumes "nl \<notin> set (srcLabel src)"
  shows "CountRules (writeSource src @ rest) = CountRules (src_Body src) + CountRules rest"
proof -
  let ?b = "''# --- begin '' @ srcLabel src @ '' ---''"
  let ?e = "''# --- end '' @ srcLabel src @ '' ---''"
  have be: "CountRules ?b = 0" "CountRules ?e = 0"
    using assms CountRules_comment [of "tl ?b"] CountRules_comment [of "tl ?e"]
    by (simp_all add: nl_def)
  have "writeSource src @ rest = ?b @ nl # (src_Body src
      @ (if length (src_Body src) > 0 \<and> src_Body src ! (length (src_Body src) - 1) \<noteq> nl
         then [nl] else []) @ (?e @ nl # rest))"
    by (simp add: writeSource_def)
  then show ?thesis
    using be by (simp only: CountRules_nl CountRules_body)
qed

lemma CountRules_concat:
  "\<forall>src \<in> set sources. nl \<notin> set (srcLabel src) \<Longrightarrow>
   CountRules (concat (map writeSource sources)) = directiveCount sources"
  by (induction sources) (simp_all add: CountRules_writeSource)

subsection \<open>Properties\<close>

text \<open>
  C6. \<open>Compile\<close> succeeds exactly when no rule id is declared twice over all sources, and then the
  bundle is the banner-wrapped bodies in the declared order, its name is the digest of that text and its
  count is the number of directives modulo \<open>2 ^ 32\<close> (the \<open>int32\<close> counter wraps).
\<close>

theorem compile_succeeds_iff:
  "Compile sources = Inr b \<longleftrightarrow>
     distinct (allIDs sources) \<and>
     cb_Compiled b = concat (map writeSource sources) \<and>
     cb_SHA256 b = sha256hex (cb_Compiled b) \<and>
     cb_RuleCount b = of_nat (directiveCount sources)"
  by (cases b) (auto simp: Compile_Inr_iff)

text \<open>
  C28. A conflict names the right parties: the sources before the second party are free of duplicates, the
  second party declares the reported id, and the first party is a source at or before it that
  declares the same id.
\<close>

theorem compile_conflict_blames:
  assumes "Compile sources = Inl e"
  shows "\<exists>pre src post owner. sources = pre @ src # post \<and> distinct (allIDs pre) \<and>
    ce_Second e = srcLabel src \<and> ce_RuleID e \<in> set (bodyIDs src) \<and>
    owner \<in> set (pre @ [src]) \<and> ce_First e = srcLabel owner \<and> ce_RuleID e \<in> set (bodyIDs owner)"
proof -
  from assms obtain pre src post ids rest where *: "sources = pre @ src # post"
    "bodyIDs src = ids @ ce_RuleID e # rest" "distinct (allIDs pre @ ids)"
    "ce_Second e = srcLabel src" "firstOwner (pre @ [src]) (ce_RuleID e) = Some (ce_First e)"
    by (rule Compile_InlD)
  from firstOwner_SomeD [OF *(5)] obtain owner where
    "owner \<in> set (pre @ [src])" "ce_First e = srcLabel owner" "ce_RuleID e \<in> set (bodyIDs owner)"
    by blast
  with * show ?thesis
    by (intro exI [of _ pre] exI [of _ src] exI [of _ post] exI [of _ owner]) simp
qed

definition demoSource :: "string \<Rightarrow> string \<Rightarrow> Source" where
  "demoSource name body = \<lparr>src_Kind = ''SecRules'', src_Name = name, src_Body = body\<rparr>"

lemma demo_ids:
  "allIDs [demoSource ''a'' ''SecRule ARGS id:7'', demoSource ''b'' ''SecAction id:7''] = [''7'', ''7'']"
  by code_simp

theorem compile_conflict_blames_witness:
  "\<exists>e. Compile [demoSource ''a'' ''SecRule ARGS id:7'', demoSource ''b'' ''SecAction id:7''] = Inl e \<and>
    (\<exists>pre src post owner. [demoSource ''a'' ''SecRule ARGS id:7'', demoSource ''b'' ''SecAction id:7'']
        = pre @ src # post \<and> distinct (allIDs pre) \<and>
      ce_Second e = srcLabel src \<and> ce_RuleID e \<in> set (bodyIDs src) \<and>
      owner \<in> set (pre @ [src]) \<and> ce_First e = srcLabel owner \<and> ce_RuleID e \<in> set (bodyIDs owner))"
proof -
  let ?srcs = "[demoSource ''a'' ''SecRule ARGS id:7'', demoSource ''b'' ''SecAction id:7'']"
  have "\<not> (\<exists>b. Compile ?srcs = Inr b)"
    by (simp only: Compile_Inr_iff demo_ids) simp
  then obtain e where e: "Compile ?srcs = Inl e"
    by (cases "Compile ?srcs") auto
  from compile_conflict_blames [OF e] e show ?thesis by blast
qed

text \<open>
  The count the operator publishes (\<open>RuleCount\<close>) is the count the engine recomputes with
  \<open>CountRules\<close> on the compiled text it receives: the banners and the added newlines change nothing. The
  labels are free of newlines, as the names of Kubernetes objects are.
\<close>

theorem compile_count_agrees:
  assumes "Compile sources = Inr b" and "\<forall>src \<in> set sources. nl \<notin> set (srcLabel src)"
  shows "cb_RuleCount b = of_nat (CountRules (cb_Compiled b))"
  using assms by (simp add: Compile_Inr_iff CountRules_concat)

theorem compile_count_agrees_witness:
  "\<exists>b. Compile [demoSource ''a'' ''SecRule ARGS id:7''] = Inr b \<and>
    cb_RuleCount b = of_nat (CountRules (cb_Compiled b)) \<and> cb_RuleCount b = 1"
proof -
  let ?srcs = "[demoSource ''a'' ''SecRule ARGS id:7'']"
  have d: "distinct (allIDs ?srcs)" and n: "directiveCount ?srcs = 1"
    and l: "\<forall>src \<in> set ?srcs. nl \<notin> set (srcLabel src)"
    by code_simp+
  obtain b where b: "Compile ?srcs = Inr b" and c: "cb_RuleCount b = of_nat (directiveCount ?srcs)"
    using d by (auto simp: Compile_Inr_iff)
  from compile_count_agrees [OF b l] b c n show ?thesis by auto
qed

text \<open>
  A body that declares an id twice is rejected even on its own, with the source named as both parties:
  the check is not limited to ids shared between sources.
\<close>

theorem compile_rejects_repeat_in_source:
  assumes "\<not> distinct (bodyIDs src)"
  shows "\<exists>rid. rid \<in> set (bodyIDs src) \<and>
    Compile [src] = Inl \<lparr>ce_RuleID = rid, ce_First = srcLabel src, ce_Second = srcLabel src\<rparr>"
proof (cases "Compile [src]")
  case (Inl e)
  then obtain pre s post ids rest where *: "[src] = pre @ s # post"
    "bodyIDs s = ids @ ce_RuleID e # rest" "ce_Second e = srcLabel s"
    "firstOwner (pre @ [s]) (ce_RuleID e) = Some (ce_First e)"
    by (rule Compile_InlD)
  then have "pre = []" "s = src" by (cases pre; simp)+
  with * Inl show ?thesis
    by (cases e) (auto split: if_splits)
next
  case (Inr b)
  with assms show ?thesis by (simp add: Compile_Inr_iff)
qed

theorem compile_rejects_repeat_in_source_witness:
  "\<exists>rid. rid \<in> set (bodyIDs (demoSource ''a'' (''SecAction id:7'' @ nl # ''secrule id:7''))) \<and>
    Compile [demoSource ''a'' (''SecAction id:7'' @ nl # ''secrule id:7'')] =
      Inl \<lparr>ce_RuleID = rid, ce_First = ''SecRules/a'', ce_Second = ''SecRules/a''\<rparr>"
proof -
  let ?s = "demoSource ''a'' (''SecAction id:7'' @ nl # ''secrule id:7'')"
  have "\<not> distinct (bodyIDs ?s)" and l: "srcLabel ?s = ''SecRules/a''" by code_simp+
  from compile_rejects_repeat_in_source [OF this(1)] l show ?thesis by simp
qed

text \<open>
  The check reads the line of the directive only: two rules with the same id whose action list stands on
  a continuation line (a backslash and a newline after the operator) compile without a conflict.
\<close>

definition continuedRule :: string where
  "continuedRule = ''SecRule ARGS x '' @ [CHR 0x5C] @ nl # ''  id:7''"

theorem compile_misses_continued_ids:
  "\<exists>b. Compile [demoSource ''a'' continuedRule, demoSource ''b'' continuedRule] = Inr b \<and>
    cb_RuleCount b = 2"
proof -
  let ?srcs = "[demoSource ''a'' continuedRule, demoSource ''b'' continuedRule]"
  have "distinct (allIDs ?srcs)" "directiveCount ?srcs = 2"
    by code_simp+
  then show ?thesis by (simp add: Compile_Inr_iff)
qed

end
