(* ===== verification/Source_Controllers.thy ===== *)
theory Source_Controllers
  imports Kube Compiler
begin

text \<open>
  The reconcilers of the rule sources, \<open>internal/controller/secrules_controller.go\<close> and
  \<open>internal/controller/clustersecrules_controller.go\<close>. Each validates the rules by compiling them alone and
  writes the outcome to the status, when it differs from the stored one. The two files have the same
  shape; the locale \<open>source_controller\<close> states it once and is interpreted on both. Its base, the locale
  \<open>status_patcher\<close>, is the contract of the four copies of \<open>patchStatusIfChanged\<close>.
\<close>

subsection \<open>The contract of \<open>patchStatusIfChanged\<close>\<close>

locale status_patcher =
  fixes status :: "'o \<Rightarrow> 's"
    and deepEqual :: "'s \<Rightarrow> 's \<Rightarrow> bool"
    and update :: "'o \<Rightarrow> ('w, unit) call"
    and patch :: "'o \<Rightarrow> 'o \<Rightarrow> 'w \<Rightarrow> Result result \<times> 'w"
  assumes patch_same: "deepEqual (status a) (status b) \<Longrightarrow> patch a b w = (Inr emptyResult, w)"
    and patch_written: "\<not> deepEqual (status a) (status b) \<Longrightarrow> update b w = (Inr u, w') \<Longrightarrow>
      patch a b w = (Inr emptyResult, w')"
    and patch_failed: "\<not> deepEqual (status a) (status b) \<Longrightarrow> update b w = (Inl e, w') \<Longrightarrow>
      \<exists>t. patch a b w = (Inl t, w')"
begin

text \<open>The world changes only by the update, and only when the statuses differ.\<close>

lemma patch_world:
  "snd (patch a b w) = (if deepEqual (status a) (status b) then w else snd (update b w))"
proof (cases "update b w")
  case (Pair r w')
  then show ?thesis
    using patch_same [of a b w] patch_written [of a b w] patch_failed [of a b w]
    by (cases r) fastforce+
qed

lemma patch_ok_iff:
  "(\<exists>res. fst (patch a b w) = Inr res) \<longleftrightarrow>
   deepEqual (status a) (status b) \<or> (\<exists>u. fst (update b w) = Inr u)"
proof (cases "update b w")
  case (Pair r w')
  then show ?thesis
    using patch_same [of a b w] patch_written [of a b w] patch_failed [of a b w]
    by (cases r; cases "deepEqual (status a) (status b)") fastforce+
qed

lemma patch_result: "fst (patch a b w) = Inr res \<Longrightarrow> res = emptyResult"
proof (cases "update b w")
  case (Pair r w')
  then show "fst (patch a b w) = Inr res \<Longrightarrow> res = emptyResult"
    using patch_same [of a b w] patch_written [of a b w] patch_failed [of a b w]
    by (cases r; cases "deepEqual (status a) (status b)") fastforce+
qed

end

subsection \<open>SecRules\<close>

definition SecRules_patchStatusIfChanged ::
  "'w Kube \<Rightarrow> SecRules \<Rightarrow> SecRules \<Rightarrow> 'w \<Rightarrow> Result result \<times> 'w" where
  "SecRules_patchStatusIfChanged K original updated w =
     (if k_EqSecRulesStatus K (sr_Status original) (sr_Status updated) then (Inr emptyResult, w)
      else
        (case k_UpdateSecRulesStatus K updated w of
           (Inl err, w') \<Rightarrow>
             (Inl (''update SecRules status '' @ om_Namespace (sr_Meta updated) @ ''/''
                @ om_Name (sr_Meta updated) @ '': '' @ errText err), w')
         | (Inr _, w') \<Rightarrow> (Inr emptyResult, w')))"

text \<open>The status \<open>Reconcile\<close> computes for an object it has read, on each of its three branches.\<close>

definition SecRules_statusPatch :: "'w Kube \<Rightarrow> time \<Rightarrow> string \<Rightarrow> SecRules \<Rightarrow> SecRules" where
  "SecRules_statusPatch K now reqName sr =
     (let st = sr_Status sr; gen = om_Generation (sr_Meta sr) in
      if srs_Rules (sr_Spec sr) = ''''
      then sr\<lparr>sr_Status := st\<lparr>srt_Conditions :=
             degrade K now (srt_Conditions st) gen ReasonInvalidSpec ''spec.rules must not be empty''\<rparr>\<rparr>
      else
        (case Compile [\<lparr>src_Kind = SourceRefKindSecRules, src_Name = reqName,
                        src_Body = srs_Rules (sr_Spec sr)\<rparr>] of
           Inl err \<Rightarrow>
             sr\<lparr>sr_Status := st\<lparr>srt_Conditions :=
               degrade K now (srt_Conditions st) gen ReasonInvalidSpec (ConflictError_Error err)\<rparr>\<rparr>
         | Inr bundle \<Rightarrow>
             sr\<lparr>sr_Status := st\<lparr>
               srt_Conditions :=
                 setReady K now (srt_Conditions st) gen ReasonReconciled ''rules compiled successfully'',
               srt_ParsedRuleCount := cb_RuleCount bundle,
               srt_ObservedGeneration := gen\<rparr>\<rparr>))"

definition SecRules_Reconcile :: "'w Kube \<Rightarrow> NamespacedName \<Rightarrow> 'w \<Rightarrow> Result result \<times> 'w" where
  "SecRules_Reconcile K req w =
     (case k_GetSecRules K req w of
        (Inl err, w1) \<Rightarrow>
          (if IsNotFound err then (Inr emptyResult, w1)
           else (Inl (''get SecRules '' @ keyString req @ '': '' @ errText err), w1))
      | (Inr sr, w1) \<Rightarrow>
          SecRules_patchStatusIfChanged K sr (SecRules_statusPatch K (k_Now K w1) (snd req) sr) w1)"

subsection \<open>ClusterSecRules\<close>

definition ClusterSecRules_patchStatusIfChanged ::
  "'w Kube \<Rightarrow> ClusterSecRules \<Rightarrow> ClusterSecRules \<Rightarrow> 'w \<Rightarrow> Result result \<times> 'w" where
  "ClusterSecRules_patchStatusIfChanged K original updated w =
     (if k_EqClusterSecRulesStatus K (csr_Status original) (csr_Status updated) then (Inr emptyResult, w)
      else
        (case k_UpdateClusterSecRulesStatus K updated w of
           (Inl err, w') \<Rightarrow>
             (Inl (''update ClusterSecRules status '' @ om_Name (csr_Meta updated) @ '': '' @ errText err), w')
         | (Inr _, w') \<Rightarrow> (Inr emptyResult, w')))"

definition ClusterSecRules_statusPatch ::
  "'w Kube \<Rightarrow> time \<Rightarrow> string \<Rightarrow> ClusterSecRules \<Rightarrow> ClusterSecRules" where
  "ClusterSecRules_statusPatch K now reqName csr =
     (let st = csr_Status csr; gen = om_Generation (csr_Meta csr) in
      if csrs_Rules (csr_Spec csr) = ''''
      then csr\<lparr>csr_Status := st\<lparr>csrt_Conditions :=
             degrade K now (csrt_Conditions st) gen ReasonInvalidSpec ''spec.rules must not be empty''\<rparr>\<rparr>
      else
        (case Compile [\<lparr>src_Kind = SourceRefKindClusterSecRules, src_Name = reqName,
                        src_Body = csrs_Rules (csr_Spec csr)\<rparr>] of
           Inl err \<Rightarrow>
             csr\<lparr>csr_Status := st\<lparr>csrt_Conditions :=
               degrade K now (csrt_Conditions st) gen ReasonInvalidSpec (ConflictError_Error err)\<rparr>\<rparr>
         | Inr bundle \<Rightarrow>
             csr\<lparr>csr_Status := st\<lparr>
               csrt_Conditions :=
                 setReady K now (csrt_Conditions st) gen ReasonReconciled ''rules compiled successfully'',
               csrt_ParsedRuleCount := cb_RuleCount bundle,
               csrt_ObservedGeneration := gen\<rparr>\<rparr>))"

definition ClusterSecRules_Reconcile :: "'w Kube \<Rightarrow> NamespacedName \<Rightarrow> 'w \<Rightarrow> Result result \<times> 'w" where
  "ClusterSecRules_Reconcile K req w =
     (case k_GetClusterSecRules K req w of
        (Inl err, w1) \<Rightarrow>
          (if IsNotFound err then (Inr emptyResult, w1)
           else (Inl (''get ClusterSecRules '' @ snd req @ '': '' @ errText err), w1))
      | (Inr csr, w1) \<Rightarrow>
          ClusterSecRules_patchStatusIfChanged K csr
            (ClusterSecRules_statusPatch K (k_Now K w1) (snd req) csr) w1)"

subsection \<open>The shape of a source controller\<close>

text \<open>The specification of a valid rules text: not empty, and no id declared twice.\<close>

definition acceptable :: "string \<Rightarrow> bool" where
  "acceptable rules \<longleftrightarrow> rules \<noteq> '''' \<and> distinct (declaredIDs (splitOn nl rules))"

text \<open>
  The views of an object that matter (its rules, generation, conditions, rule count and observed generation) and
  what one reconcile does with them.
\<close>

locale source_controller = status_patcher status deepEqual update patch
  for status :: "'o \<Rightarrow> 's" and deepEqual :: "'s \<Rightarrow> 's \<Rightarrow> bool" and update :: "'o \<Rightarrow> ('w, unit) call"
    and patch :: "'o \<Rightarrow> 'o \<Rightarrow> 'w \<Rightarrow> Result result \<times> 'w" +
  fixes K :: "'w Kube" and kind :: string
    and rules :: "'o \<Rightarrow> string" and gen :: "'o \<Rightarrow> int" and conds :: "'o \<Rightarrow> Condition list"
    and ruleCount :: "'o \<Rightarrow> int32" and observed :: "'o \<Rightarrow> int"
    and get :: "NamespacedName \<Rightarrow> ('w, 'o) call"
    and nextObj :: "time \<Rightarrow> string \<Rightarrow> 'o \<Rightarrow> 'o"
    and reconcile :: "NamespacedName \<Rightarrow> 'w \<Rightarrow> Result result \<times> 'w"
  assumes next_spec: "rules (nextObj now n x) = rules x" "gen (nextObj now n x) = gen x"
    and next_empty: "rules x = '''' \<Longrightarrow> conds (nextObj now n x) =
          degrade K now (conds x) (gen x) ReasonInvalidSpec ''spec.rules must not be empty'' \<and>
        ruleCount (nextObj now n x) = ruleCount x \<and> observed (nextObj now n x) = observed x"
    and next_conflict: "rules x \<noteq> '''' \<Longrightarrow>
        Compile [\<lparr>src_Kind = kind, src_Name = n, src_Body = rules x\<rparr>] = Inl e \<Longrightarrow>
        conds (nextObj now n x) =
          degrade K now (conds x) (gen x) ReasonInvalidSpec (ConflictError_Error e) \<and>
        ruleCount (nextObj now n x) = ruleCount x \<and> observed (nextObj now n x) = observed x"
    and next_compiled: "rules x \<noteq> '''' \<Longrightarrow>
        Compile [\<lparr>src_Kind = kind, src_Name = n, src_Body = rules x\<rparr>] = Inr b \<Longrightarrow>
        conds (nextObj now n x) =
          setReady K now (conds x) (gen x) ReasonReconciled ''rules compiled successfully'' \<and>
        ruleCount (nextObj now n x) = cb_RuleCount b \<and> observed (nextObj now n x) = gen x"
    and next_frame: "conds (nextObj now n x) = conds x \<Longrightarrow> ruleCount (nextObj now n x) = ruleCount x \<Longrightarrow>
        observed (nextObj now n x) = observed x \<Longrightarrow> nextObj now n x = x"
    and rec_found: "get req w = (Inr x, w1) \<Longrightarrow>
        reconcile req w = patch x (nextObj (k_Now K w1) (snd req) x) w1"
    and rec_gone: "get req w = (Inl (NotFound t), w1) \<Longrightarrow> reconcile req w = (Inr emptyResult, w1)"
begin

lemma compiled_iff:
  "(\<exists>b. Compile [\<lparr>src_Kind = kind, src_Name = n, src_Body = r\<rparr>] = Inr b) \<longleftrightarrow>
   distinct (declaredIDs (splitOn nl r))"
  by (simp add: Compile_Inr_iff bodyIDs_def)

text \<open>The two ways a reconcile ends, for every object \<open>y\<close> with the spec of \<open>x\<close>.\<close>

lemma next_cases:
  obtains (rejected) msg where "\<not> acceptable (rules x)"
      "\<And>y now. rules y = rules x \<Longrightarrow> gen y = gen x \<Longrightarrow>
         conds (nextObj now n y) = degrade K now (conds y) (gen x) ReasonInvalidSpec msg \<and>
         ruleCount (nextObj now n y) = ruleCount y \<and> observed (nextObj now n y) = observed y"
    | (ready) "acceptable (rules x)"
      "\<And>y now. rules y = rules x \<Longrightarrow> gen y = gen x \<Longrightarrow>
         conds (nextObj now n y) =
           setReady K now (conds y) (gen x) ReasonReconciled ''rules compiled successfully'' \<and>
         ruleCount (nextObj now n y) = of_nat (CountRules (rules x)) \<and> observed (nextObj now n y) = gen x"
proof (cases "rules x = ''''")
  case True
  then show thesis
    by (intro rejected [of "''spec.rules must not be empty''"]) (simp_all add: next_empty acceptable_def)
next
  case False
  let ?src = "\<lparr>src_Kind = kind, src_Name = n, src_Body = rules x\<rparr>"
  show thesis
  proof (cases "Compile [?src]")
    case (Inl e)
    then have "\<not> acceptable (rules x)"
      using compiled_iff [of n "rules x"] by (auto simp: acceptable_def)
    with False Inl show thesis
      by (intro rejected [of "ConflictError_Error e"]) (simp_all add: next_conflict)
  next
    case (Inr b)
    then have "acceptable (rules x)" "cb_RuleCount b = of_nat (CountRules (rules x))"
      using compiled_iff [of n "rules x"] False by (auto simp: acceptable_def Compile_Inr_iff)
    with False Inr show thesis
      by (intro ready) (simp_all add: next_compiled)
  qed
qed

text \<open>The conditions after a reconcile say exactly whether the rules are acceptable, at the generation read.\<close>

lemma next_status:
  assumes "meta_laws K"
  shows "condStatus (conds (nextObj now n x)) ConditionReady =
      (if acceptable (rules x) then Some ConditionTrue else None)"
    and "condStatus (conds (nextObj now n x)) ConditionProgressing =
      (if acceptable (rules x) then Some ConditionFalse else None)"
    and "condStatus (conds (nextObj now n x)) ConditionDegraded =
      Some (if acceptable (rules x) then ConditionFalse else ConditionTrue)"
    and "condGeneration (conds (nextObj now n x)) ConditionDegraded = Some (gen x)"
    and "ruleCount (nextObj now n x) =
      (if acceptable (rules x) then of_nat (CountRules (rules x)) else ruleCount x)"
    and "observed (nextObj now n x) = (if acceptable (rules x) then gen x else observed x)"
  by (cases x rule: next_cases [of _ n]; simp add: cond_views find_degrade find_setReady assms)+

lemma next_again:
  assumes "meta_laws K"
  shows "nextObj now' n (nextObj now n x) = nextObj now n x"
proof (rule next_frame)
  let ?y = "nextObj now n x"
  have y: "rules ?y = rules x" "gen ?y = gen x" by (simp_all add: next_spec)
  show "conds (nextObj now' n ?y) = conds ?y" "ruleCount (nextObj now' n ?y) = ruleCount ?y"
    "observed (nextObj now' n ?y) = observed ?y"
    by (cases x rule: next_cases [of _ n]; use y in \<open>simp add: degrade_again setReady_again assms\<close>)+
qed

text \<open>A reconcile that finds the status a previous one wrote has nothing to do.\<close>

lemma reconcile_steady:
  assumes "meta_laws K" and "\<And>s. deepEqual s s"
    and "get req w = (Inr (nextObj now (snd req) x), w1)"
  shows "reconcile req w = (Inr emptyResult, w1)"
  using assms by (simp add: rec_found next_again patch_same)

end

interpretation sec_rules: source_controller sr_Status "k_EqSecRulesStatus K" "k_UpdateSecRulesStatus K"
  "SecRules_patchStatusIfChanged K" K SourceRefKindSecRules "\<lambda>x. srs_Rules (sr_Spec x)"
  "\<lambda>x. om_Generation (sr_Meta x)" "\<lambda>x. srt_Conditions (sr_Status x)"
  "\<lambda>x. srt_ParsedRuleCount (sr_Status x)" "\<lambda>x. srt_ObservedGeneration (sr_Status x)"
  "k_GetSecRules K" "SecRules_statusPatch K" "SecRules_Reconcile K" for K
  by unfold_locales
    (auto simp: SecRules_patchStatusIfChanged_def SecRules_statusPatch_def SecRules_Reconcile_def Let_def
      split: sum.splits)

interpretation cluster_sec_rules: source_controller csr_Status "k_EqClusterSecRulesStatus K"
  "k_UpdateClusterSecRulesStatus K"
  "ClusterSecRules_patchStatusIfChanged K" K SourceRefKindClusterSecRules "\<lambda>x. csrs_Rules (csr_Spec x)"
  "\<lambda>x. om_Generation (csr_Meta x)" "\<lambda>x. csrt_Conditions (csr_Status x)"
  "\<lambda>x. csrt_ParsedRuleCount (csr_Status x)" "\<lambda>x. csrt_ObservedGeneration (csr_Status x)"
  "k_GetClusterSecRules K" "ClusterSecRules_statusPatch K" "ClusterSecRules_Reconcile K" for K
  by unfold_locales
    (auto simp: ClusterSecRules_patchStatusIfChanged_def ClusterSecRules_statusPatch_def
      ClusterSecRules_Reconcile_def Let_def split: sum.splits)

subsection \<open>Properties\<close>

text \<open>
  C40. A reconcile of a \<open>SecRules\<close> object that was read writes at most one status, exactly when it differs, and
  that status is the verdict on the rules: \<open>Ready\<close> is true when the text is not empty and declares no id twice;
  otherwise \<open>Ready\<close> and \<open>Progressing\<close> are absent and \<open>Degraded\<close> is true. The rule count and the observed
  generation follow only an accepted text.
\<close>

theorem secrules_reconcile_verdict:
  assumes "meta_laws K" and "deep_equal_laws K" and "k_GetSecRules K req w = (Inr sr, w1)"
  shows "\<exists>sr'. snd (SecRules_Reconcile K req w) =
      (if sr_Status sr' = sr_Status sr then w1 else snd (k_UpdateSecRulesStatus K sr' w1)) \<and>
    sr' = sr\<lparr>sr_Status := sr_Status sr'\<rparr> \<and>
    (let ok = acceptable (srs_Rules (sr_Spec sr)); cs = srt_Conditions (sr_Status sr') in
      condStatus cs ConditionReady = (if ok then Some ConditionTrue else None) \<and>
      condStatus cs ConditionProgressing = (if ok then Some ConditionFalse else None) \<and>
      condStatus cs ConditionDegraded = Some (if ok then ConditionFalse else ConditionTrue) \<and>
      condGeneration cs ConditionDegraded = Some (om_Generation (sr_Meta sr)) \<and>
      srt_ParsedRuleCount (sr_Status sr') =
        (if ok then of_nat (CountRules (srs_Rules (sr_Spec sr))) else srt_ParsedRuleCount (sr_Status sr)) \<and>
      srt_ObservedGeneration (sr_Status sr') =
        (if ok then om_Generation (sr_Meta sr) else srt_ObservedGeneration (sr_Status sr)))"
proof (intro exI conjI)
  let ?sr = "SecRules_statusPatch K (k_Now K w1) (snd req) sr"
  show "snd (SecRules_Reconcile K req w) =
      (if sr_Status ?sr = sr_Status sr then w1 else snd (k_UpdateSecRulesStatus K ?sr w1))"
    using assms(2) by (auto simp: sec_rules.rec_found [OF assms(3)] sec_rules.patch_world deep_equal_laws_def)
  show "?sr = sr\<lparr>sr_Status := sr_Status ?sr\<rparr>"
    by (simp add: SecRules_statusPatch_def Let_def split: sum.splits)
qed (unfold Let_def, intro conjI sec_rules.next_status [OF assms(1)])

lemma demo_rules_acceptable:
  "acceptable ''SecAction id:7''" "CountRules ''SecAction id:7'' = 1" "\<not> acceptable ''''"
  by code_simp+

definition demoMeta :: "string \<Rightarrow> string \<Rightarrow> ObjectMeta" where
  "demoMeta ns name =
     \<lparr>om_Name = name, om_Namespace = ns, om_Generation = 3, om_ResourceVersion = ''1'',
      om_Labels = Map.empty, om_Annotations = Map.empty, om_OwnerReferences = []\<rparr>"

definition demoSecRules :: "string \<Rightarrow> SecRules" where
  "demoSecRules rules =
     \<lparr>sr_Meta = demoMeta ''ns'' ''a'', sr_Spec = \<lparr>srs_Rules = rules, srs_Description = ''''\<rparr>,
      sr_Status = \<lparr>srt_Conditions = [], srt_ObservedGeneration = 0, srt_ParsedRuleCount = 0\<rparr>\<rparr>"

definition demoClusterSecRules :: "string \<Rightarrow> ClusterSecRules" where
  "demoClusterSecRules rules =
     \<lparr>csr_Meta = demoMeta '''' ''c'', csr_Spec = \<lparr>csrs_Rules = rules, csrs_Description = ''''\<rparr>,
      csr_Status = \<lparr>csrt_Conditions = [], csrt_ObservedGeneration = 0, csrt_ParsedRuleCount = 0\<rparr>\<rparr>"

lemma demo_gets [simp]:
  "k_GetSecRules demoKube key w = (lookupObj sr_Meta (dw_SecRules w) key, w)"
  "k_GetClusterSecRules demoKube key w = (lookupObj csr_Meta (dw_ClusterSecRules w) key, w)"
  "k_GetRuleSet demoKube key w = (lookupObj rs_Meta (dw_RuleSets w) key, w)"
  "k_GetEngine demoKube key w = (lookupObj en_Meta (dw_Engines w) key, w)"
  "k_GetDeployment demoKube key w = (lookupObj dp_Meta (dw_Deployments w) key, w)"
  by (simp_all add: demoKube_def)

lemma lookupObj_simps [simp]:
  "lookupObj meta [] key = Inl (NotFound (keyString key @ '' not found''))"
  "lookupObj meta (x # xs) key = (if metaKey (meta x) = key then Inr x else lookupObj meta xs key)"
  by (simp_all add: lookupObj_def)

theorem secrules_reconcile_verdict_witness:
  "\<exists>sr'. snd (SecRules_Reconcile demoKube (''ns'', ''a'')
        (emptyWorld\<lparr>dw_SecRules := [demoSecRules ''SecAction id:7'']\<rparr>)) =
      (if sr_Status sr' = sr_Status (demoSecRules ''SecAction id:7'')
       then emptyWorld\<lparr>dw_SecRules := [demoSecRules ''SecAction id:7'']\<rparr>
       else snd (k_UpdateSecRulesStatus demoKube sr'
         (emptyWorld\<lparr>dw_SecRules := [demoSecRules ''SecAction id:7'']\<rparr>))) \<and>
    condStatus (srt_Conditions (sr_Status sr')) ConditionReady = Some ConditionTrue \<and>
    srt_ParsedRuleCount (sr_Status sr') = 1"
proof -
  let ?sr = "demoSecRules ''SecAction id:7''"
  let ?w = "emptyWorld\<lparr>dw_SecRules := [?sr]\<rparr>"
  have "k_GetSecRules demoKube (''ns'', ''a'') ?w = (Inr ?sr, ?w)"
    by (simp add: demoSecRules_def demoMeta_def metaKey_def)
  moreover have "srs_Rules (sr_Spec ?sr) = ''SecAction id:7''"
    by (simp add: demoSecRules_def)
  ultimately show ?thesis
    using secrules_reconcile_verdict [OF demo_meta_laws demo_deep_equal_laws, of "(''ns'', ''a'')" ?w ?sr ?w]
    by (simp only: Let_def demo_rules_acceptable if_True of_nat_1) blast
qed

text \<open>
  The same verdict for \<open>ClusterSecRules\<close>, by the other interpretation of the shared contract.
\<close>

theorem clustersecrules_reconcile_verdict:
  assumes "meta_laws K" and "deep_equal_laws K" and "k_GetClusterSecRules K req w = (Inr csr, w1)"
  shows "\<exists>csr'. snd (ClusterSecRules_Reconcile K req w) =
      (if csr_Status csr' = csr_Status csr then w1 else snd (k_UpdateClusterSecRulesStatus K csr' w1)) \<and>
    csr' = csr\<lparr>csr_Status := csr_Status csr'\<rparr> \<and>
    (let ok = acceptable (csrs_Rules (csr_Spec csr)); cs = csrt_Conditions (csr_Status csr') in
      condStatus cs ConditionReady = (if ok then Some ConditionTrue else None) \<and>
      condStatus cs ConditionProgressing = (if ok then Some ConditionFalse else None) \<and>
      condStatus cs ConditionDegraded = Some (if ok then ConditionFalse else ConditionTrue) \<and>
      condGeneration cs ConditionDegraded = Some (om_Generation (csr_Meta csr)) \<and>
      csrt_ParsedRuleCount (csr_Status csr') =
        (if ok then of_nat (CountRules (csrs_Rules (csr_Spec csr)))
         else csrt_ParsedRuleCount (csr_Status csr)) \<and>
      csrt_ObservedGeneration (csr_Status csr') =
        (if ok then om_Generation (csr_Meta csr) else csrt_ObservedGeneration (csr_Status csr)))"
proof (intro exI conjI)
  let ?csr = "ClusterSecRules_statusPatch K (k_Now K w1) (snd req) csr"
  show "snd (ClusterSecRules_Reconcile K req w) =
      (if csr_Status ?csr = csr_Status csr then w1 else snd (k_UpdateClusterSecRulesStatus K ?csr w1))"
    using assms(2)
    by (auto simp: cluster_sec_rules.rec_found [OF assms(3)] cluster_sec_rules.patch_world
        deep_equal_laws_def)
  show "?csr = csr\<lparr>csr_Status := csr_Status ?csr\<rparr>"
    by (simp add: ClusterSecRules_statusPatch_def Let_def split: sum.splits)
qed (unfold Let_def, intro conjI cluster_sec_rules.next_status [OF assms(1)])

theorem clustersecrules_reconcile_verdict_witness:
  "\<exists>csr'. snd (ClusterSecRules_Reconcile demoKube ('''', ''c'')
        (emptyWorld\<lparr>dw_ClusterSecRules := [demoClusterSecRules '''']\<rparr>)) =
      (if csr_Status csr' = csr_Status (demoClusterSecRules '''')
       then emptyWorld\<lparr>dw_ClusterSecRules := [demoClusterSecRules '''']\<rparr>
       else snd (k_UpdateClusterSecRulesStatus demoKube csr'
         (emptyWorld\<lparr>dw_ClusterSecRules := [demoClusterSecRules '''']\<rparr>))) \<and>
    condStatus (csrt_Conditions (csr_Status csr')) ConditionReady = None \<and>
    condStatus (csrt_Conditions (csr_Status csr')) ConditionDegraded = Some ConditionTrue"
proof -
  let ?csr = "demoClusterSecRules ''''"
  let ?w = "emptyWorld\<lparr>dw_ClusterSecRules := [?csr]\<rparr>"
  have "k_GetClusterSecRules demoKube ('''', ''c'') ?w = (Inr ?csr, ?w)"
    by (simp add: demoClusterSecRules_def demoMeta_def metaKey_def)
  moreover have "csrs_Rules (csr_Spec ?csr) = ''''"
    by (simp add: demoClusterSecRules_def)
  ultimately show ?thesis
    using clustersecrules_reconcile_verdict
      [OF demo_meta_laws demo_deep_equal_laws, of "('''', ''c'')" ?w ?csr ?w]
    by (simp only: Let_def demo_rules_acceptable if_False) blast
qed

text \<open>
  A steady source is silent: when the object read back carries the status an earlier reconcile computed for
  it, at whatever time, the next reconcile of either kind returns without an error and calls no update.
\<close>

theorem source_reconcile_steady:
  assumes "meta_laws K" and "deep_equal_laws K"
    and "k_GetSecRules K req w = (Inr (SecRules_statusPatch K t (snd req) sr), w1)"
    and "k_GetClusterSecRules K creq v = (Inr (ClusterSecRules_statusPatch K t (snd creq) csr), v1)"
  shows "SecRules_Reconcile K req w = (Inr emptyResult, w1) \<and>
    ClusterSecRules_Reconcile K creq v = (Inr emptyResult, v1)"
  using assms sec_rules.reconcile_steady [OF assms(1) _ assms(3)]
    cluster_sec_rules.reconcile_steady [OF assms(1) _ assms(4)]
  by (simp add: deep_equal_laws_def)

theorem source_reconcile_steady_witness:
  "\<exists>w w' v v'. SecRules_Reconcile demoKube (''ns'', ''a'') w = (Inr emptyResult, w') \<and>
     ClusterSecRules_Reconcile demoKube ('''', ''c'') v = (Inr emptyResult, v')"
proof -
  let ?sr = "SecRules_statusPatch demoKube 1 ''a'' (demoSecRules '''')"
  let ?csr = "ClusterSecRules_statusPatch demoKube 1 ''c'' (demoClusterSecRules '''')"
  let ?w = "emptyWorld\<lparr>dw_SecRules := [?sr], dw_ClusterSecRules := [?csr]\<rparr>"
  have g: "k_GetSecRules demoKube (''ns'', ''a'') ?w = (Inr ?sr, ?w)"
    "k_GetClusterSecRules demoKube ('''', ''c'') ?w = (Inr ?csr, ?w)"
    by (simp_all add: SecRules_statusPatch_def ClusterSecRules_statusPatch_def demoSecRules_def
        demoClusterSecRules_def demoMeta_def metaKey_def)
  have "SecRules_Reconcile demoKube (''ns'', ''a'') ?w = (Inr emptyResult, ?w) \<and>
      ClusterSecRules_Reconcile demoKube ('''', ''c'') ?w = (Inr emptyResult, ?w)"
    using source_reconcile_steady [OF demo_meta_laws demo_deep_equal_laws, of "(''ns'', ''a'')" ?w 1
        "demoSecRules ''''" ?w "('''', ''c'')" ?w "demoClusterSecRules ''''" ?w] g
    by (simp only: snd_conv)
  then show ?thesis by blast
qed

end
