(* ===== verification/Rulestore.thy ===== *)
theory Rulestore
  imports Go_Prelude
begin

text \<open>
  The in-memory store of compiled bundles, \<open>internal/rulestore/store.go\<close>. A subscription is a
  pointer, modelled by its number in allocation order; its channel (buffer 1) is the list of bundles it
  holds, kept in a heap of channels. An operation whose channel send would block returns \<open>None\<close>.
  The first part models every method as one atomic operation, gives the invariant of the store and
  shows that a subscriber that drains its channel has seen the current bundle. \<open>Subscribe\<close> sends the
  current bundle after it has released the lock, so the second part splits the calls into their
  real steps and shows what an interleaved \<open>Publish\<close> does: the overtaken call can wait for ever, and a publisher can
  block with the lock held. What the first part shows of \<open>Publish\<close> holds between whole calls only.
\<close>

subsection \<open>Data\<close>

record Bundle =
  b_RuleSetName :: string
  b_SHA256 :: string
  b_Compiled :: string
  b_GeneratedAt :: time

record engineKey =
  ek_ns :: string
  ek_name :: string

type_synonym subID = nat

text \<open>
  \<open>st_chans\<close> is the heap of channels of all subscriptions allocated so far (those below \<open>st_next\<close>);
  \<open>st_subscribers\<close> maps a key to the members of its \<open>map[*subscription]struct{}\<close>.
\<close>

record Store =
  st_bundles :: "engineKey \<rightharpoonup> Bundle"
  st_subscribers :: "engineKey \<rightharpoonup> subID list"
  st_chans :: "subID \<Rightarrow> Bundle list"
  st_next :: subID

abbreviation mkKey :: "string \<Rightarrow> string \<Rightarrow> engineKey" where
  "mkKey ns name \<equiv> \<lparr>ek_ns = ns, ek_name = name\<rparr>"

definition NewStore :: Store where
  "NewStore = \<lparr>st_bundles = Map.empty, st_subscribers = Map.empty, st_chans = (\<lambda>_. []), st_next = 0\<rparr>"

subsection \<open>Channels of capacity one\<close>

definition chanCap :: nat where
  "chanCap = 1"

text \<open>A send and a receive that succeed at once, or \<open>None\<close> when they would block.\<close>

definition chanSend :: "'a list \<Rightarrow> 'a \<Rightarrow> 'a list option" where
  "chanSend ch b = (if length ch < chanCap then Some (ch @ [b]) else None)"

definition chanRecv :: "'a list \<Rightarrow> ('a \<times> 'a list) option" where
  "chanRecv ch = (case ch of [] \<Rightarrow> None | x # xs \<Rightarrow> Some (x, xs))"

definition sendLatest :: "Bundle list \<Rightarrow> Bundle \<Rightarrow> Bundle list option" where
  "sendLatest ch b =
     (case chanSend ch b of
        Some ch' \<Rightarrow> Some ch'
      | None \<Rightarrow>
          chanSend (case chanRecv ch of Some (stale, ch') \<Rightarrow> ch' | None \<Rightarrow> ch) b)"

subsection \<open>The operations\<close>

text \<open>The loop over \<open>s.subscribers[k]\<close>; a key that is absent has no members.\<close>

fun fanOut :: "subID list \<Rightarrow> Bundle \<Rightarrow> (subID \<Rightarrow> Bundle list) \<Rightarrow> (subID \<Rightarrow> Bundle list) option" where
  "fanOut [] b chans = Some chans"
| "fanOut (sub # subs) b chans =
     (case sendLatest (chans sub) b of
        None \<Rightarrow> None
      | Some ch' \<Rightarrow> fanOut subs b (chans(sub := ch')))"

definition subsOf :: "Store \<Rightarrow> engineKey \<Rightarrow> subID list" where
  "subsOf s k = (case st_subscribers s k of None \<Rightarrow> [] | Some subs \<Rightarrow> subs)"

definition Publish :: "Store \<Rightarrow> engineKey \<Rightarrow> Bundle \<Rightarrow> Store option" where
  "Publish s k b =
     (case fanOut (subsOf s k) b (st_chans s) of
        None \<Rightarrow> None
      | Some chans \<Rightarrow> Some (s\<lparr>st_bundles := (st_bundles s)(k \<mapsto> b), st_chans := chans\<rparr>))"

definition PublishIfChanged :: "Store \<Rightarrow> engineKey \<Rightarrow> Bundle \<Rightarrow> (Store \<times> bool) option" where
  "PublishIfChanged s k b =
     (if (case st_bundles s k of Some current \<Rightarrow> b_SHA256 current = b_SHA256 b | None \<Rightarrow> False)
      then Some (s, False)
      else
        (case fanOut (subsOf s k) b (st_chans s) of
           None \<Rightarrow> None
         | Some chans \<Rightarrow>
             Some (s\<lparr>st_bundles := (st_bundles s)(k \<mapsto> b), st_chans := chans\<rparr>, True)))"

definition Get :: "Store \<Rightarrow> engineKey \<Rightarrow> Bundle option" where
  "Get s k = st_bundles s k"

text \<open>The critical section of \<open>Subscribe\<close>: allocate, register, read the current bundle.\<close>

definition Subscribe_register :: "Store \<Rightarrow> engineKey \<Rightarrow> Store \<times> subID \<times> Bundle option" where
  "Subscribe_register s k =
     (let sub = st_next s
      in (s\<lparr>st_subscribers := (st_subscribers s)(k \<mapsto> subsOf s k @ [sub]),
            st_chans := (st_chans s)(sub := []),
            st_next := Suc sub\<rparr>,
          sub, st_bundles s k))"

text \<open>The send after the lock is released.\<close>

definition Subscribe_send :: "Store \<Rightarrow> subID \<Rightarrow> Bundle option \<Rightarrow> Store option" where
  "Subscribe_send s sub cur =
     (case cur of
        None \<Rightarrow> Some s
      | Some b \<Rightarrow>
          (case chanSend (st_chans s sub) b of
             None \<Rightarrow> None
           | Some ch' \<Rightarrow> Some (s\<lparr>st_chans := (st_chans s)(sub := ch')\<rparr>)))"

text \<open>A call of \<open>Subscribe\<close> that nothing interrupts.\<close>

definition Store_Subscribe :: "Store \<Rightarrow> engineKey \<Rightarrow> (Store \<times> subID) option" where
  "Store_Subscribe s k =
     (case Subscribe_register s k of
        (s', sub, cur) \<Rightarrow> map_option (\<lambda>s''. (s'', sub)) (Subscribe_send s' sub cur))"

text \<open>The returned \<open>unsub\<close> closure; deleting from an absent map does nothing.\<close>

definition unsub :: "Store \<Rightarrow> engineKey \<Rightarrow> subID \<Rightarrow> Store" where
  "unsub s k sub =
     (let subs = removeAll sub (subsOf s k)
      in s\<lparr>st_subscribers :=
             (if subs = [] then (st_subscribers s)(k := None) else (st_subscribers s)(k \<mapsto> subs))\<rparr>)"

text \<open>\<open><-ch\<close> by the subscriber.\<close>

definition recvBundle :: "Store \<Rightarrow> subID \<Rightarrow> (Bundle \<times> Store) option" where
  "recvBundle s sub =
     (case chanRecv (st_chans s sub) of
        None \<Rightarrow> None
      | Some (b, ch') \<Rightarrow> Some (b, s\<lparr>st_chans := (st_chans s)(sub := ch')\<rparr>))"

subsection \<open>Channels\<close>

lemma sendLatest_cap: "length ch \<le> chanCap \<Longrightarrow> sendLatest ch b = Some [b]"
  by (cases ch) (auto simp: sendLatest_def chanSend_def chanRecv_def chanCap_def)

lemma fanOut_total:
  assumes "\<forall>sub. length (chans sub) \<le> chanCap"
  shows "fanOut subs b chans = Some (\<lambda>sub. if sub \<in> set subs then [b] else chans sub)"
  using assms
proof (induction subs arbitrary: chans)
  case Nil
  then show ?case by simp
next
  case (Cons sub subs)
  have "\<forall>t. length ((chans(sub := [b])) t) \<le> chanCap"
    using Cons.prems by (simp add: chanCap_def)
  from Cons.IH [OF this] have "fanOut subs b (chans(sub := [b])) =
      Some (\<lambda>t. if t \<in> set subs then [b] else (chans(sub := [b])) t)" .
  moreover have "sendLatest (chans sub) b = Some [b]"
    using Cons.prems by (simp add: sendLatest_cap)
  ultimately show ?case by (auto simp: fun_eq_iff)
qed

subsection \<open>The invariant\<close>

text \<open>
  No channel exceeds its capacity; the members of a key are distinct, allocated and not members of
  another key; a key with no member is absent.
\<close>

definition store_inv :: "Store \<Rightarrow> bool" where
  "store_inv s \<longleftrightarrow>
     (\<forall>sub. length (st_chans s sub) \<le> chanCap) \<and>
     (\<forall>k subs. st_subscribers s k = Some subs \<longrightarrow>
        subs \<noteq> [] \<and> distinct subs \<and> (\<forall>sub \<in> set subs. sub < st_next s)) \<and>
     (\<forall>k k' sub. sub \<in> set (subsOf s k) \<longrightarrow> sub \<in> set (subsOf s k') \<longrightarrow> k = k')"

lemma store_invD:
  assumes "store_inv s"
  shows "length (st_chans s sub) \<le> chanCap" and "distinct (subsOf s k)"
    and "sub \<in> set (subsOf s k) \<Longrightarrow> sub < st_next s"
    and "sub \<in> set (subsOf s k) \<Longrightarrow> sub \<in> set (subsOf s k') \<Longrightarrow> k = k'"
proof -
  show "length (st_chans s sub) \<le> chanCap" "distinct (subsOf s k)"
    using assms by (auto simp: store_inv_def subsOf_def split: option.splits)
  show "sub < st_next s" if "sub \<in> set (subsOf s k)"
    using that assms by (cases "st_subscribers s k") (auto simp: store_inv_def subsOf_def)
  show "k = k'" if "sub \<in> set (subsOf s k)" "sub \<in> set (subsOf s k')"
    using that assms by (simp add: store_inv_def)
qed

lemma store_inv_NewStore: "store_inv NewStore"
  by (simp add: store_inv_def NewStore_def subsOf_def)

text \<open>A store whose channels were overwritten by \<open>b\<close> for the members of \<open>k\<close>.\<close>

definition delivered :: "Store \<Rightarrow> engineKey \<Rightarrow> Bundle \<Rightarrow> Store" where
  "delivered s k b =
     s\<lparr>st_bundles := (st_bundles s)(k \<mapsto> b),
       st_chans := (\<lambda>sub. if sub \<in> set (subsOf s k) then [b] else st_chans s sub)\<rparr>"

lemma delivered_simps [simp]:
  "st_bundles (delivered s k b) = (st_bundles s)(k \<mapsto> b)"
  "st_subscribers (delivered s k b) = st_subscribers s"
  "st_next (delivered s k b) = st_next s"
  "st_chans (delivered s k b) sub = (if sub \<in> set (subsOf s k) then [b] else st_chans s sub)"
  "subsOf (delivered s k b) k' = subsOf s k'"
  by (simp_all add: delivered_def subsOf_def)

lemma delivered_inv: "store_inv s \<Longrightarrow> store_inv (delivered s k b)"
  unfolding store_inv_def delivered_simps by (simp add: chanCap_def)

lemma Publish_eq: "store_inv s \<Longrightarrow> Publish s k b = Some (delivered s k b)"
  by (simp add: Publish_def fanOut_total store_invD delivered_def)

definition isDuplicate :: "Store \<Rightarrow> engineKey \<Rightarrow> Bundle \<Rightarrow> bool" where
  "isDuplicate s k b \<longleftrightarrow> (\<exists>current. st_bundles s k = Some current \<and> b_SHA256 current = b_SHA256 b)"

lemma PublishIfChanged_eq:
  "store_inv s \<Longrightarrow> PublishIfChanged s k b =
     (if isDuplicate s k b then Some (s, False) else Some (delivered s k b, True))"
  by (auto simp: PublishIfChanged_def isDuplicate_def fanOut_total store_invD delivered_def
      split: option.splits)

text \<open>The store a completed \<open>Subscribe\<close> leaves.\<close>

definition subscribed :: "Store \<Rightarrow> engineKey \<Rightarrow> Store" where
  "subscribed s k =
     s\<lparr>st_subscribers := (st_subscribers s)(k \<mapsto> subsOf s k @ [st_next s]),
       st_chans := (st_chans s)(st_next s := (case st_bundles s k of None \<Rightarrow> [] | Some b \<Rightarrow> [b])),
       st_next := Suc (st_next s)\<rparr>"

lemma Store_Subscribe_eq: "Store_Subscribe s k = Some (subscribed s k, st_next s)"
  by (simp add: Store_Subscribe_def Subscribe_register_def Subscribe_send_def subscribed_def
      chanSend_def chanCap_def Let_def split: option.splits)

lemma subscribed_simps [simp]:
  "st_bundles (subscribed s k) = st_bundles s"
  "st_next (subscribed s k) = Suc (st_next s)"
  "st_chans (subscribed s k) sub =
     (if sub = st_next s then (case st_bundles s k of None \<Rightarrow> [] | Some b \<Rightarrow> [b]) else st_chans s sub)"
  "subsOf (subscribed s k) k' = (if k' = k then subsOf s k @ [st_next s] else subsOf s k')"
  by (simp_all add: subscribed_def subsOf_def)

lemma store_invI:
  assumes "\<And>sub. length (st_chans s sub) \<le> chanCap"
    and "\<And>k. st_subscribers s k \<noteq> Some []" and "\<And>k. distinct (subsOf s k)"
    and "\<And>k sub. sub \<in> set (subsOf s k) \<Longrightarrow> sub < st_next s"
    and "\<And>k k' sub. sub \<in> set (subsOf s k) \<Longrightarrow> sub \<in> set (subsOf s k') \<Longrightarrow> k = k'"
  shows "store_inv s"
  using assms unfolding store_inv_def subsOf_def
  by (metis option.case(2))

lemma subscribed_inv:
  assumes inv: "store_inv s"
  shows "store_inv (subscribed s k)"
proof (rule store_invI)
  show "length (st_chans (subscribed s k) sub) \<le> chanCap" for sub
    using store_invD(1) [OF inv] by (simp add: chanCap_def split: option.splits)
  show "st_subscribers (subscribed s k) k' \<noteq> Some []" for k'
    using inv by (auto simp: subscribed_def store_inv_def)
  show "distinct (subsOf (subscribed s k) k')" for k'
    using store_invD(2,3) [OF inv] by auto
  show "sub < st_next (subscribed s k)" if "sub \<in> set (subsOf (subscribed s k) k')" for k' sub
    using that store_invD(3) [OF inv, of sub k'] by (auto split: if_splits)
  show "k1 = k2" if "sub \<in> set (subsOf (subscribed s k) k1)" "sub \<in> set (subsOf (subscribed s k) k2)"
    for k1 k2 sub
    using that store_invD(3,4) [OF inv] by (auto split: if_splits)
qed

lemma unsub_simps [simp]:
  "st_bundles (unsub s k sub) = st_bundles s"
  "st_next (unsub s k sub) = st_next s"
  "st_chans (unsub s k sub) = st_chans s"
  "subsOf (unsub s k sub) k' = (if k' = k then removeAll sub (subsOf s k) else subsOf s k')"
  by (auto simp: unsub_def subsOf_def Let_def)

lemma unsub_inv:
  assumes inv: "store_inv s"
  shows "store_inv (unsub s k sub)"
proof (rule store_invI)
  show "st_subscribers (unsub s k sub) k' \<noteq> Some []" for k'
    using inv by (auto simp: unsub_def store_inv_def Let_def)
qed (use store_invD [OF inv] in \<open>auto simp: distinct_removeAll split: if_splits\<close>)

lemma recvBundle_inv:
  assumes inv: "store_inv s" and r: "recvBundle s sub = Some (b, s')"
  shows "store_inv s'"
proof -
  from r obtain ch where s': "s' = s\<lparr>st_chans := (st_chans s)(sub := ch)\<rparr>" and
    ch: "st_chans s sub = b # ch"
    by (auto simp: recvBundle_def chanRecv_def split: option.splits list.splits)
  have "length ch \<le> chanCap"
    using store_invD(1) [OF inv, of sub] ch by simp
  with inv s' show ?thesis
    by (auto simp: store_inv_def subsOf_def)
qed

lemmas store_eqs = Publish_eq PublishIfChanged_eq Store_Subscribe_eq
lemmas store_inv_ops = store_inv_NewStore delivered_inv subscribed_inv unsub_inv recvBundle_inv

subsection \<open>Runs of atomic operations\<close>

text \<open>The store together with the bundle each subscriber has read last.\<close>

record observed =
  ob_store :: Store
  ob_seen :: "subID \<Rightarrow> Bundle option"

text \<open>Whole calls, one after the other; \<open>Subscribe\<close> is one step, with its send.\<close>

inductive store_step :: "observed \<Rightarrow> observed \<Rightarrow> bool" where
  publish: "Publish (ob_store w) k b = Some s \<Longrightarrow> store_step w (w\<lparr>ob_store := s\<rparr>)"
| publish_if_changed:
    "PublishIfChanged (ob_store w) k b = Some (s, changed) \<Longrightarrow> store_step w (w\<lparr>ob_store := s\<rparr>)"
| subscribe: "Store_Subscribe (ob_store w) k = Some (s, sub) \<Longrightarrow> store_step w (w\<lparr>ob_store := s\<rparr>)"
| unsubscribe: "store_step w (w\<lparr>ob_store := unsub (ob_store w) k sub\<rparr>)"
| receive: "recvBundle (ob_store w) sub = Some (b, s) \<Longrightarrow>
    store_step w (w\<lparr>ob_store := s, ob_seen := (ob_seen w)(sub := Some b)\<rparr>)"

inductive store_reach :: "observed \<Rightarrow> bool" where
  start: "store_reach \<lparr>ob_store = NewStore, ob_seen = (\<lambda>_. None)\<rparr>"
| step: "store_reach w \<Longrightarrow> store_step w w' \<Longrightarrow> store_reach w'"

text \<open>
  A member of \<open>k\<close> holds the current bundle in its channel, or its channel is empty and the bundle it read
  last is the current one. A subscription that is not allocated has read nothing.
\<close>

definition holds_current :: "Bundle option \<Rightarrow> Bundle list \<Rightarrow> Bundle option \<Rightarrow> bool" where
  "holds_current cur ch seen \<longleftrightarrow>
     (case cur of None \<Rightarrow> ch = [] \<and> seen = None | Some b \<Rightarrow> ch = [b] \<or> ch = [] \<and> seen = Some b)"

definition up_to_date :: "observed \<Rightarrow> bool" where
  "up_to_date w \<longleftrightarrow>
     (\<forall>sub \<ge> st_next (ob_store w). ob_seen w sub = None) \<and>
     (\<forall>k. \<forall>sub \<in> set (subsOf (ob_store w) k).
        holds_current (st_bundles (ob_store w) k) (st_chans (ob_store w) sub) (ob_seen w sub))"

lemma holds_current_simps [simp]:
  "holds_current (Some b) [b] seen" "holds_current (Some b) [] (Some b)"
  "holds_current None [] None"
  "holds_current cur (case cur of None \<Rightarrow> [] | Some b \<Rightarrow> [b]) None"
  by (simp_all add: holds_current_def split: option.splits)

lemma holds_current_recv: "holds_current cur [b] seen \<Longrightarrow> holds_current cur [] (Some b)"
  by (auto simp: holds_current_def split: option.splits)

lemma up_to_date_delivered:
  assumes "store_inv (ob_store w)" and "up_to_date w"
  shows "up_to_date (w\<lparr>ob_store := delivered (ob_store w) k b\<rparr>)"
  using assms store_invD(4) [OF assms(1)] by (auto simp: up_to_date_def)

lemma up_to_date_subscribed:
  assumes "store_inv (ob_store w)" and "up_to_date w"
  shows "up_to_date (w\<lparr>ob_store := subscribed (ob_store w) k\<rparr>)"
proof -
  have "sub \<in> set (subsOf (ob_store w) k') \<Longrightarrow> sub \<noteq> st_next (ob_store w)" for sub k'
    using store_invD(3) [OF assms(1)] by blast
  with assms(2) show ?thesis by (auto simp: up_to_date_def)
qed

lemma up_to_date_unsub:
  "up_to_date w \<Longrightarrow> up_to_date (w\<lparr>ob_store := unsub (ob_store w) k sub\<rparr>)"
  by (auto simp: up_to_date_def)

lemma up_to_date_recv:
  assumes "store_inv (ob_store w)" and "up_to_date w" and r: "recvBundle (ob_store w) sub = Some (b, s)"
    and alloc: "sub < st_next (ob_store w)"
  shows "up_to_date (w\<lparr>ob_store := s, ob_seen := (ob_seen w)(sub := Some b)\<rparr>)"
proof -
  from r obtain ch where s: "s = (ob_store w)\<lparr>st_chans := (st_chans (ob_store w))(sub := ch)\<rparr>" and
    ch: "st_chans (ob_store w) sub = b # ch"
    by (auto simp: recvBundle_def chanRecv_def split: option.splits list.splits)
  have "ch = []"
    using store_invD(1) [OF assms(1), of sub] ch by (simp add: chanCap_def)
  moreover have "subsOf s k = subsOf (ob_store w) k" for k
    by (simp add: s subsOf_def)
  moreover have "holds_current (st_bundles (ob_store w) k) [] (Some b)"
    if "sub \<in> set (subsOf (ob_store w) k)" for k
    using that assms(2) ch \<open>ch = []\<close> by (metis up_to_date_def holds_current_recv)
  ultimately show ?thesis
    using s assms(2) alloc by (auto simp: up_to_date_def)
qed

text \<open>Unallocated channels are empty, so only an allocated subscription can be read.\<close>

definition fresh_empty :: "Store \<Rightarrow> bool" where
  "fresh_empty s \<longleftrightarrow> (\<forall>sub \<ge> st_next s. st_chans s sub = [])"

lemma store_step_inv:
  assumes "store_step w w'" "store_inv (ob_store w)" "fresh_empty (ob_store w)" "up_to_date w"
  shows "store_inv (ob_store w') \<and> fresh_empty (ob_store w') \<and> up_to_date w'"
  using assms
proof (cases rule: store_step.cases)
  case (publish k b s)
  with assms show ?thesis
    using store_invD(3) [OF assms(2)]
    by (fastforce simp: Publish_eq delivered_inv up_to_date_delivered fresh_empty_def)
next
  case (publish_if_changed k b s changed)
  with assms show ?thesis
    using store_invD(3) [OF assms(2)]
    by (fastforce simp: PublishIfChanged_eq delivered_inv up_to_date_delivered fresh_empty_def
        split: if_splits)
next
  case (subscribe k s sub)
  with assms show ?thesis
    by (auto simp: Store_Subscribe_eq subscribed_inv up_to_date_subscribed fresh_empty_def)
next
  case (unsubscribe k sub)
  with assms show ?thesis
    by (auto simp: unsub_inv up_to_date_unsub fresh_empty_def)
next
  case (receive sub b s)
  have alloc: "sub < st_next (ob_store w)"
    using receive(2) assms(3)
    by (cases "sub < st_next (ob_store w)") (auto simp: fresh_empty_def recvBundle_def chanRecv_def)
  moreover have "fresh_empty s"
    using receive(2) assms(3) alloc
    by (auto simp: fresh_empty_def recvBundle_def split: option.splits)
  ultimately show ?thesis
    using receive assms by (simp add: up_to_date_recv recvBundle_inv)
qed

lemma store_reach_inv:
  "store_reach w \<Longrightarrow> store_inv (ob_store w) \<and> fresh_empty (ob_store w) \<and> up_to_date w"
proof (induction rule: store_reach.induct)
  case start
  show ?case
    by (simp add: store_inv_NewStore fresh_empty_def up_to_date_def) (simp add: NewStore_def subsOf_def)
next
  case (step w w')
  then show ?case using store_step_inv by blast
qed

subsection \<open>The interface its clients use\<close>

text \<open>
  What the controllers rely on when they publish: \<open>pub\<close> always returns, stores the bundle unless the
  stored one has the same digest, says which, and touches no other key. The client lemma is about a loop that
  publishes a list of bundles, as \<open>publishToEngines\<close> does.
\<close>

fun publishEach :: "('s \<Rightarrow> 'k \<Rightarrow> 'b \<Rightarrow> ('s \<times> bool) option) \<Rightarrow> 's \<Rightarrow> ('k \<times> 'b) list \<Rightarrow> 's option" where
  "publishEach pub s [] = Some s"
| "publishEach pub s ((k, b) # rest) =
     (case pub s k b of None \<Rightarrow> None | Some (s', changed) \<Rightarrow> publishEach pub s' rest)"

locale bundle_publisher =
  fixes pub :: "'s \<Rightarrow> 'k \<Rightarrow> 'b \<Rightarrow> ('s \<times> bool) option"
    and look :: "'s \<Rightarrow> 'k \<Rightarrow> 'b option"
    and digest :: "'b \<Rightarrow> 'd"
    and inv :: "'s \<Rightarrow> bool"
  assumes pub_total: "inv s \<Longrightarrow> \<exists>s' changed. pub s k b = Some (s', changed)"
    and pub_inv: "inv s \<Longrightarrow> pub s k b = Some (s', changed) \<Longrightarrow> inv s'"
    and pub_look: "inv s \<Longrightarrow> pub s k b = Some (s', changed) \<Longrightarrow>
      look s' k' = (if k' = k \<and> changed then Some b else look s k')"
    and pub_changed: "inv s \<Longrightarrow> pub s k b = Some (s', changed) \<Longrightarrow>
      changed \<longleftrightarrow> map_option digest (look s k) \<noteq> Some (digest b)"
begin

lemma pub_digest:
  assumes "inv s" and "pub s k b = Some (s', changed)"
  shows "map_option digest (look s' k) = Some (digest b)"
  using pub_look [OF assms, of k] pub_changed [OF assms] by auto

lemma pub_other: "inv s \<Longrightarrow> pub s k b = Some (s', changed) \<Longrightarrow> k' \<noteq> k \<Longrightarrow> look s' k' = look s k'"
  using pub_look by simp

lemma publishEach_total: "inv s \<Longrightarrow> \<exists>s'. publishEach pub s kbs = Some s' \<and> inv s'"
proof (induction kbs arbitrary: s)
  case Nil
  then show ?case by simp
next
  case (Cons kb kbs)
  obtain k b where kb: "kb = (k, b)" by (cases kb)
  from pub_total [OF Cons.prems] obtain s1 c where s1: "pub s k b = Some (s1, c)" by blast
  from Cons.IH [OF pub_inv [OF Cons.prems s1]] s1 kb show ?case by auto
qed

text \<open>After the loop every listed key stores a bundle with the digest listed last for it; no other key moved.\<close>

lemma publishEach_digest:
  assumes "inv s" and "publishEach pub s kbs = Some s'"
  shows "map_option digest (look s' k) =
    (case map_of (rev kbs) k of None \<Rightarrow> map_option digest (look s k) | Some b \<Rightarrow> Some (digest b))"
  using assms
proof (induction kbs arbitrary: s)
  case Nil
  then show ?case by simp
next
  case (Cons kb kbs)
  obtain k0 b where kb: "kb = (k0, b)" by (cases kb)
  from pub_total [OF Cons.prems(1)] obtain s1 c where s1: "pub s k0 b = Some (s1, c)" by blast
  have rest: "publishEach pub s1 kbs = Some s'"
    using Cons.prems(2) s1 kb by simp
  from Cons.IH [OF pub_inv [OF Cons.prems(1) s1] rest] show ?case
    using pub_digest [OF Cons.prems(1) s1] pub_other [OF Cons.prems(1) s1, of k] kb
    by (auto simp: map_add_def split: option.splits)
qed

lemma publishEach_other:
  assumes "inv s" and "publishEach pub s kbs = Some s'" and "k \<notin> fst ` set kbs"
  shows "look s' k = look s k"
  using assms
proof (induction kbs arbitrary: s)
  case Nil
  then show ?case by simp
next
  case (Cons kb kbs)
  obtain k0 b where kb: "kb = (k0, b)" by (cases kb)
  from pub_total [OF Cons.prems(1)] obtain s1 c where s1: "pub s k0 b = Some (s1, c)" by blast
  from Cons.IH [OF pub_inv [OF Cons.prems(1) s1]] Cons.prems s1 kb show ?case
    using pub_other [OF Cons.prems(1) s1, of k] by auto
qed

end

interpretation rulestore: bundle_publisher PublishIfChanged Get b_SHA256 store_inv
proof unfold_locales
  fix s k b s' changed k'
  assume inv: "store_inv s"
  show "\<exists>s' changed. PublishIfChanged s k b = Some (s', changed)"
    by (auto simp: PublishIfChanged_eq [OF inv])
  assume pub: "PublishIfChanged s k b = Some (s', changed)"
  show "store_inv s'"
    using pub inv by (auto simp: PublishIfChanged_eq delivered_inv split: if_splits)
  show "Get s' k' = (if k' = k \<and> changed then Some b else Get s k')"
    using pub inv by (auto simp: PublishIfChanged_eq Get_def split: if_splits)
  show "changed \<longleftrightarrow> map_option b_SHA256 (Get s k) \<noteq> Some (b_SHA256 b)"
    using pub inv by (auto simp: PublishIfChanged_eq Get_def isDuplicate_def split: if_splits)
qed

subsection \<open>Interleaved calls\<close>

text \<open>
  \<open>Subscribe\<close> releases the lock before it sends the current bundle, and \<open>Publish\<close> holds the lock while
  it sends. A \<open>Subscribe\<close> call is therefore at its send (\<open>AtSend\<close>), waiting in the send queue of its
  channel (\<open>BlockedSend\<close>) or has returned the channel to its caller, who reads it (\<open>Returned\<close>) until it leaves its
  loop and calls \<open>unsub\<close>, which waits for the lock (\<open>Leaving\<close>); \<open>rc_pub\<close> is the publisher that holds the
  lock, with the members it still has to serve and whether it has drained the first of them. Receiving from a full
  channel with a waiting sender moves the sender's value into the buffer, as in the Go memory model.
  An accepted \<open>PublishIfChanged\<close> runs the same steps as \<open>Publish\<close>; a rejected one changes nothing.
\<close>

datatype subCall = AtSend Bundle | BlockedSend Bundle | Returned | Leaving

record pubCall =
  pc_bundle :: Bundle
  pc_todo :: "subID list"
  pc_drained :: bool

record raceState =
  rc_store :: Store
  rc_calls :: "subID \<rightharpoonup> subCall"
  rc_pub :: "pubCall option"

datatype raceLabel =
    LRegister engineKey
  | LSend subID
  | LRecv subID
  | LPublish engineKey Bundle
  | LPubSend
  | LPubDrain
  | LPubDone
  | LLeave subID
  | LUnsub engineKey subID

definition setChan :: "raceState \<Rightarrow> subID \<Rightarrow> Bundle list \<Rightarrow> raceState" where
  "setChan y sub ch =
     y\<lparr>rc_store := (rc_store y)\<lparr>st_chans := (st_chans (rc_store y))(sub := ch)\<rparr>\<rparr>"

definition setCall :: "raceState \<Rightarrow> subID \<Rightarrow> subCall \<Rightarrow> raceState" where
  "setCall y sub c = y\<lparr>rc_calls := (rc_calls y)(sub \<mapsto> c)\<rparr>"

text \<open>One step of one goroutine, \<open>None\<close> when it is not enabled.\<close>

fun raceStep :: "raceState \<Rightarrow> raceLabel \<Rightarrow> raceState option" where
  "raceStep y (LRegister k) =
     (if rc_pub y \<noteq> None then None
      else
        (case Subscribe_register (rc_store y) k of
           (s', sub, cur) \<Rightarrow>
             Some (setCall (y\<lparr>rc_store := s'\<rparr>) sub
               (case cur of None \<Rightarrow> Returned | Some b \<Rightarrow> AtSend b))))"
| "raceStep y (LSend sub) =
     (case rc_calls y sub of
        Some (AtSend b) \<Rightarrow>
          (case chanSend (st_chans (rc_store y) sub) b of
             Some ch \<Rightarrow> Some (setCall (setChan y sub ch) sub Returned)
           | None \<Rightarrow> Some (setCall y sub (BlockedSend b)))
      | _ \<Rightarrow> None)"
| "raceStep y (LRecv sub) =
     (case rc_calls y sub of
        Some Returned \<Rightarrow>
          (case chanRecv (st_chans (rc_store y) sub) of
             None \<Rightarrow> None
           | Some (b, ch) \<Rightarrow> Some (setChan y sub ch))
      | _ \<Rightarrow> None)"
| "raceStep y (LPublish k b) =
     (if rc_pub y \<noteq> None then None
      else Some (y\<lparr>rc_store := (rc_store y)\<lparr>st_bundles := (st_bundles (rc_store y))(k \<mapsto> b)\<rparr>,
                   rc_pub := Some \<lparr>pc_bundle = b, pc_todo = subsOf (rc_store y) k,
                                   pc_drained = False\<rparr>\<rparr>))"
| "raceStep y LPubSend =
     (case rc_pub y of
        None \<Rightarrow> None
      | Some p \<Rightarrow>
          (case pc_todo p of
             [] \<Rightarrow> None
           | sub # rest \<Rightarrow>
               (case chanSend (st_chans (rc_store y) sub) (pc_bundle p) of
                  None \<Rightarrow> None
                | Some ch \<Rightarrow>
                    Some ((setChan y sub ch)\<lparr>rc_pub := Some (p\<lparr>pc_todo := rest, pc_drained := False\<rparr>)\<rparr>))))"
| "raceStep y LPubDrain =
     (case rc_pub y of
        None \<Rightarrow> None
      | Some p \<Rightarrow>
          (case pc_todo p of
             [] \<Rightarrow> None
           | sub # rest \<Rightarrow>
               if pc_drained p then None
               else
                 (case chanRecv (st_chans (rc_store y) sub) of
                    None \<Rightarrow> None
                  | Some (stale, ch) \<Rightarrow>
                      (let y' = y\<lparr>rc_pub := Some (p\<lparr>pc_drained := True\<rparr>)\<rparr>
                       in case rc_calls y sub of
                            Some (BlockedSend v) \<Rightarrow> Some (setCall (setChan y' sub (ch @ [v])) sub Returned)
                          | _ \<Rightarrow> Some (setChan y' sub ch)))))"
| "raceStep y LPubDone =
     (case rc_pub y of
        None \<Rightarrow> None
      | Some p \<Rightarrow> if pc_todo p = [] then Some (y\<lparr>rc_pub := None\<rparr>) else None)"
| "raceStep y (LLeave sub) = (if rc_calls y sub = Some Returned then Some (setCall y sub Leaving) else None)"
| "raceStep y (LUnsub k sub) =
     (if rc_pub y = None \<and> rc_calls y sub = Some Leaving \<and> sub \<in> set (subsOf (rc_store y) k)
      then Some (y\<lparr>rc_store := unsub (rc_store y) k sub\<rparr>) else None)"

fun raceRun :: "raceState \<Rightarrow> raceLabel list \<Rightarrow> raceState option" where
  "raceRun y [] = Some y"
| "raceRun y (l # ls) = (case raceStep y l of None \<Rightarrow> None | Some y' \<Rightarrow> raceRun y' ls)"

definition raceStart :: raceState where
  "raceStart = \<lparr>rc_store = NewStore, rc_calls = Map.empty, rc_pub = None\<rparr>"

lemma setChan_simps [simp]:
  "st_chans (rc_store (setChan y sub ch)) = (st_chans (rc_store y))(sub := ch)"
  "subsOf (rc_store (setChan y sub ch)) k = subsOf (rc_store y) k"
  "st_next (rc_store (setChan y sub ch)) = st_next (rc_store y)"
  "rc_calls (setChan y sub ch) = rc_calls y" "rc_pub (setChan y sub ch) = rc_pub y"
  by (simp_all add: setChan_def subsOf_def)

lemma setCall_simps [simp]:
  "rc_store (setCall y sub c) = rc_store y"
  "rc_calls (setCall y sub c) = (rc_calls y)(sub \<mapsto> c)" "rc_pub (setCall y sub c) = rc_pub y"
  by (simp_all add: setCall_def)

lemma subsOf_bundles: "subsOf (s\<lparr>st_bundles := m\<rparr>) k = subsOf s k"
  by (simp add: subsOf_def)

text \<open>
  A \<open>Subscribe\<close> call for \<open>k\<close> that waits in the send queue of a full channel, while no running publisher is
  about to serve it.
\<close>

definition send_stuck :: "engineKey \<Rightarrow> subID \<Rightarrow> Bundle \<Rightarrow> raceState \<Rightarrow> bool" where
  "send_stuck k sub v y \<longleftrightarrow>
     rc_calls y sub = Some (BlockedSend v) \<and> st_chans (rc_store y) sub \<noteq> [] \<and>
     sub < st_next (rc_store y) \<and> (\<forall>k'. k' \<noteq> k \<longrightarrow> sub \<notin> set (subsOf (rc_store y) k')) \<and>
     (\<forall>p. rc_pub y = Some p \<longrightarrow> sub \<notin> set (pc_todo p))"

lemma send_stuck_step:
  assumes "send_stuck k sub v y" and "raceStep y l = Some y'" and "\<And>b. l \<noteq> LPublish k b"
  shows "send_stuck k sub v y'"
proof (cases l)
  case (LPublish k' b)
  with assms(3) have "k' \<noteq> k" by blast
  with LPublish assms(1,2) show ?thesis
    by (auto simp: send_stuck_def subsOf_bundles split: if_splits)
next
  case LPubDrain
  with assms show ?thesis
    by (auto simp: send_stuck_def Let_def split: option.splits list.splits if_splits subCall.splits)
next
  case (LRegister k')
  with assms show ?thesis
    by (auto simp: send_stuck_def Subscribe_register_def Let_def subsOf_def split: if_splits)
qed (use assms in \<open>auto simp: send_stuck_def split: option.splits list.splits if_splits subCall.splits\<close>)

lemma send_stuck_run:
  assumes "send_stuck k sub v y" and "raceRun y ls = Some y'" and "\<And>b. LPublish k b \<notin> set ls"
  shows "send_stuck k sub v y'"
  using assms
proof (induction ls arbitrary: y)
  case Nil
  then show ?case by simp
next
  case (Cons l ls)
  then obtain y1 where y1: "raceStep y l = Some y1" "raceRun y1 ls = Some y'"
    by (auto split: option.splits)
  have "l \<noteq> LPublish k b" "LPublish k b \<notin> set ls" for b
    using Cons.prems(3) [of b] by auto
  with y1 Cons.prems(1) show ?case
    using Cons.IH send_stuck_step by blast
qed

subsection \<open>A publisher that holds the lock\<close>

text \<open>
  The invariant of the interleaved steps: a call that waits to send has a full channel, the members a publisher has to
  serve have calls, and once it has drained a channel only a call that is past its send can have filled it again.
\<close>

definition race_inv :: "raceState \<Rightarrow> bool" where
  "race_inv y \<longleftrightarrow>
     (\<forall>sub. length (st_chans (rc_store y) sub) \<le> chanCap) \<and>
     (\<forall>k. \<forall>sub \<in> set (subsOf (rc_store y) k). rc_calls y sub \<noteq> None) \<and>
     (\<forall>sub v. rc_calls y sub = Some (BlockedSend v) \<longrightarrow> st_chans (rc_store y) sub \<noteq> []) \<and>
     (\<forall>p. rc_pub y = Some p \<longrightarrow> (\<forall>sub \<in> set (pc_todo p). rc_calls y sub \<noteq> None) \<and>
        (\<forall>sub rest. pc_todo p = sub # rest \<longrightarrow> pc_drained p \<longrightarrow> st_chans (rc_store y) sub \<noteq> [] \<longrightarrow>
           rc_calls y sub \<in> {Some Returned, Some Leaving}))"

lemma race_invD:
  assumes "race_inv y"
  shows "length (st_chans (rc_store y) sub) \<le> chanCap"
    and "sub \<in> set (subsOf (rc_store y) k) \<Longrightarrow> rc_calls y sub \<noteq> None"
    and "rc_calls y sub = Some (BlockedSend v) \<Longrightarrow> st_chans (rc_store y) sub \<noteq> []"
    and "rc_pub y = Some p \<Longrightarrow> sub \<in> set (pc_todo p) \<Longrightarrow> rc_calls y sub \<noteq> None"
    and "rc_pub y = Some p \<Longrightarrow> pc_todo p = sub # rest \<Longrightarrow> pc_drained p \<Longrightarrow> st_chans (rc_store y) sub \<noteq> [] \<Longrightarrow>
      rc_calls y sub \<in> {Some Returned, Some Leaving}"
  using assms unfolding race_inv_def by blast+

lemma race_inv_start: "race_inv raceStart"
  by (simp add: race_inv_def raceStart_def NewStore_def subsOf_def)

lemma subsOf_registered:
  "subsOf (s\<lparr>st_subscribers := (st_subscribers s)(k \<mapsto> l), st_chans := c, st_next := n\<rparr>) k' = (if k' = k then l else subsOf s k')"
  by (simp add: subsOf_def)

lemma chan_single: "race_inv y \<Longrightarrow> st_chans (rc_store y) sub = a # b \<Longrightarrow> b = []"
  using race_invD(1) [of y sub] by (simp add: chanCap_def)

lemma race_inv_step:
  assumes "race_inv y" and "raceStep y l = Some y'"
  shows "race_inv y'"
proof (cases l)
  case (LRegister k)
  with assms show ?thesis
    by (auto simp: race_inv_def Subscribe_register_def Let_def subsOf_registered split: if_splits option.splits)
next
  case (LSend sub)
  with assms show ?thesis
    by (auto simp: race_inv_def chanSend_def chanCap_def split: option.splits subCall.splits if_splits)
next
  case (LRecv sub)
  then obtain a b where "st_chans (rc_store y) sub = a # b" "rc_calls y sub = Some Returned" "y' = setChan y sub b"
    using assms(2) by (auto simp: chanRecv_def split: option.splits subCall.splits list.splits)
  moreover from this(1) have "b = []" by (rule chan_single [OF assms(1)])
  ultimately show ?thesis
    using assms(1) by (auto simp: race_inv_def split: if_splits)
next
  case (LPublish k b)
  with assms show ?thesis
    by (auto simp: race_inv_def subsOf_bundles split: if_splits)
next
  case LPubSend
  with assms show ?thesis
    by (auto simp: race_inv_def chanSend_def split: option.splits list.splits if_splits)
next
  case LPubDrain
  then obtain p sub rest a b where p: "rc_pub y = Some p" "pc_todo p = sub # rest" "\<not> pc_drained p"
    "st_chans (rc_store y) sub = a # b"
    using assms(2) by (auto simp: chanRecv_def split: option.splits list.splits if_splits)
  with chan_single [OF assms(1)] have "b = []" by blast
  show ?thesis
  proof (cases "\<exists>v. rc_calls y sub = Some (BlockedSend v)")
    case True
    then obtain v where "rc_calls y sub = Some (BlockedSend v)" by blast
    with LPubDrain assms(2) p \<open>b = []\<close>
    have "y' = setCall (setChan (y\<lparr>rc_pub := Some (p\<lparr>pc_drained := True\<rparr>)\<rparr>) sub [v]) sub Returned"
      by (simp add: chanRecv_def)
    with assms(1) p show ?thesis by (auto simp: race_inv_def chanCap_def split: if_splits)
  next
    case False
    with LPubDrain assms(2) p \<open>b = []\<close>
    have "y' = setChan (y\<lparr>rc_pub := Some (p\<lparr>pc_drained := True\<rparr>)\<rparr>) sub []"
      by (auto simp: chanRecv_def Let_def split: option.splits subCall.splits)
    with assms(1) p False show ?thesis by (auto simp: race_inv_def split: if_splits)
  qed
next
  case LPubDone
  with assms show ?thesis
    by (auto simp: race_inv_def split: option.splits if_splits)
next
  case (LLeave sub)
  with assms show ?thesis
    by (auto simp: race_inv_def split: if_splits)
next
  case (LUnsub k sub)
  with assms show ?thesis by (auto simp: race_inv_def split: if_splits)
qed

lemma race_inv_run: "raceRun y ls = Some y' \<Longrightarrow> race_inv y \<Longrightarrow> race_inv y'"
proof (induction ls arbitrary: y)
  case (Cons l ls)
  then obtain y1 where "raceStep y l = Some y1" "raceRun y1 ls = Some y'" by (auto split: option.splits)
  then show ?case using Cons.IH race_inv_step [OF Cons.prems(2)] by blast
qed simp

text \<open>A publisher that waits for room in the channel of a subscriber that has left its loop.\<close>

definition pub_stuck :: "pubCall \<Rightarrow> subID \<Rightarrow> raceState \<Rightarrow> bool" where
  "pub_stuck p sub y \<longleftrightarrow>
     rc_pub y = Some p \<and> (\<exists>rest. pc_todo p = sub # rest) \<and> pc_drained p \<and>
     length (st_chans (rc_store y) sub) = chanCap \<and> rc_calls y sub = Some Leaving"

lemma pub_stuck_step: "pub_stuck p sub y \<Longrightarrow> raceStep y l = Some y' \<Longrightarrow> pub_stuck p sub y'"
  by (cases l) (auto simp: pub_stuck_def chanSend_def split: option.splits subCall.splits if_splits)

lemma pub_stuck_run: "pub_stuck p sub y \<Longrightarrow> raceRun y ls = Some y' \<Longrightarrow> pub_stuck p sub y'"
proof (induction ls arbitrary: y)
  case (Cons l ls)
  then obtain y1 where "raceStep y l = Some y1" "raceRun y1 ls = Some y'" by (auto split: option.splits)
  then show ?case using Cons.IH pub_stuck_step [OF Cons.prems(1)] by blast
qed simp

text \<open>The steps that take the lock.\<close>

definition lockFree :: "raceState \<Rightarrow> bool" where
  "lockFree y \<longleftrightarrow> (\<exists>k sub b. raceStep y (LRegister k) \<noteq> None \<or> raceStep y (LPublish k b) \<noteq> None \<or> raceStep y (LUnsub k sub) \<noteq> None)"

lemma pub_stuck_locked: "pub_stuck p sub y \<Longrightarrow> \<not> lockFree y"
  by (auto simp: lockFree_def pub_stuck_def)

lemma publisher_blocked:
  assumes "race_inv y" "rc_pub y = Some p"
    and "raceStep y LPubSend = None" "raceStep y LPubDrain = None" "raceStep y LPubDone = None"
  obtains sub rest where "pc_todo p = sub # rest" "pc_drained p" "length (st_chans (rc_store y) sub) = chanCap"
    "rc_calls y sub \<in> {Some Returned, Some Leaving}"
proof -
  from assms(2,5) obtain sub rest where todo: "pc_todo p = sub # rest" by (cases "pc_todo p") auto
  have full: "length (st_chans (rc_store y) sub) = chanCap"
    using assms(2,3) todo race_invD(1) [OF assms(1), of sub] by (auto simp: chanSend_def split: if_splits)
  then have ne: "st_chans (rc_store y) sub \<noteq> []" by (auto simp: chanCap_def)
  then have dr: "pc_drained p"
    using assms(2,4) todo by (auto simp: chanRecv_def Let_def split: if_splits list.splits option.splits subCall.splits)
  show thesis using that [OF todo dr full race_invD(5) [OF assms(1,2) todo dr ne]] .
qed

subsection \<open>A publisher that no blocked sender disturbs\<close>

text \<open>
  The steps refine the atomic operations: where no member of the key waits in its send queue, the publisher's own
  steps lead to the store that \<open>Publish\<close> computes.
\<close>

definition pubAt :: "raceState \<Rightarrow> Store \<Rightarrow> Bundle \<Rightarrow> subID list \<Rightarrow> raceState" where
  "pubAt y s b todo =
     y\<lparr>rc_store := s, rc_pub := Some \<lparr>pc_bundle = b, pc_todo = todo, pc_drained = False\<rparr>\<rparr>"

lemma raceRun_append: "raceRun y (ls @ ms) = Option.bind (raceRun y ls) (\<lambda>y'. raceRun y' ms)"
  by (induction ls arbitrary: y) (auto split: option.splits)

lemma pub_serves_one:
  assumes "length (st_chans s sub) \<le> chanCap" and "\<forall>v. rc_calls y sub \<noteq> Some (BlockedSend v)"
  shows "\<exists>ls. set ls \<subseteq> {LPubDrain, LPubSend} \<and>
    raceRun (pubAt y s b (sub # todo)) ls =
      Some (pubAt y (s\<lparr>st_chans := (st_chans s)(sub := [b])\<rparr>) b todo)"
proof (cases "st_chans s sub")
  case Nil
  then show ?thesis
    by (intro exI [of _ "[LPubSend]"])
      (simp add: pubAt_def chanSend_def chanCap_def setChan_def)
next
  case (Cons x xs)
  with assms(1) have "xs = []" by (simp add: chanCap_def)
  let ?p = "\<lparr>pc_bundle = b, pc_todo = sub # todo, pc_drained = True\<rparr>"
  have "raceStep (pubAt y s b (sub # todo)) LPubDrain =
      Some (setChan ((pubAt y s b (sub # todo))\<lparr>rc_pub := Some ?p\<rparr>) sub [])"
    using Cons \<open>xs = []\<close> assms(2)
    by (simp add: pubAt_def chanRecv_def Let_def split: option.splits subCall.splits)
  then show ?thesis
    by (intro exI [of _ "[LPubDrain, LPubSend]"])
      (simp add: pubAt_def chanSend_def chanCap_def setChan_def)
qed

lemma pub_serves_all:
  assumes "\<forall>sub. length (st_chans s sub) \<le> chanCap"
    and "\<forall>sub \<in> set todo. \<forall>v. rc_calls y sub \<noteq> Some (BlockedSend v)"
  shows "\<exists>ls. set ls \<subseteq> {LPubDrain, LPubSend} \<and>
    raceRun (pubAt y s b todo) ls =
      Some (pubAt y (s\<lparr>st_chans := (\<lambda>sub. if sub \<in> set todo then [b] else st_chans s sub)\<rparr>) b [])"
  using assms
proof (induction todo arbitrary: s)
  case Nil
  show ?case by (rule exI [of _ "[]"]) simp
next
  case (Cons sub todo)
  let ?s1 = "s\<lparr>st_chans := (st_chans s)(sub := [b])\<rparr>"
  obtain ls1 where ls1: "set ls1 \<subseteq> {LPubDrain, LPubSend}"
    "raceRun (pubAt y s b (sub # todo)) ls1 = Some (pubAt y ?s1 b todo)"
    using pub_serves_one [of s sub y b todo] Cons.prems by auto
  have "\<forall>t. length (st_chans ?s1 t) \<le> chanCap"
    using Cons.prems(1) by (simp add: chanCap_def)
  from Cons.IH [OF this] Cons.prems(2) obtain ls2 where ls2: "set ls2 \<subseteq> {LPubDrain, LPubSend}"
    "raceRun (pubAt y ?s1 b todo) ls2 =
      Some (pubAt y (?s1\<lparr>st_chans := (\<lambda>t. if t \<in> set todo then [b] else st_chans ?s1 t)\<rparr>) b [])"
    by auto
  have "?s1\<lparr>st_chans := (\<lambda>t. if t \<in> set todo then [b] else st_chans ?s1 t)\<rparr> =
      s\<lparr>st_chans := (\<lambda>t. if t \<in> set (sub # todo) then [b] else st_chans s t)\<rparr>"
    by (simp add: fun_eq_iff)
  with ls1 ls2 show ?case
    by (intro exI [of _ "ls1 @ ls2"]) (simp add: raceRun_append)
qed

subsection \<open>Properties\<close>

text \<open>
  C27. When a publisher blocks: over any interleaving of the calls, a publisher that holds the lock and cannot take a
  step waits for room in the channel of one subscriber, whose \<open>Subscribe\<close> call was overtaken by publications and
  refilled the channel the publisher had just drained. If this subscriber still reads its channel, one receive lets the
  publisher go on. If it has left its loop, it waits for the lock in \<open>unsub\<close>, and from then on, in every execution, the
  publisher keeps the lock: no call that needs it can take a step again.
\<close>

theorem publisher_blocks_on_one_reader:
  assumes "raceRun raceStart ls = Some y" and "rc_pub y = Some p"
    and "raceStep y LPubSend = None" "raceStep y LPubDrain = None" "raceStep y LPubDone = None"
  shows "\<exists>sub rest. pc_todo p = sub # rest \<and> pc_drained p \<and>
    (rc_calls y sub = Some Returned \<and>
       (\<exists>y1 y2. raceStep y (LRecv sub) = Some y1 \<and> raceStep y1 LPubSend = Some y2) \<or>
     rc_calls y sub = Some Leaving \<and>
       (\<forall>ms y'. raceRun y ms = Some y' \<longrightarrow> rc_pub y' = Some p \<and> \<not> lockFree y'))"
proof -
  have inv: "race_inv y" using race_inv_run [OF assms(1) race_inv_start] .
  obtain sub rest where b: "pc_todo p = sub # rest" "pc_drained p" "length (st_chans (rc_store y) sub) = chanCap"
    "rc_calls y sub \<in> {Some Returned, Some Leaving}"
    using publisher_blocked [OF inv assms(2-5)] .
  obtain x where x: "st_chans (rc_store y) sub = [x]" using b(3) by (auto simp: chanCap_def length_Suc_conv)
  show ?thesis
  proof (cases "rc_calls y sub = Some Leaving")
    case True
    then have s: "pub_stuck p sub y" using assms(2) b by (simp add: pub_stuck_def)
    have "rc_pub y' = Some p \<and> \<not> lockFree y'" if "raceRun y ms = Some y'" for ms y'
      using pub_stuck_run [OF s that] pub_stuck_locked by (auto simp: pub_stuck_def)
    with True b show ?thesis by blast
  next
    case False
    then have c: "rc_calls y sub = Some Returned" using b(4) by auto
    then have "raceStep y (LRecv sub) = Some (setChan y sub [])" by (simp add: chanRecv_def x)
    moreover have "\<exists>y2. raceStep (setChan y sub []) LPubSend = Some y2"
      using assms(2) b(1) by (simp add: chanSend_def chanCap_def)
    ultimately show ?thesis using b(1,2) c by blast
  qed
qed

lemma demo_reach:
  "store_reach \<lparr>ob_store = subscribed (delivered NewStore k b) k, ob_seen = (\<lambda>_. None)\<rparr>"
proof -
  let ?w0 = "\<lparr>ob_store = NewStore, ob_seen = (\<lambda>_. None)\<rparr>"
  have "store_step ?w0 (?w0\<lparr>ob_store := delivered NewStore k b\<rparr>)"
    by (rule store_step.publish) (simp add: Publish_eq store_inv_NewStore)
  then have "store_reach (?w0\<lparr>ob_store := delivered NewStore k b\<rparr>)"
    by (rule store_reach.step [OF store_reach.start])
  moreover have "store_step (?w0\<lparr>ob_store := delivered NewStore k b\<rparr>)
      (?w0\<lparr>ob_store := subscribed (delivered NewStore k b) k\<rparr>)"
    using store_step.subscribe [of "?w0\<lparr>ob_store := delivered NewStore k b\<rparr>" k]
    by (simp add: Store_Subscribe_eq)
  ultimately have "store_reach (?w0\<lparr>ob_store := subscribed (delivered NewStore k b) k\<rparr>)"
    by (rule store_reach.step)
  then show ?thesis by simp
qed

definition demoBundle :: "string \<Rightarrow> Bundle" where
  "demoBundle sha = \<lparr>b_RuleSetName = ''rs'', b_SHA256 = sha, b_Compiled = ''SecAction'', b_GeneratedAt = 0\<rparr>"

text \<open>
  C7. Latest value delivery: in any sequence of operations a subscriber of \<open>k\<close> either has the current
  bundle of \<open>k\<close> waiting in its channel, alone, or has an empty channel and the bundle it read last is the
  current one. It never keeps an older bundle.
\<close>

theorem subscriber_sees_latest:
  assumes "store_reach w" and "sub \<in> set (subsOf (ob_store w) k)"
    and "Get (ob_store w) k = Some b"
  shows "st_chans (ob_store w) sub = [b] \<or>
    st_chans (ob_store w) sub = [] \<and> ob_seen w sub = Some b"
  using store_reach_inv [OF assms(1)] assms(2,3)
  by (fastforce simp: up_to_date_def holds_current_def Get_def)

theorem subscriber_sees_latest_witness:
  "st_chans (subscribed (delivered NewStore (mkKey ''ns'' ''e'') (demoBundle ''a'')) (mkKey ''ns'' ''e'')) 0
     = [demoBundle ''a'']"
proof -
  let ?k = "mkKey ''ns'' ''e''"
  let ?s = "subscribed (delivered NewStore ?k (demoBundle ''a'')) ?k"
  have "0 \<in> set (subsOf ?s ?k)" "Get ?s ?k = Some (demoBundle ''a'')"
    by (simp_all add: NewStore_def Get_def)
  then show ?thesis
    using subscriber_sees_latest [OF demo_reach, of 0 ?k "demoBundle ''a''" ?k "demoBundle ''a''"]
    by simp
qed

text \<open>
  \<open>PublishIfChanged\<close> on every branch: it returns \<open>False\<close> and changes nothing exactly when the stored
  bundle has the digest of the new one; otherwise it returns \<open>True\<close>, the new bundle is stored and is the whole
  content of the channel of every member of the key; other keys and their members are untouched.
\<close>

theorem publish_if_changed_branches:
  assumes "store_inv s"
  shows "\<exists>s' changed. PublishIfChanged s k b = Some (s', changed) \<and>
    changed = (map_option b_SHA256 (Get s k) \<noteq> Some (b_SHA256 b)) \<and>
    (if changed
     then Get s' k = Some b \<and> (\<forall>k'. k' = k \<or> Get s' k' = Get s k') \<and>
       (\<forall>sub. st_chans s' sub = (if sub \<in> set (subsOf s k) then [b] else st_chans s sub)) \<and>
       st_subscribers s' = st_subscribers s
     else s' = s)"
  using assms by (auto simp: PublishIfChanged_eq isDuplicate_def Get_def)

theorem publish_if_changed_branches_witness:
  "\<exists>s' changed. PublishIfChanged NewStore (mkKey ''ns'' ''e'') (demoBundle ''a'') = Some (s', changed) \<and>
     changed \<and> Get s' (mkKey ''ns'' ''e'') = Some (demoBundle ''a'')"
  using publish_if_changed_branches [OF store_inv_NewStore, of "mkKey ''ns'' ''e''" "demoBundle ''a''"]
  by (auto simp: Get_def NewStore_def)

text \<open>
  The loop over the members of a key does not depend on the iteration order of the Go map.
\<close>

theorem fan_out_order_irrelevant:
  assumes "store_inv s" and "set subs = set subs'"
  shows "fanOut subs b (st_chans s) = fanOut subs' b (st_chans s)"
  using assms by (simp add: fanOut_total store_invD)

theorem fan_out_order_irrelevant_witness:
  "fanOut [0, 1] (demoBundle ''a'') (st_chans NewStore) = fanOut [1, 0] (demoBundle ''a'') (st_chans NewStore)"
  by (rule fan_out_order_irrelevant [OF store_inv_NewStore]) auto

text \<open>
  C39. The race of \<open>Subscribe\<close>: once a call waits for room in its own channel it stays blocked in
  every execution in which nobody publishes for that key again, because its caller, the only reader, does not have
  the channel yet. The witness reaches such a state with one publication between the unlock and the send.
\<close>

theorem subscribe_send_deadlock:
  assumes "send_stuck k sub v y" and "raceRun y ls = Some y'" and "\<And>b. LPublish k b \<notin> set ls"
  shows "rc_calls y' sub = Some (BlockedSend v)"
  using send_stuck_run [OF assms] by (simp add: send_stuck_def)

definition raceSchedule :: "engineKey \<Rightarrow> raceLabel list" where
  "raceSchedule k =
     [LPublish k (demoBundle ''old''), LPubDone, LRegister k,
      LPublish k (demoBundle ''new''), LPubSend, LPubDone, LSend 0]"

theorem subscribe_send_deadlock_witness:
  "\<exists>y y'. raceRun raceStart (raceSchedule (mkKey ''ns'' ''e'')) = Some y \<and>
     raceRun y [LRegister (mkKey ''ns'' ''f'')] = Some y' \<and>
     rc_calls y' 0 = Some (BlockedSend (demoBundle ''old''))"
proof -
  let ?k = "mkKey ''ns'' ''e''" and ?k' = "mkKey ''ns'' ''f''"
  obtain y where y: "raceRun raceStart (raceSchedule ?k) = Some y" "rc_pub y = None"
    and stuck: "send_stuck ?k 0 (demoBundle ''old'') y"
    by (simp add: raceSchedule_def raceStart_def NewStore_def Subscribe_register_def subsOf_def
        chanSend_def chanCap_def setCall_def setChan_def send_stuck_def Let_def)
  obtain y' where y': "raceRun y [LRegister ?k'] = Some y'"
    using y(2) by (simp add: Subscribe_register_def Let_def)
  have "rc_calls y' 0 = Some (BlockedSend (demoBundle ''old''))"
    by (rule subscribe_send_deadlock [OF stuck y']) simp
  with y y' show ?thesis by blast
qed

text \<open>The schedule of the deadlock: two publications overtake a subscriber, which then leaves.\<close>

definition lockedSchedule :: "engineKey \<Rightarrow> raceLabel list" where
  "lockedSchedule k = raceSchedule k @ [LPublish k (demoBundle ''newer''), LPubDrain, LLeave 0]"

theorem publisher_blocks_on_one_reader_witness:
  "\<exists>y p. raceRun raceStart (lockedSchedule (mkKey ''ns'' ''e'')) = Some y \<and>
     (\<forall>ms y'. raceRun y ms = Some y' \<longrightarrow> rc_pub y' = Some p \<and> \<not> lockFree y')"
proof -
  let ?k = "mkKey ''ns'' ''e''"
  obtain y p where y: "raceRun raceStart (lockedSchedule ?k) = Some y" "rc_pub y = Some p" "rc_calls y 0 = Some Leaving"
    "pc_todo p = [0]" and b: "raceStep y LPubSend = None" "raceStep y LPubDrain = None" "raceStep y LPubDone = None"
    by (simp add: lockedSchedule_def raceSchedule_def raceStart_def NewStore_def Subscribe_register_def subsOf_def
        chanSend_def chanRecv_def chanCap_def setCall_def setChan_def Let_def)
  from publisher_blocks_on_one_reader [OF y(1,2) b] y(3,4)
  have "\<forall>ms y'. raceRun y ms = Some y' \<longrightarrow> rc_pub y' = Some p \<and> \<not> lockFree y'" by auto
  with y(1) show ?thesis by blast
qed

text \<open>
  Refinement: where no member of the key waits in its send queue, the steps of a publisher alone lead from
  taking the lock to releasing it with exactly the store of the atomic \<open>Publish\<close>.
\<close>

theorem publisher_steps_refine_publish:
  assumes "store_inv (rc_store y)" and "rc_pub y = None"
    and "\<forall>sub \<in> set (subsOf (rc_store y) k). \<forall>v. rc_calls y sub \<noteq> Some (BlockedSend v)"
  shows "\<exists>ls s. set ls \<subseteq> {LPubDrain, LPubSend} \<and> Publish (rc_store y) k b = Some s \<and>
    raceRun y (LPublish k b # ls @ [LPubDone]) = Some (y\<lparr>rc_store := s\<rparr>)"
proof -
  let ?s = "rc_store y"
  let ?s1 = "?s\<lparr>st_bundles := (st_bundles ?s)(k \<mapsto> b)\<rparr>"
  have "\<forall>sub. length (st_chans ?s1 sub) \<le> chanCap"
    using store_invD(1) [OF assms(1)] by simp
  from pub_serves_all [OF this assms(3), of b] obtain ls where ls: "set ls \<subseteq> {LPubDrain, LPubSend}"
    "raceRun (pubAt y ?s1 b (subsOf ?s k)) ls = Some (pubAt y (delivered ?s k b) b [])"
    by (auto simp: delivered_def cong: if_cong)
  moreover have "raceStep y (LPublish k b) = Some (pubAt y ?s1 b (subsOf ?s k))"
    using assms(2) by (simp add: pubAt_def)
  moreover have "y\<lparr>rc_store := delivered ?s k b, rc_pub := None\<rparr> = y\<lparr>rc_store := delivered ?s k b\<rparr>"
    using assms(2) by (cases y) simp
  ultimately show ?thesis
    using assms(1)
    by (intro exI [of _ ls] exI [of _ "delivered ?s k b"])
      (simp add: raceRun_append Publish_eq pubAt_def)
qed

theorem publisher_steps_refine_publish_witness:
  "\<exists>ls s. set ls \<subseteq> {LPubDrain, LPubSend} \<and>
     Publish NewStore (mkKey ''ns'' ''e'') (demoBundle ''a'') = Some s \<and>
     raceRun raceStart (LPublish (mkKey ''ns'' ''e'') (demoBundle ''a'') # ls @ [LPubDone])
       = Some (raceStart\<lparr>rc_store := s\<rparr>)"
  using publisher_steps_refine_publish [of raceStart "mkKey ''ns'' ''e''" "demoBundle ''a''"]
  by (simp add: raceStart_def store_inv_NewStore)

end
