(* ===== verification/RuleSet_Controller.thy ===== *)
theory RuleSet_Controller
  imports Source_Controllers Rulestore
begin

text \<open>
  The reconciler of rule sets, \<open>internal/controller/ruleset_controller.go\<close>: it reads the sources in declared
  order, compiles them, writes the status and publishes the bundle to the engines that use the set. A publication
  that would block makes \<open>Reconcile\<close> return \<open>None\<close>; the interface of the store shows that it does not happen.
  The mappings from watch events to reconcile requests are modelled as well.
\<close>

subsection \<open>Reading the sources\<close>

text \<open>
  The loop of \<open>collectSources\<close>. A result is an error, or the sources with the message about a missing
  reference, which is empty when there is none.
\<close>

fun collectLoop :: "'w Kube \<Rightarrow> string \<Rightarrow> SourceRef list \<Rightarrow> Source list \<Rightarrow> 'w
    \<Rightarrow> (Source list \<times> string) result \<times> 'w" where
  "collectLoop K ns [] sources w = (Inr (sources, ''''), w)"
| "collectLoop K ns (ref # refs) sources w =
     (if ref_Kind ref = SourceRefKindSecRules \<or> ref_Kind ref = ''''
      then
        (case k_GetSecRules K (ns, ref_Name ref) w of
           (Inl err, w1) \<Rightarrow>
             (if IsNotFound err
              then (Inr ([], ''SecRules '' @ ns @ ''/'' @ ref_Name ref @ '' not found''), w1)
              else (Inl (''get SecRules '' @ ns @ ''/'' @ ref_Name ref @ '': '' @ errText err), w1))
         | (Inr sr, w1) \<Rightarrow>
             collectLoop K ns refs
               (sources @ [\<lparr>src_Kind = SourceRefKindSecRules, src_Name = ref_Name ref,
                            src_Body = srs_Rules (sr_Spec sr)\<rparr>]) w1)
      else if ref_Kind ref = SourceRefKindClusterSecRules
      then
        (case k_GetClusterSecRules K ('''', ref_Name ref) w of
           (Inl err, w1) \<Rightarrow>
             (if IsNotFound err
              then (Inr ([], ''ClusterSecRules '' @ ref_Name ref @ '' not found''), w1)
              else (Inl (''get ClusterSecRules '' @ ref_Name ref @ '': '' @ errText err), w1))
         | (Inr csr, w1) \<Rightarrow>
             collectLoop K ns refs
               (sources @ [\<lparr>src_Kind = SourceRefKindClusterSecRules, src_Name = ref_Name ref,
                            src_Body = csrs_Rules (csr_Spec csr)\<rparr>]) w1)
      else (Inr ([], ''unknown source kind '' @ Quote (ref_Kind ref) @ '' in spec.sources''), w))"

definition collectSources :: "'w Kube \<Rightarrow> RuleSet \<Rightarrow> 'w \<Rightarrow> (Source list \<times> string) result \<times> 'w" where
  "collectSources K rs w = collectLoop K (rs_Namespace rs) (rss_Sources (rs_Spec rs)) [] w"

subsection \<open>Status and publication\<close>

definition RuleSet_patchStatusIfChanged ::
  "'w Kube \<Rightarrow> RuleSet \<Rightarrow> RuleSet \<Rightarrow> 'w \<Rightarrow> Result result \<times> 'w" where
  "RuleSet_patchStatusIfChanged K original updated w =
     (if k_EqRuleSetStatus K (rs_Status original) (rs_Status updated) then (Inr emptyResult, w)
      else
        (case k_UpdateRuleSetStatus K updated w of
           (Inl err, w') \<Rightarrow>
             (Inl (''update RuleSet status '' @ rs_Namespace updated @ ''/'' @ rs_Name updated @ '': ''
                @ errText err), w')
         | (Inr _, w') \<Rightarrow> (Inr emptyResult, w')))"

definition RuleSet_degraded :: "'w Kube \<Rightarrow> time \<Rightarrow> RuleSet \<Rightarrow> string \<Rightarrow> string \<Rightarrow> RuleSet" where
  "RuleSet_degraded K now rs reason message =
     rs\<lparr>rs_Status := (rs_Status rs)\<lparr>rst_Conditions :=
       degrade K now (rst_Conditions (rs_Status rs)) (om_Generation (rs_Meta rs)) reason message\<rparr>\<rparr>"

definition RuleSet_compiled :: "'w Kube \<Rightarrow> time \<Rightarrow> RuleSet \<Rightarrow> CBundle \<Rightarrow> RuleSet" where
  "RuleSet_compiled K now rs bundle =
     rs\<lparr>rs_Status := (rs_Status rs)\<lparr>
       rst_Conditions :=
         setReady K now (rst_Conditions (rs_Status rs)) (om_Generation (rs_Meta rs)) ReasonCompiled
           (''compiled '' @ Itoa (sint (cb_RuleCount bundle)) @ '' rules''),
       rst_CompiledHash := cb_SHA256 bundle,
       rst_RuleCount := cb_RuleCount bundle,
       rst_LastCompiledAt := Some now,
       rst_ObservedGeneration := om_Generation (rs_Meta rs)\<rparr>\<rparr>"

text \<open>The loop over the listed engines; \<open>time.Now()\<close> is read from the world the list left.\<close>

fun publishItems :: "string \<Rightarrow> CBundle \<Rightarrow> time \<Rightarrow> Engine list \<Rightarrow> Store \<Rightarrow> Store option" where
  "publishItems rsName b now [] s = Some s"
| "publishItems rsName b now (eng # items) s =
     (if es_RuleSetRef (en_Spec eng) \<noteq> rsName then publishItems rsName b now items s
      else
        (case PublishIfChanged s (mkKey (en_Namespace eng) (en_Name eng))
                \<lparr>b_RuleSetName = rsName, b_SHA256 = cb_SHA256 b, b_Compiled = cb_Compiled b,
                 b_GeneratedAt = now\<rparr> of
           None \<Rightarrow> None
         | Some (s', changed) \<Rightarrow> publishItems rsName b now items s'))"

definition publishToEngines ::
  "'w Kube \<Rightarrow> Store option \<Rightarrow> RuleSet \<Rightarrow> CBundle \<Rightarrow> 'w \<Rightarrow> (Store option \<times> 'w) option" where
  "publishToEngines K store rs b w =
     (case store of
        None \<Rightarrow> Some (None, w)
      | Some s \<Rightarrow>
          (case k_ListEngines K (Some (rs_Namespace rs)) w of
             (Inl err, w1) \<Rightarrow> Some (Some s, w1)
           | (Inr items, w1) \<Rightarrow>
               map_option (\<lambda>s'. (Some s', w1)) (publishItems (rs_Name rs) b (k_Now K w1) items s)))"

definition RuleSet_Reconcile ::
  "'w Kube \<Rightarrow> Store option \<Rightarrow> NamespacedName \<Rightarrow> 'w \<Rightarrow> (Result result \<times> Store option \<times> 'w) option" where
  "RuleSet_Reconcile K store req w =
     (case k_GetRuleSet K req w of
        (Inl err, w1) \<Rightarrow>
          (if IsNotFound err then Some (Inr emptyResult, store, w1)
           else Some (Inl (''get RuleSet '' @ keyString req @ '': '' @ errText err), store, w1))
      | (Inr rs, w1) \<Rightarrow>
          (case collectSources K rs w1 of
             (Inl err, w2) \<Rightarrow>
               Some (Inl (''collect sources for RuleSet '' @ keyString req @ '': '' @ err), store, w2)
           | (Inr (sources, missing), w2) \<Rightarrow>
               if missing \<noteq> ''''
               then
                 (case RuleSet_patchStatusIfChanged K rs
                         (RuleSet_degraded K (k_Now K w2) rs ReasonDependencyMissing missing) w2 of
                    (r, w3) \<Rightarrow> Some (r, store, w3))
               else
                 (case Compile sources of
                    Inl err \<Rightarrow>
                      (case RuleSet_patchStatusIfChanged K rs
                              (RuleSet_degraded K (k_Now K w2) rs ReasonRuleConflict
                                (ConflictError_Error err)) w2 of
                         (r, w3) \<Rightarrow> Some (r, store, w3))
                  | Inr bundle \<Rightarrow>
                      (case RuleSet_patchStatusIfChanged K rs
                              (RuleSet_compiled K (k_Now K w2) rs bundle) w2 of
                         (Inl err, w3) \<Rightarrow> Some (Inl err, store, w3)
                       | (Inr result, w3) \<Rightarrow>
                           (case publishToEngines K store rs bundle w3 of
                              None \<Rightarrow> None
                            | Some (store', w4) \<Rightarrow> Some (Inr result, store', w4))))))"

subsection \<open>Watch mappings\<close>

definition requestFor :: "RuleSet \<Rightarrow> NamespacedName" where
  "requestFor rs = (rs_Namespace rs, rs_Name rs)"

definition refersSecRules :: "string \<Rightarrow> RuleSet \<Rightarrow> bool" where
  "refersSecRules name rs \<longleftrightarrow>
     list_ex (\<lambda>src. (ref_Kind src = SourceRefKindSecRules \<or> ref_Kind src = '''') \<and> ref_Name src = name)
       (rss_Sources (rs_Spec rs))"

definition refersClusterSecRules :: "string \<Rightarrow> RuleSet \<Rightarrow> bool" where
  "refersClusterSecRules name rs \<longleftrightarrow>
     list_ex (\<lambda>src. ref_Kind src = SourceRefKindClusterSecRules \<and> ref_Name src = name)
       (rss_Sources (rs_Spec rs))"

definition enqueueRuleSetsForSecRules :: "'w Kube \<Rightarrow> ObjectMeta \<Rightarrow> 'w \<Rightarrow> NamespacedName list \<times> 'w" where
  "enqueueRuleSetsForSecRules K obj w =
     (case k_ListRuleSets K (Some (om_Namespace obj)) w of
        (Inl err, w1) \<Rightarrow> ([], w1)
      | (Inr items, w1) \<Rightarrow> (map requestFor (filter (refersSecRules (om_Name obj)) items), w1))"

definition enqueueRuleSetsForClusterSecRules ::
  "'w Kube \<Rightarrow> ObjectMeta \<Rightarrow> 'w \<Rightarrow> NamespacedName list \<times> 'w" where
  "enqueueRuleSetsForClusterSecRules K obj w =
     (case k_ListRuleSets K None w of
        (Inl err, w1) \<Rightarrow> ([], w1)
      | (Inr items, w1) \<Rightarrow> (map requestFor (filter (refersClusterSecRules (om_Name obj)) items), w1))"

subsection \<open>Lemmas\<close>

interpretation rule_set_patch: status_patcher rs_Status "k_EqRuleSetStatus K" "k_UpdateRuleSetStatus K"
  "RuleSet_patchStatusIfChanged K" for K
  by unfold_locales (auto simp: RuleSet_patchStatusIfChanged_def)

text \<open>The loop over the engines is a run of the interface's loop on the engines that use the set.\<close>

definition bundleOf :: "string \<Rightarrow> CBundle \<Rightarrow> time \<Rightarrow> Bundle" where
  "bundleOf rsName b now =
     \<lparr>b_RuleSetName = rsName, b_SHA256 = cb_SHA256 b, b_Compiled = cb_Compiled b, b_GeneratedAt = now\<rparr>"

definition engKey :: "Engine \<Rightarrow> engineKey" where
  "engKey e = mkKey (en_Namespace e) (en_Name e)"

lemma publishItems_each:
  "publishItems rsName b now items s =
   publishEach PublishIfChanged s
     (map (\<lambda>e. (engKey e, bundleOf rsName b now))
       (filter (\<lambda>e. es_RuleSetRef (en_Spec e) = rsName) items))"
  by (induction items arbitrary: s) (auto simp: bundleOf_def engKey_def split: option.splits)

lemma map_of_const:
  "map_of (map (\<lambda>x. (f x, c)) xs) k = (if k \<in> f ` set xs then Some c else None)"
  by (induction xs) auto

text \<open>After the publication every engine of the list that uses the set has the digest; other keys are as before.\<close>

lemma publishItems_spec:
  assumes "store_inv s"
  obtains s' where "publishItems rsName b now items s = Some s'" "store_inv s'"
    "\<And>e. e \<in> set items \<Longrightarrow> es_RuleSetRef (en_Spec e) = rsName \<Longrightarrow>
       map_option b_SHA256 (Get s' (engKey e)) = Some (cb_SHA256 b)"
    "\<And>k. k \<notin> engKey ` {e \<in> set items. es_RuleSetRef (en_Spec e) = rsName} \<Longrightarrow> Get s' k = Get s k"
proof -
  let ?es = "filter (\<lambda>e. es_RuleSetRef (en_Spec e) = rsName) items"
  let ?kbs = "map (\<lambda>e. (engKey e, bundleOf rsName b now)) ?es"
  obtain s' where s': "publishEach PublishIfChanged s ?kbs = Some s'" "store_inv s'"
    using rulestore.publishEach_total [OF assms] by blast
  show thesis
  proof
    show "publishItems rsName b now items s = Some s'" by (simp add: publishItems_each s')
    show "store_inv s'" by (rule s')
    show "map_option b_SHA256 (Get s' (engKey e)) = Some (cb_SHA256 b)"
      if "e \<in> set items" "es_RuleSetRef (en_Spec e) = rsName" for e
      using rulestore.publishEach_digest [OF assms s'(1), of "engKey e"] that
      by (auto simp: rev_map map_of_const bundleOf_def)
    show "Get s' k = Get s k"
      if "k \<notin> engKey ` {e \<in> set items. es_RuleSetRef (en_Spec e) = rsName}" for k
      by (rule rulestore.publishEach_other [OF assms s'(1)]) (use that in auto)
  qed
qed

lemma publishToEngines_total:
  "store_inv s \<Longrightarrow> \<exists>s' w'. publishToEngines K (Some s) rs b w = Some (Some s', w') \<and> store_inv s'"
proof (cases "k_ListEngines K (Some (rs_Namespace rs)) w")
  case (Pair r w1)
  moreover assume "store_inv s"
  ultimately show ?thesis
  proof (cases r)
    case (Inr items)
    obtain s' where "publishItems (rs_Name rs) b (k_Now K w1) items s = Some s'" "store_inv s'"
      using \<open>store_inv s\<close> by (rule publishItems_spec)
    with Inr Pair show ?thesis by (simp add: publishToEngines_def)
  qed (simp add: publishToEngines_def)
qed

text \<open>A source that was read for a reference: its kind and name, and the text some \<open>Get\<close> of that object returned.\<close>

definition readFrom :: "'w Kube \<Rightarrow> string \<Rightarrow> SourceRef \<Rightarrow> Source \<Rightarrow> bool" where
  "readFrom K ns ref src \<longleftrightarrow> src_Name src = ref_Name ref \<and>
     (if ref_Kind ref = SourceRefKindSecRules \<or> ref_Kind ref = ''''
      then src_Kind src = SourceRefKindSecRules \<and>
        (\<exists>v v' sr. k_GetSecRules K (ns, ref_Name ref) v = (Inr sr, v') \<and> src_Body src = srs_Rules (sr_Spec sr))
      else ref_Kind ref = SourceRefKindClusterSecRules \<and> src_Kind src = SourceRefKindClusterSecRules \<and>
        (\<exists>v v' csr. k_GetClusterSecRules K ('''', ref_Name ref) v = (Inr csr, v') \<and>
           src_Body src = csrs_Rules (csr_Spec csr)))"

lemma collectLoop_step:
  assumes "collectLoop K ns (ref # refs) acc w = (Inr (sources, ''''), w')"
  shows "\<exists>src w1. readFrom K ns ref src \<and>
    collectLoop K ns refs (acc @ [src]) w1 = (Inr (sources, ''''), w')"
proof (cases "ref_Kind ref = SourceRefKindSecRules \<or> ref_Kind ref = ''''")
  case True
  with assms obtain sr w1 where sr: "k_GetSecRules K (ns, ref_Name ref) w = (Inr sr, w1)"
    and rest: "collectLoop K ns refs (acc @ [\<lparr>src_Kind = SourceRefKindSecRules, src_Name = ref_Name ref,
      src_Body = srs_Rules (sr_Spec sr)\<rparr>]) w1 = (Inr (sources, ''''), w')"
    by (auto split: prod.splits sum.splits if_splits)
  from sr True have "readFrom K ns ref \<lparr>src_Kind = SourceRefKindSecRules, src_Name = ref_Name ref,
      src_Body = srs_Rules (sr_Spec sr)\<rparr>"
    unfolding readFrom_def by auto
  with rest show ?thesis by blast
next
  case False
  with assms obtain csr w1 where csr: "k_GetClusterSecRules K ('''', ref_Name ref) w = (Inr csr, w1)"
    and k: "ref_Kind ref = SourceRefKindClusterSecRules"
    and rest: "collectLoop K ns refs (acc @ [\<lparr>src_Kind = SourceRefKindClusterSecRules,
      src_Name = ref_Name ref, src_Body = csrs_Rules (csr_Spec csr)\<rparr>]) w1 = (Inr (sources, ''''), w')"
    by (auto split: prod.splits sum.splits if_splits)
  from csr k False have "readFrom K ns ref \<lparr>src_Kind = SourceRefKindClusterSecRules,
      src_Name = ref_Name ref, src_Body = csrs_Rules (csr_Spec csr)\<rparr>"
    unfolding readFrom_def by auto
  with rest show ?thesis by blast
qed

lemma collectLoop_ok:
  assumes "collectLoop K ns refs acc w = (Inr (sources, ''''), w')"
  shows "\<exists>new. sources = acc @ new \<and> list_all2 (readFrom K ns) refs new"
  using assms
proof (induction refs arbitrary: acc w)
  case Nil
  then show ?case by simp
next
  case (Cons ref refs)
  obtain src w1 where src: "readFrom K ns ref src"
    and rest: "collectLoop K ns refs (acc @ [src]) w1 = (Inr (sources, ''''), w')"
    using collectLoop_step [OF Cons.prems] by blast
  from Cons.IH [OF rest] obtain new where
    "sources = (acc @ [src]) @ new" "list_all2 (readFrom K ns) refs new" by blast
  with src show ?case
    by (intro exI [of _ "src # new"]) simp
qed

lemma collectSources_ok:
  assumes "collectSources K rs w = (Inr (sources, ''''), w')"
  shows "list_all2 (readFrom K (rs_Namespace rs)) (rss_Sources (rs_Spec rs)) sources"
  using assms collectLoop_ok [of K "rs_Namespace rs" "rss_Sources (rs_Spec rs)" "[]" w sources w']
  by (auto simp: collectSources_def)

subsection \<open>Properties\<close>

text \<open>
  A successful compilation reaches its engines: when the sources were read and compile, and the API server
  accepts the status, the reconcile returns, the status it wrote is \<open>Ready\<close> with the digest and the count of the
  bundle, every listed engine that uses the set has a bundle with exactly that digest in the store, and no other
  key of the store changed.
\<close>

theorem ruleset_reconcile_publishes:
  assumes "meta_laws K" and "store_inv s"
    and "k_GetRuleSet K req w = (Inr rs, w1)"
    and "collectSources K rs w1 = (Inr (sources, ''''), w2)" and "Compile sources = Inr b"
    and "rs' = RuleSet_compiled K (k_Now K w2) rs b"
    and "RuleSet_patchStatusIfChanged K rs rs' w2 = (Inr res, w3)"
    and "k_ListEngines K (Some (rs_Namespace rs)) w3 = (Inr items, w4)"
  shows "\<exists>s'. RuleSet_Reconcile K (Some s) req w = Some (Inr emptyResult, Some s', w4) \<and> store_inv s' \<and>
    rst_CompiledHash (rs_Status rs') = sha256hex (concat (map writeSource sources)) \<and>
    rst_RuleCount (rs_Status rs') = of_nat (directiveCount sources) \<and>
    condStatus (rst_Conditions (rs_Status rs')) ConditionReady = Some ConditionTrue \<and>
    condStatus (rst_Conditions (rs_Status rs')) ConditionDegraded = Some ConditionFalse \<and>
    (\<forall>e \<in> set items. es_RuleSetRef (en_Spec e) = rs_Name rs \<longrightarrow>
       map_option b_SHA256 (Get s' (engKey e)) = Some (rst_CompiledHash (rs_Status rs'))) \<and>
    (\<forall>k. k \<notin> engKey ` {e \<in> set items. es_RuleSetRef (en_Spec e) = rs_Name rs} \<longrightarrow> Get s' k = Get s k)"
proof -
  obtain s' where s': "publishItems (rs_Name rs) b (k_Now K w4) items s = Some s'" "store_inv s'"
    "\<And>e. e \<in> set items \<Longrightarrow> es_RuleSetRef (en_Spec e) = rs_Name rs \<Longrightarrow>
       map_option b_SHA256 (Get s' (engKey e)) = Some (cb_SHA256 b)"
    "\<And>k. k \<notin> engKey ` {e \<in> set items. es_RuleSetRef (en_Spec e) = rs_Name rs} \<Longrightarrow> Get s' k = Get s k"
    by (rule publishItems_spec [OF assms(2), of "rs_Name rs" b "k_Now K w4" items]) (rule that)
  have "res = emptyResult"
    using rule_set_patch.patch_result [of K rs rs' w2 res] assms(7) by simp
  with assms s'(1) have "RuleSet_Reconcile K (Some s) req w = Some (Inr emptyResult, Some s', w4)"
    by (simp add: RuleSet_Reconcile_def publishToEngines_def)
  moreover have "rst_CompiledHash (rs_Status rs') = cb_SHA256 b" "rst_RuleCount (rs_Status rs') = cb_RuleCount b"
    by (simp_all add: assms(6) RuleSet_compiled_def)
  moreover have "condStatus (rst_Conditions (rs_Status rs')) ConditionReady = Some ConditionTrue"
    "condStatus (rst_Conditions (rs_Status rs')) ConditionDegraded = Some ConditionFalse"
    by (simp_all add: assms(6) RuleSet_compiled_def cond_views find_setReady assms(1))
  ultimately show ?thesis
    using s' assms(5) by (intro exI [of _ s']) (simp add: Compile_Inr_iff)
qed

text \<open>
  A reconcile of a rule set always returns, whatever the API server answers, and keeps the store's
  invariant; and the store changes only after the sources were read completely, they compiled and the status
  was accepted. In particular a missing source, a conflict or a refused status update publishes nothing.
\<close>

theorem ruleset_store_changes_last:
  assumes "store_inv s"
  shows "\<exists>r s' w'. RuleSet_Reconcile K (Some s) req w = Some (r, Some s', w') \<and> store_inv s' \<and>
    (s' = s \<or>
     (\<exists>rs w1 sources w2 b w3. k_GetRuleSet K req w = (Inr rs, w1) \<and>
        collectSources K rs w1 = (Inr (sources, ''''), w2) \<and> Compile sources = Inr b \<and>
        RuleSet_patchStatusIfChanged K rs (RuleSet_compiled K (k_Now K w2) rs b) w2 = (Inr emptyResult, w3) \<and>
        r = Inr emptyResult))"
proof -
  obtain g w1 where g: "k_GetRuleSet K req w = (g, w1)" by fastforce
  show ?thesis
  proof (cases g)
    case (Inl e)
    with g assms show ?thesis by (simp add: RuleSet_Reconcile_def)
  next
    case (Inr rs)
    obtain c w2 where c: "collectSources K rs w1 = (c, w2)" by fastforce
    show ?thesis
    proof (cases c)
      case (Inl e)
      with g Inr c assms show ?thesis by (simp add: RuleSet_Reconcile_def)
    next
      case found: (Inr sm)
      obtain sources missing where sm: "sm = (sources, missing)" by fastforce
      consider (missing) "missing \<noteq> ''''" | (conflict) e where "missing = ''''" "Compile sources = Inl e"
        | (ok) b where "missing = ''''" "Compile sources = Inr b"
        by (cases "Compile sources") auto
      then show ?thesis
      proof cases
        case (ok b)
        obtain p w3 where
          p: "RuleSet_patchStatusIfChanged K rs (RuleSet_compiled K (k_Now K w2) rs b) w2 = (p, w3)"
          by fastforce
        obtain s' w4 where s': "publishToEngines K (Some s) rs b w3 = Some (Some s', w4)" "store_inv s'"
          using publishToEngines_total [OF assms, of K rs b w3] by blast
        have "res = emptyResult" if "p = Inr res" for res
          using rule_set_patch.patch_result p that by (metis fst_conv)
        with g Inr c found sm ok p s' assms show ?thesis
          by (cases p) (auto simp: RuleSet_Reconcile_def)
      qed (use g Inr c found sm assms in \<open>auto simp: RuleSet_Reconcile_def split: prod.splits\<close>)
    qed
  qed
qed

text \<open>
  The compiled text comes from the declared sources: when \<open>collectSources\<close> reports nothing missing, it
  returns one source per reference, in declared order, with the name and kind of the reference (an empty kind
  means \<open>SecRules\<close>) and a text that a read of exactly that object returned: in the namespace of the set for
  \<open>SecRules\<close>, without a namespace for \<open>ClusterSecRules\<close>.
\<close>

theorem collect_sources_in_order:
  assumes "collectSources K rs w = (Inr (sources, ''''), w')"
  shows "length sources = length (rss_Sources (rs_Spec rs)) \<and>
    (\<forall>i < length sources. readFrom K (rs_Namespace rs) (rss_Sources (rs_Spec rs) ! i) (sources ! i))"
  using collectSources_ok [OF assms] by (auto simp: list_all2_conv_all_nth)

definition readsSecRules :: "RuleSet \<Rightarrow> NamespacedName \<Rightarrow> bool" where
  "readsSecRules rs key \<longleftrightarrow> rs_Namespace rs = fst key \<and>
     (\<exists>ref \<in> set (rss_Sources (rs_Spec rs)).
        ref_Name ref = snd key \<and> (ref_Kind ref = SourceRefKindSecRules \<or> ref_Kind ref = ''''))"

definition readsClusterSecRules :: "RuleSet \<Rightarrow> string \<Rightarrow> bool" where
  "readsClusterSecRules rs name \<longleftrightarrow>
     (\<exists>ref \<in> set (rss_Sources (rs_Spec rs)). ref_Name ref = name \<and> ref_Kind ref = SourceRefKindClusterSecRules)"

text \<open>
  The watches are complete and precise: a \<open>SecRules\<close> event enqueues, each once per listed object, exactly the
  listed rule sets for which the object is one of the sources \<open>collectSources\<close> would read, and all of them are
  in the namespace of the object; the same holds cluster-wide for \<open>ClusterSecRules\<close>.
\<close>

theorem ruleset_watches_complete:
  assumes "list_laws K"
    and "k_ListRuleSets K (Some (om_Namespace obj)) w = (Inr items, w1)"
    and "k_ListRuleSets K None v = (Inr citems, v1)"
  shows "fst (enqueueRuleSetsForSecRules K obj w) =
      map requestFor (filter (\<lambda>rs. readsSecRules rs (om_Namespace obj, om_Name obj)) items) \<and>
    fst (enqueueRuleSetsForClusterSecRules K obj v) =
      map requestFor (filter (\<lambda>rs. readsClusterSecRules rs (om_Name obj)) citems)"
proof -
  have "filter (refersSecRules (om_Name obj)) items =
      filter (\<lambda>rs. readsSecRules rs (om_Namespace obj, om_Name obj)) items"
    using assms(1,2)
    by (intro filter_cong) (auto simp: list_laws_def refersSecRules_def readsSecRules_def list_ex_iff)
  moreover have "filter (refersClusterSecRules (om_Name obj)) citems =
      filter (\<lambda>rs. readsClusterSecRules rs (om_Name obj)) citems"
    by (intro filter_cong) (auto simp: refersClusterSecRules_def readsClusterSecRules_def list_ex_iff)
  ultimately show ?thesis
    using assms(2,3)
    by (simp add: enqueueRuleSetsForSecRules_def enqueueRuleSetsForClusterSecRules_def)
qed

subsection \<open>Witnesses\<close>

definition demoRuleSet :: RuleSet where
  "demoRuleSet =
     \<lparr>rs_Meta = demoMeta ''ns'' ''r'', rs_Spec = \<lparr>rss_Sources = [\<lparr>ref_Kind = '''', ref_Name = ''a''\<rparr>]\<rparr>,
      rs_Status = \<lparr>rst_Conditions = [], rst_ObservedGeneration = 0, rst_CompiledHash = '''',
                   rst_RuleCount = 0, rst_LastCompiledAt = None\<rparr>\<rparr>"

definition demoEngine :: Engine where
  "demoEngine =
     \<lparr>en_Meta = demoMeta ''ns'' ''e'',
      en_Spec =
        \<lparr>es_Type = EngineTypeCorazaHTTP, es_RuleSetRef = ''r'', es_Replicas = None, es_Image = None,
         es_Listener = \<lparr>lc_Port = 0, lc_ProxyProtocol = False, lc_SPOAPort = 0\<rparr>,
         es_Upstream = \<lparr>uc_URL = ''http://backend''\<rparr>, es_Mode = EngineModeBlocking,
         es_Resources = \<lparr>rr_Limits = Map.empty, rr_Requests = Map.empty\<rparr>\<rparr>,
      en_Status = \<lparr>et_Conditions = [], et_ObservedGeneration = 0, et_ReadyReplicas = 0,
                   et_AppliedRuleSetHash = ''''\<rparr>\<rparr>"

definition demoCluster :: demoWorld where
  "demoCluster = emptyWorld\<lparr>dw_SecRules := [demoSecRules ''SecAction id:7''], dw_RuleSets := [demoRuleSet],
     dw_Engines := [demoEngine]\<rparr>"

definition demoSources :: "Source list" where
  "demoSources = [\<lparr>src_Kind = SourceRefKindSecRules, src_Name = ''a'', src_Body = ''SecAction id:7''\<rparr>]"

lemma demo_collect: "collectSources demoKube demoRuleSet demoCluster = (Inr (demoSources, ''''), demoCluster)"
  by (simp add: collectSources_def demoRuleSet_def demoCluster_def emptyWorld_def demoSecRules_def demoMeta_def
      metaKey_def demoSources_def)

lemma demo_compiles:
  obtains b where "Compile demoSources = Inr b" "directiveCount demoSources = 1"
proof -
  have "distinct (allIDs demoSources)" "directiveCount demoSources = 1" by code_simp+
  then show thesis using that by (auto simp: Compile_Inr_iff)
qed

lemma demo_cluster_objects:
  "k_GetRuleSet demoKube (''ns'', ''r'') demoCluster = (Inr demoRuleSet, demoCluster)"
  "k_GetEngine demoKube (''ns'', ''e'') demoCluster = (Inr demoEngine, demoCluster)"
  "rs_Namespace demoRuleSet = ''ns''" "rs_Name demoRuleSet = ''r''"
  "en_Namespace demoEngine = ''ns''" "en_Name demoEngine = ''e''"
  "es_RuleSetRef (en_Spec demoEngine) = ''r''" "engKey demoEngine = mkKey ''ns'' ''e''"
  by (simp_all add: demoCluster_def emptyWorld_def demoRuleSet_def demoEngine_def demoMeta_def metaKey_def
      engKey_def)

text \<open>The calls of a reconcile of this rule set all succeed.\<close>

lemma demo_reconcile:
  obtains b w3 where "Compile demoSources = Inr b"
    "RuleSet_patchStatusIfChanged demoKube demoRuleSet (RuleSet_compiled demoKube (k_Now demoKube demoCluster) demoRuleSet b)
       demoCluster = (Inr emptyResult, w3)"
    "k_ListEngines demoKube (Some (rs_Namespace demoRuleSet)) w3 = (Inr [demoEngine], w3)"
proof -
  obtain b where b: "Compile demoSources = Inr b" by (rule demo_compiles)
  define rs' where "rs' = RuleSet_compiled demoKube (k_Now demoKube demoCluster) demoRuleSet b"
  define w3 where "w3 = snd (RuleSet_patchStatusIfChanged demoKube demoRuleSet rs' demoCluster)"
  have p: "RuleSet_patchStatusIfChanged demoKube demoRuleSet rs' demoCluster = (Inr emptyResult, w3)"
    by (simp add: w3_def RuleSet_patchStatusIfChanged_def demoKube_def)
  have "dw_Engines w3 = [demoEngine]"
    by (simp add: w3_def RuleSet_patchStatusIfChanged_def demoKube_def demoCluster_def)
  then have "k_ListEngines demoKube (Some (rs_Namespace demoRuleSet)) w3 = (Inr [demoEngine], w3)"
    by (simp add: demoKube_def demo_cluster_objects)
  with b p show thesis unfolding rs'_def by (rule that)
qed

theorem ruleset_reconcile_publishes_witness:
  "\<exists>b s' w'. Compile demoSources = Inr b \<and>
     RuleSet_Reconcile demoKube (Some NewStore) (''ns'', ''r'') demoCluster
       = Some (Inr emptyResult, Some s', w') \<and>
     map_option b_SHA256 (Get s' (mkKey ''ns'' ''e'')) = Some (cb_SHA256 b)"
proof -
  obtain b w3 where b: "Compile demoSources = Inr b"
    and p: "RuleSet_patchStatusIfChanged demoKube demoRuleSet
      (RuleSet_compiled demoKube (k_Now demoKube demoCluster) demoRuleSet b) demoCluster = (Inr emptyResult, w3)"
    and l: "k_ListEngines demoKube (Some (rs_Namespace demoRuleSet)) w3 = (Inr [demoEngine], w3)"
    by (rule demo_reconcile)
  from ruleset_reconcile_publishes [OF demo_meta_laws store_inv_NewStore demo_cluster_objects(1) demo_collect
      b refl p l] b
  show ?thesis
    by (auto simp: demo_cluster_objects RuleSet_compiled_def)
qed

theorem ruleset_store_changes_last_witness:
  "\<exists>r s' w'. RuleSet_Reconcile demoKube (Some NewStore) (''ns'', ''missing'') demoCluster
     = Some (r, Some s', w') \<and> s' = NewStore"
proof -
  have "k_GetRuleSet demoKube (''ns'', ''missing'') demoCluster
      = (Inl (NotFound ''ns/missing not found''), demoCluster)"
    by (simp add: demoCluster_def emptyWorld_def demoRuleSet_def demoMeta_def metaKey_def)
  with ruleset_store_changes_last [OF store_inv_NewStore, of demoKube "(''ns'', ''missing'')" demoCluster]
  show ?thesis by (auto simp del: demo_gets)
qed

theorem collect_sources_in_order_witness:
  "readFrom demoKube ''ns'' (rss_Sources (rs_Spec demoRuleSet) ! 0) (demoSources ! 0)"
  using collect_sources_in_order [OF demo_collect] by (simp add: demo_cluster_objects demoSources_def)

theorem ruleset_watches_complete_witness:
  "fst (enqueueRuleSetsForSecRules demoKube (demoMeta ''ns'' ''a'') demoCluster) = [(''ns'', ''r'')]"
proof -
  have l: "k_ListRuleSets demoKube (Some (om_Namespace (demoMeta ''ns'' ''a''))) demoCluster =
      (Inr [demoRuleSet], demoCluster)"
    "k_ListRuleSets demoKube None demoCluster = (Inr [demoRuleSet], demoCluster)"
    by (simp_all add: demoKube_def demoCluster_def demo_cluster_objects demoMeta_def)
  show ?thesis
    using ruleset_watches_complete [OF demo_list_laws l]
    by (simp add: readsSecRules_def demoMeta_def demoRuleSet_def requestFor_def)
qed

end
