(* ===== verification/Engine_Controller.thy ===== *)
theory Engine_Controller
  imports RuleSet_Controller
begin

text \<open>
  The reconciler of engines, \<open>internal/controller/engine_controller.go\<close>: it resolves and compiles the rule set of
  the engine, creates or patches the ServiceAccount, the ConfigMap, the Deployment and the Service, writes the
  status and publishes the bundle. The lemmas show that the second copy of the source loop agrees with the one of
  the rule set controller, what the mutations keep and change, that the conditions describe the rollout, and that
  one digest is used everywhere.
\<close>

record EngineReconciler =
  er_Store :: "Store option"
  er_OperatorGRPCAddr :: string
  er_DefaultEngineImage :: string

subsection \<open>compileRuleSet\<close>

fun compileRefs :: "'w Kube \<Rightarrow> string \<Rightarrow> SourceRef list \<Rightarrow> Source list \<Rightarrow> 'w \<Rightarrow> Source list result \<times> 'w" where
  "compileRefs K ns [] sources w = (Inr sources, w)"
| "compileRefs K ns (ref # refs) sources w =
     (if ref_Kind ref = SourceRefKindSecRules \<or> ref_Kind ref = ''''
      then
        (case k_GetSecRules K (ns, ref_Name ref) w of
           (Inl err, w1) \<Rightarrow>
             (if IsNotFound err
              then (Inl (''SecRules '' @ ns @ ''/'' @ ref_Name ref @ '' not found''), w1)
              else (Inl (''get SecRules '' @ ns @ ''/'' @ ref_Name ref @ '': '' @ errText err), w1))
         | (Inr sr, w1) \<Rightarrow>
             compileRefs K ns refs
               (sources @ [\<lparr>src_Kind = SourceRefKindSecRules, src_Name = ref_Name ref,
                            src_Body = srs_Rules (sr_Spec sr)\<rparr>]) w1)
      else if ref_Kind ref = SourceRefKindClusterSecRules
      then
        (case k_GetClusterSecRules K ('''', ref_Name ref) w of
           (Inl err, w1) \<Rightarrow>
             (if IsNotFound err
              then (Inl (''ClusterSecRules '' @ ref_Name ref @ '' not found''), w1)
              else (Inl (''get ClusterSecRules '' @ ref_Name ref @ '': '' @ errText err), w1))
         | (Inr csr, w1) \<Rightarrow>
             compileRefs K ns refs
               (sources @ [\<lparr>src_Kind = SourceRefKindClusterSecRules, src_Name = ref_Name ref,
                            src_Body = csrs_Rules (csr_Spec csr)\<rparr>]) w1)
      else (Inl (''unknown source kind '' @ Quote (ref_Kind ref) @ '' in spec.sources''), w))"

definition compileRuleSet :: "'w Kube \<Rightarrow> string \<Rightarrow> RuleSet \<Rightarrow> 'w \<Rightarrow> CBundle result \<times> 'w" where
  "compileRuleSet K ns rs w =
     (case compileRefs K ns (rss_Sources (rs_Spec rs)) [] w of
        (Inl err, w1) \<Rightarrow> (Inl err, w1)
      | (Inr sources, w1) \<Rightarrow>
          (case Compile sources of
             Inl err \<Rightarrow> (Inl (''compile: '' @ ConflictError_Error err), w1)
           | Inr bundle \<Rightarrow> (Inr bundle, w1)))"

subsection \<open>Mutations of owned objects\<close>

text \<open>The metadata assignments the four mutations share.\<close>

definition mutateMeta :: "ObjectMeta \<Rightarrow> ObjectMeta \<Rightarrow> ObjectMeta" where
  "mutateMeta desired existing =
     existing\<lparr>om_Labels := om_Labels desired, om_Annotations := om_Annotations desired,
              om_OwnerReferences := om_OwnerReferences desired\<rparr>"

definition mutateSA :: "ServiceAccount \<Rightarrow> ServiceAccount \<Rightarrow> ServiceAccount result" where
  "mutateSA desired existing = Inr (existing\<lparr>sa_Meta := mutateMeta (sa_Meta desired) (sa_Meta existing)\<rparr>)"

definition mutateConfigMap :: "ConfigMap \<Rightarrow> ConfigMap \<Rightarrow> ConfigMap result" where
  "mutateConfigMap desired existing =
     Inr (existing\<lparr>cm_Meta := mutateMeta (cm_Meta desired) (cm_Meta existing), cm_Data := cm_Data desired\<rparr>)"

definition mutateDeployment :: "Deployment \<Rightarrow> Deployment \<Rightarrow> Deployment result" where
  "mutateDeployment desired existing =
     Inr (existing\<lparr>dp_Meta := mutateMeta (dp_Meta desired) (dp_Meta existing),
            dp_Selector :=
              (if om_ResourceVersion (dp_Meta existing) = '''' then dp_Selector desired
               else dp_Selector existing),
            dp_Replicas := dp_Replicas desired,
            dp_Template := dp_Template desired,
            dp_Strategy := dp_Strategy desired\<rparr>)"

definition mutateService :: "Service \<Rightarrow> Service \<Rightarrow> Service result" where
  "mutateService desired existing =
     Inr (existing\<lparr>sv_Meta := mutateMeta (sv_Meta desired) (sv_Meta existing),
            sv_Ports := sv_Ports desired, sv_Selector := sv_Selector desired, sv_Type := sv_Type desired\<rparr>)"

subsection \<open>applyOwnedObjects\<close>

text \<open>The objects \<open>CreateOrPatch\<close> is called with: only the name and the namespace are set.\<close>

definition nameOnly :: "ObjectMeta \<Rightarrow> ObjectMeta" where
  "nameOnly m =
     \<lparr>om_Name = om_Name m, om_Namespace = om_Namespace m, om_Generation = 0, om_ResourceVersion = '''',
      om_Labels = Map.empty, om_Annotations = Map.empty, om_OwnerReferences = []\<rparr>"

definition existingSA :: "ServiceAccount \<Rightarrow> ServiceAccount" where
  "existingSA desired = \<lparr>sa_Meta = nameOnly (sa_Meta desired)\<rparr>"

definition existingCM :: "ConfigMap \<Rightarrow> ConfigMap" where
  "existingCM desired = \<lparr>cm_Meta = nameOnly (cm_Meta desired), cm_Data = Map.empty\<rparr>"

definition existingDep :: "Deployment \<Rightarrow> Deployment" where
  "existingDep desired =
     \<lparr>dp_Meta = nameOnly (dp_Meta desired), dp_Replicas = None, dp_Selector = None,
      dp_Strategy = \<lparr>ds_Type = '''', ds_MaxSurge = None, ds_MaxUnavailable = None\<rparr>,
      dp_Template = \<lparr>pt_Labels = Map.empty, pt_Annotations = Map.empty, pt_ServiceAccountName = '''',
                     pt_Volumes = [], pt_Containers = []\<rparr>,
      dp_ReadyReplicas = 0\<rparr>"

definition existingSvc :: "Service \<Rightarrow> Service" where
  "existingSvc desired =
     \<lparr>sv_Meta = nameOnly (sv_Meta desired), sv_Type = '''', sv_Selector = Map.empty, sv_Ports = [],
      sv_ClusterIP = ''''\<rparr>"

text \<open>
  \<open>ownedObject\<close>: the kind, the name and namespace of the object, and the call of \<open>CreateOrPatch\<close> with its
  mutation. \<open>applyOwnedObject\<close> runs it; the log line of a change is not modelled.
\<close>

record 'w ownedObject =
  oo_kind :: string
  oo_obj :: ObjectMeta
  oo_call :: "('w, OperationResult) call"

definition applyOwnedObject :: "'w ownedObject \<Rightarrow> 'w \<Rightarrow> unit result \<times> 'w" where
  "applyOwnedObject obj w =
     (case oo_call obj w of
        (Inl err, w1) \<Rightarrow>
          (Inl (''reconcile '' @ oo_kind obj @ '' '' @ om_Namespace (oo_obj obj) @ ''/''
             @ om_Name (oo_obj obj) @ '': '' @ errText err), w1)
      | (Inr _, w1) \<Rightarrow> (Inr (), w1))"

fun applyEach :: "'w ownedObject list \<Rightarrow> 'w \<Rightarrow> unit result \<times> 'w" where
  "applyEach [] w = (Inr (), w)"
| "applyEach (obj # owned) w =
     (case applyOwnedObject obj w of
        (Inl err, w1) \<Rightarrow> (Inl err, w1)
      | (Inr _, w1) \<Rightarrow> applyEach owned w1)"

record Desired =
  de_SA :: ServiceAccount
  de_CM :: ConfigMap
  de_Dep :: Deployment
  de_Svc :: Service

definition buildDesired :: "EngineReconciler \<Rightarrow> Engine \<Rightarrow> CBundle \<Rightarrow> Desired" where
  "buildDesired r engine bundle =
     \<lparr>de_SA = BuildServiceAccount engine,
      de_CM = BuildRulesConfigMap engine (cb_Compiled bundle),
      de_Dep = BuildDeployment engine (cb_SHA256 bundle) (er_OperatorGRPCAddr r) (er_DefaultEngineImage r),
      de_Svc = BuildService engine\<rparr>"

text \<open>The loop that stamps the owner reference, in its order; \<open>%T\<close> prints the Go type of the object.\<close>

definition stampOwners :: "'w Kube \<Rightarrow> Engine \<Rightarrow> Desired \<Rightarrow> Desired result" where
  "stampOwners K engine d =
     (case k_SetControllerReference K engine (sa_Meta (de_SA d)) of
        Inl err \<Rightarrow> Inl (''set owner reference on *v1.ServiceAccount: '' @ err)
      | Inr m1 \<Rightarrow>
     (case k_SetControllerReference K engine (cm_Meta (de_CM d)) of
        Inl err \<Rightarrow> Inl (''set owner reference on *v1.ConfigMap: '' @ err)
      | Inr m2 \<Rightarrow>
     (case k_SetControllerReference K engine (dp_Meta (de_Dep d)) of
        Inl err \<Rightarrow> Inl (''set owner reference on *v1.Deployment: '' @ err)
      | Inr m3 \<Rightarrow>
     (case k_SetControllerReference K engine (sv_Meta (de_Svc d)) of
        Inl err \<Rightarrow> Inl (''set owner reference on *v1.Service: '' @ err)
      | Inr m4 \<Rightarrow>
          Inr \<lparr>de_SA = (de_SA d)\<lparr>sa_Meta := m1\<rparr>, de_CM = (de_CM d)\<lparr>cm_Meta := m2\<rparr>,
               de_Dep = (de_Dep d)\<lparr>dp_Meta := m3\<rparr>, de_Svc = (de_Svc d)\<lparr>sv_Meta := m4\<rparr>\<rparr>))))"

definition ownedObjects :: "'w Kube \<Rightarrow> Desired \<Rightarrow> 'w ownedObject list" where
  "ownedObjects K d =
     [\<lparr>oo_kind = ''ServiceAccount'', oo_obj = nameOnly (sa_Meta (de_SA d)),
       oo_call = k_CreateOrPatchServiceAccount K (existingSA (de_SA d)) (mutateSA (de_SA d))\<rparr>,
      \<lparr>oo_kind = ''ConfigMap'', oo_obj = nameOnly (cm_Meta (de_CM d)),
       oo_call = k_CreateOrPatchConfigMap K (existingCM (de_CM d)) (mutateConfigMap (de_CM d))\<rparr>,
      \<lparr>oo_kind = ''Deployment'', oo_obj = nameOnly (dp_Meta (de_Dep d)),
       oo_call = k_CreateOrPatchDeployment K (existingDep (de_Dep d)) (mutateDeployment (de_Dep d))\<rparr>,
      \<lparr>oo_kind = ''Service'', oo_obj = nameOnly (sv_Meta (de_Svc d)),
       oo_call = k_CreateOrPatchService K (existingSvc (de_Svc d)) (mutateService (de_Svc d))\<rparr>]"

definition applyOwnedObjects ::
  "'w Kube \<Rightarrow> EngineReconciler \<Rightarrow> Engine \<Rightarrow> CBundle \<Rightarrow> 'w \<Rightarrow> unit result \<times> 'w" where
  "applyOwnedObjects K r engine bundle w =
     (case stampOwners K engine (buildDesired r engine bundle) of
        Inl err \<Rightarrow> (Inl err, w)
      | Inr d \<Rightarrow> applyEach (ownedObjects K d) w)"

subsection \<open>Status\<close>

definition patchEngineStatusIfChanged ::
  "'w Kube \<Rightarrow> Engine \<Rightarrow> Engine \<Rightarrow> 'w \<Rightarrow> Result result \<times> 'w" where
  "patchEngineStatusIfChanged K original updated w =
     (if k_EqEngineStatus K (en_Status original) (en_Status updated) then (Inr emptyResult, w)
      else
        (case k_UpdateEngineStatus K updated w of
           (Inl err, w') \<Rightarrow>
             (Inl (''update Engine status '' @ en_Namespace updated @ ''/'' @ en_Name updated @ '': ''
                @ errText err), w')
         | (Inr _, w') \<Rightarrow> (Inr emptyResult, w')))"

abbreviation withConditions :: "Engine \<Rightarrow> Condition list \<Rightarrow> Engine" where
  "withConditions e cs \<equiv> e\<lparr>en_Status := (en_Status e)\<lparr>et_Conditions := cs\<rparr>\<rparr>"

definition markRuleSetMissing :: "'w Kube \<Rightarrow> Engine \<Rightarrow> 'w \<Rightarrow> Result result \<times> 'w" where
  "markRuleSetMissing K engine w =
     patchEngineStatusIfChanged K engine
       (withConditions engine
         (degrade K (k_Now K w) (et_Conditions (en_Status engine)) (om_Generation (en_Meta engine))
           ReasonDependencyMissing
           (''RuleSet '' @ en_Namespace engine @ ''/'' @ es_RuleSetRef (en_Spec engine) @ '' not found''))) w"

definition markAwaitingCompilation :: "'w Kube \<Rightarrow> Engine \<Rightarrow> 'w \<Rightarrow> Result result \<times> 'w" where
  "markAwaitingCompilation K engine w =
     (let progressing = mkCondition ConditionProgressing ConditionTrue ''WaitingForRuleSetCompilation''
            (''waiting for RuleSet '' @ es_RuleSetRef (en_Spec engine) @ '' to be compiled'')
            (om_Generation (en_Meta engine));
          cs = clearCondition K
                 (k_SetStatusCondition K (k_Now K w) (et_Conditions (en_Status engine)) progressing)
                 ConditionReady
      in case patchEngineStatusIfChanged K engine (withConditions engine cs) w of
           (Inl err, w1) \<Rightarrow> (Inl err, w1)
         | (Inr _, w1) \<Rightarrow> (Inr \<lparr>res_RequeueAfter = 10\<rparr>, w1))"

definition markCompileFailed ::
  "'w Kube \<Rightarrow> Engine \<Rightarrow> NamespacedName \<Rightarrow> string \<Rightarrow> 'w \<Rightarrow> Result result \<times> 'w" where
  "markCompileFailed K engine rsKey compileErr w =
     (case patchEngineStatusIfChanged K engine
             (withConditions engine
               (degrade K (k_Now K w) (et_Conditions (en_Status engine)) (om_Generation (en_Meta engine))
                 ReasonDependencyMissing
                 (''compile RuleSet '' @ keyString rsKey @ '': '' @ compileErr))) w of
        (Inl err, w1) \<Rightarrow> (Inl err, w1)
      | (Inr _, w1) \<Rightarrow> (Inr \<lparr>res_RequeueAfter = 30\<rparr>, w1))"

definition setRolloutConditions ::
  "'w Kube \<Rightarrow> time \<Rightarrow> Condition list \<Rightarrow> int \<Rightarrow> int32 \<Rightarrow> int32 \<Rightarrow> Condition list" where
  "setRolloutConditions K now conds generation ready desired =
     (if ready = desired
      then setReady K now conds generation ReasonReconciled ''engine deployment is ready''
      else
        (let reason = ''DeploymentRollingOut'';
             msg = Itoa (sint ready) @ ''/'' @ Itoa (sint desired) @ '' replicas ready'';
             c1 = k_SetStatusCondition K now conds
                    (mkCondition ConditionReady ConditionFalse reason msg generation);
             c2 = k_SetStatusCondition K now c1
                    (mkCondition ConditionProgressing ConditionTrue reason msg generation)
         in k_SetStatusCondition K now c2
              (mkCondition ConditionDegraded ConditionFalse reason '''' generation)))"

definition publishBundle ::
  "Store option \<Rightarrow> string \<Rightarrow> string \<Rightarrow> string \<Rightarrow> CBundle \<Rightarrow> time \<Rightarrow> Store option option" where
  "publishBundle store engineNS engineName ruleSetName b now =
     (case store of
        None \<Rightarrow> Some None
      | Some s \<Rightarrow>
          (case PublishIfChanged s (mkKey engineNS engineName)
                  \<lparr>b_RuleSetName = ruleSetName, b_SHA256 = cb_SHA256 b, b_Compiled = cb_Compiled b,
                   b_GeneratedAt = now\<rparr> of
             None \<Rightarrow> None
           | Some (s', _) \<Rightarrow> Some (Some s')))"

text \<open>The status \<open>reconcileStatus\<close> writes for the replicas it read.\<close>

definition rolloutStatus :: "'w Kube \<Rightarrow> time \<Rightarrow> Engine \<Rightarrow> CBundle \<Rightarrow> int32 \<Rightarrow> Engine" where
  "rolloutStatus K now engine bundle readyReplicas =
     engine\<lparr>en_Status :=
       \<lparr>et_Conditions = setRolloutConditions K now (et_Conditions (en_Status engine))
          (om_Generation (en_Meta engine)) readyReplicas (engineReplicas engine),
        et_ObservedGeneration = om_Generation (en_Meta engine),
        et_ReadyReplicas = readyReplicas,
        et_AppliedRuleSetHash = cb_SHA256 bundle\<rparr>\<rparr>"

definition reconcileStatus ::
  "'w Kube \<Rightarrow> Store option \<Rightarrow> Engine \<Rightarrow> RuleSet \<Rightarrow> CBundle \<Rightarrow> 'w
    \<Rightarrow> (Result result \<times> Store option \<times> 'w) option" where
  "reconcileStatus K store engine ruleset bundle w =
     (case k_GetDeployment K (en_Namespace engine, DeploymentName engine) w of
        (Inl err, w1) \<Rightarrow>
          Some (Inl (''get Deployment '' @ DeploymentName engine @ '' after apply: '' @ errText err), store, w1)
      | (Inr currentDep, w1) \<Rightarrow>
          (case patchEngineStatusIfChanged K engine
                  (rolloutStatus K (k_Now K w1) engine bundle (dp_ReadyReplicas currentDep)) w1 of
             (Inl err, w2) \<Rightarrow> Some (Inl err, store, w2)
           | (Inr result, w2) \<Rightarrow>
               (case publishBundle store (en_Namespace engine) (en_Name engine) (rs_Name ruleset) bundle
                       (k_Now K w2) of
                  None \<Rightarrow> None
                | Some store' \<Rightarrow>
                    if dp_ReadyReplicas currentDep \<noteq> engineReplicas engine
                    then Some (Inr \<lparr>res_RequeueAfter = 5\<rparr>, store', w2)
                    else Some (Inr result, store', w2))))"

subsection \<open>Reconcile\<close>

definition Engine_Reconcile ::
  "'w Kube \<Rightarrow> EngineReconciler \<Rightarrow> NamespacedName \<Rightarrow> 'w \<Rightarrow> (Result result \<times> Store option \<times> 'w) option" where
  "Engine_Reconcile K r req w =
     (case k_GetEngine K req w of
        (Inl err, w1) \<Rightarrow>
          (if IsNotFound err then Some (Inr emptyResult, er_Store r, w1)
           else Some (Inl (''get Engine '' @ keyString req @ '': '' @ errText err), er_Store r, w1))
      | (Inr engine, w1) \<Rightarrow>
          (let rsKey = (en_Namespace engine, es_RuleSetRef (en_Spec engine)) in
           case k_GetRuleSet K rsKey w1 of
             (Inl err, w2) \<Rightarrow>
               (if IsNotFound err
                then (case markRuleSetMissing K engine w2 of (res, w3) \<Rightarrow> Some (res, er_Store r, w3))
                else Some (Inl (''get RuleSet '' @ keyString rsKey @ '': '' @ errText err), er_Store r, w2))
           | (Inr ruleset, w2) \<Rightarrow>
               if rst_CompiledHash (rs_Status ruleset) = ''''
               then (case markAwaitingCompilation K engine w2 of (res, w3) \<Rightarrow> Some (res, er_Store r, w3))
               else
                 (case compileRuleSet K (en_Namespace engine) ruleset w2 of
                    (Inl err, w3) \<Rightarrow>
                      (case markCompileFailed K engine rsKey err w3 of (res, w4) \<Rightarrow> Some (res, er_Store r, w4))
                  | (Inr bundle, w3) \<Rightarrow>
                      (case applyOwnedObjects K r engine bundle w3 of
                         (Inl err, w4) \<Rightarrow> Some (Inl err, er_Store r, w4)
                       | (Inr _, w4) \<Rightarrow> reconcileStatus K (er_Store r) engine ruleset bundle w4))))"

definition enqueueEnginesForRuleSet :: "'w Kube \<Rightarrow> ObjectMeta \<Rightarrow> 'w \<Rightarrow> NamespacedName list \<times> 'w" where
  "enqueueEnginesForRuleSet K obj w =
     (case k_ListEngines K (Some (om_Namespace obj)) w of
        (Inl err, w1) \<Rightarrow> ([], w1)
      | (Inr items, w1) \<Rightarrow>
          (map (\<lambda>eng. (en_Namespace eng, en_Name eng))
             (filter (\<lambda>eng. es_RuleSetRef (en_Spec eng) = om_Name obj) items), w1))"

subsection \<open>Lemmas\<close>

interpretation engine_patch: status_patcher en_Status "k_EqEngineStatus K" "k_UpdateEngineStatus K"
  "patchEngineStatusIfChanged K" for K
  by unfold_locales (auto simp: patchEngineStatusIfChanged_def)

text \<open>The two copies of the loop over the references: what one calls missing the other calls an error.\<close>

lemma compileRefs_collectLoop:
  "compileRefs K ns refs acc w =
     (case collectLoop K ns refs acc w of
        (Inl e, w') \<Rightarrow> (Inl e, w')
      | (Inr (sources, missing), w') \<Rightarrow> (if missing \<noteq> '''' then Inl missing else Inr sources, w'))"
  by (induction refs arbitrary: acc w) (auto split: sum.splits prod.splits)

lemma find_setRollout:
  assumes "meta_laws K"
  shows "condStatus (setRolloutConditions K now conds gen ready desired) t =
    (if t = ConditionReady then Some (if ready = desired then ConditionTrue else ConditionFalse)
     else if t = ConditionProgressing then Some (if ready = desired then ConditionFalse else ConditionTrue)
     else if t = ConditionDegraded then Some ConditionFalse else condStatus conds t)"
    and "t \<in> {ConditionReady, ConditionProgressing, ConditionDegraded} \<Longrightarrow>
      condGeneration (setRolloutConditions K now conds gen ready desired) t = Some gen"
  using assms
  by (auto simp: setRolloutConditions_def cond_views find_setReady find_set Let_def)

lemma publishBundle_spec:
  assumes "store_inv s"
  obtains s' where "publishBundle (Some s) ns name rsName b now = Some (Some s')" "store_inv s'"
    "map_option b_SHA256 (Get s' (mkKey ns name)) = Some (cb_SHA256 b)"
    "\<And>k. k \<noteq> mkKey ns name \<Longrightarrow> Get s' k = Get s k"
proof -
  obtain s' c where s': "PublishIfChanged s (mkKey ns name) (bundleOf rsName b now) = Some (s', c)"
    using rulestore.pub_total [OF assms] by blast
  show thesis
  proof
    show "publishBundle (Some s) ns name rsName b now = Some (Some s')"
      using s' by (simp add: publishBundle_def bundleOf_def)
    show "store_inv s'" by (rule rulestore.pub_inv [OF assms s'])
    show "map_option b_SHA256 (Get s' (mkKey ns name)) = Some (cb_SHA256 b)"
      using rulestore.pub_digest [OF assms s'] by (simp add: bundleOf_def)
    show "Get s' k = Get s k" if "k \<noteq> mkKey ns name" for k
      by (rule rulestore.pub_other [OF assms s' that])
  qed
qed

text \<open>Stamping owners touches metadata only.\<close>

lemma stampOwners_frame:
  assumes "stampOwners K engine d = Inr d'"
  shows "dp_Template (de_Dep d') = dp_Template (de_Dep d)" "cm_Data (de_CM d') = cm_Data (de_CM d)"
    "dp_Selector (de_Dep d') = dp_Selector (de_Dep d)" "sv_Selector (de_Svc d') = sv_Selector (de_Svc d)"
  using assms by (auto simp: stampOwners_def split: sum.splits)

lemma stampOwners_cong:
  assumes "k_SetControllerReference K' = k_SetControllerReference K"
  shows "stampOwners K' = stampOwners K"
  unfolding stampOwners_def fun_eq_iff assms by simp

lemma mutateMeta_simps [simp]:
  "om_Name (mutateMeta d e) = om_Name e" "om_Namespace (mutateMeta d e) = om_Namespace e"
  "om_ResourceVersion (mutateMeta d e) = om_ResourceVersion e"
  "om_Generation (mutateMeta d e) = om_Generation e"
  "om_Labels (mutateMeta d e) = om_Labels d" "om_OwnerReferences (mutateMeta d e) = om_OwnerReferences d"
  "mutateMeta d (mutateMeta d e) = mutateMeta d e"
  by (simp_all add: mutateMeta_def)

lemma reconcileStatus_total:
  assumes "store_inv s"
  shows "\<exists>res s' w'. reconcileStatus K (Some s) engine ruleset b w = Some (res, Some s', w') \<and> store_inv s' \<and>
    (s' = s \<or> (\<exists>requeue. res = Inr requeue))"
proof -
  obtain g w1 where g: "k_GetDeployment K (en_Namespace engine, DeploymentName engine) w = (g, w1)"
    by fastforce
  show ?thesis
  proof (cases g)
    case (Inl e)
    with g assms show ?thesis by (simp add: reconcileStatus_def)
  next
    case (Inr dep)
    obtain p w2 where p: "patchEngineStatusIfChanged K engine
        (rolloutStatus K (k_Now K w1) engine b (dp_ReadyReplicas dep)) w1 = (p, w2)"
      by fastforce
    obtain s' where s': "publishBundle (Some s) (en_Namespace engine) (en_Name engine) (rs_Name ruleset) b
        (k_Now K w2) = Some (Some s')" "store_inv s'"
      using assms by (rule publishBundle_spec)
    with g Inr p assms show ?thesis
      by (cases p) (auto simp: reconcileStatus_def)
  qed
qed

subsection \<open>Properties\<close>

text \<open>
  C37. Both controllers compile alike: \<open>compileRuleSet\<close> in the namespace of the set reads the same objects and
  ends in the same world as \<open>collectSources\<close> followed by \<open>Compile\<close>; a missing source of the one is an error of the
  other, and a bundle of the one is the bundle of the other.
\<close>

theorem compile_rule_set_agrees:
  "compileRuleSet K (rs_Namespace rs) rs w =
     (case collectSources K rs w of
        (Inl e, w') \<Rightarrow> (Inl e, w')
      | (Inr (sources, missing), w') \<Rightarrow>
          if missing \<noteq> '''' then (Inl missing, w')
          else (case Compile sources of
                  Inl e \<Rightarrow> (Inl (''compile: '' @ ConflictError_Error e), w')
                | Inr b \<Rightarrow> (Inr b, w')))"
  by (auto simp: compileRuleSet_def collectSources_def compileRefs_collectLoop split: sum.splits prod.splits)

text \<open>
  C14. One digest everywhere: when the calls of a reconcile succeed, it returns, and the digest of the text in the
  ConfigMap is the annotation of the pod template, the \<open>AppliedRuleSetHash\<close> of the status it wrote and the
  digest of the engine's bundle in the store; the other engines' bundles are untouched; and it asks to be called
  again in five seconds exactly when the replicas are not all ready.
\<close>

theorem engine_one_digest:
  assumes "store_inv s" and "er_Store r = Some s"
    and "k_GetEngine K req w = (Inr engine, w1)"
    and "k_GetRuleSet K (en_Namespace engine, es_RuleSetRef (en_Spec engine)) w1 = (Inr ruleset, w2)"
    and "rst_CompiledHash (rs_Status ruleset) \<noteq> ''''"
    and "compileRuleSet K (en_Namespace engine) ruleset w2 = (Inr b, w3)"
    and "stampOwners K engine (buildDesired r engine b) = Inr d"
    and "applyEach (ownedObjects K d) w3 = (Inr (), w4)"
    and "k_GetDeployment K (en_Namespace engine, DeploymentName engine) w4 = (Inr dep, w5)"
    and "engine' = rolloutStatus K (k_Now K w5) engine b (dp_ReadyReplicas dep)"
    and "patchEngineStatusIfChanged K engine engine' w5 = (Inr res, w6)"
  shows "\<exists>s' text. Engine_Reconcile K r req w =
      Some (Inr (if dp_ReadyReplicas dep = engineReplicas engine then emptyResult
                 else \<lparr>res_RequeueAfter = 5\<rparr>), Some s', w6) \<and> store_inv s' \<and>
    cm_Data (de_CM d) RulesConfigMapKey = Some text \<and>
    pt_Annotations (dp_Template (de_Dep d)) annotationRulesetHash = Some (sha256hex text) \<and>
    et_AppliedRuleSetHash (en_Status engine') = sha256hex text \<and>
    map_option b_SHA256 (Get s' (engKey engine)) = Some (sha256hex text) \<and>
    (\<forall>k. k \<noteq> engKey engine \<longrightarrow> Get s' k = Get s k)"
proof -
  have b: "cb_SHA256 b = sha256hex (cb_Compiled b)"
    using assms(6) by (auto simp: compileRuleSet_def Compile_Inr_iff split: sum.splits prod.splits)
  obtain s' where s': "publishBundle (Some s) (en_Namespace engine) (en_Name engine) (rs_Name ruleset) b
      (k_Now K w6) = Some (Some s')" "store_inv s'"
    "map_option b_SHA256 (Get s' (mkKey (en_Namespace engine) (en_Name engine))) = Some (cb_SHA256 b)"
    "\<And>k. k \<noteq> mkKey (en_Namespace engine) (en_Name engine) \<Longrightarrow> Get s' k = Get s k"
    by (rule publishBundle_spec [OF assms(1), of "en_Namespace engine" "en_Name engine" "rs_Name ruleset" b
          "k_Now K w6"]) (rule that)
  have "res = emptyResult"
    using engine_patch.patch_result [of K engine engine' w5 res] assms(11) by simp
  then have "Engine_Reconcile K r req w =
      Some (Inr (if dp_ReadyReplicas dep = engineReplicas engine then emptyResult
                 else \<lparr>res_RequeueAfter = 5\<rparr>), Some s', w6)"
    using assms(2-11) s'(1)
    by (simp add: Engine_Reconcile_def applyOwnedObjects_def reconcileStatus_def)
  moreover have "cm_Data (de_CM d) RulesConfigMapKey = Some (cb_Compiled b)"
    "pt_Annotations (dp_Template (de_Dep d)) annotationRulesetHash = Some (cb_SHA256 b)"
    using stampOwners_frame [OF assms(7)]
    by (simp_all add: buildDesired_def BuildRulesConfigMap_def BuildDeployment_def b)
  moreover have "et_AppliedRuleSetHash (en_Status engine') = cb_SHA256 b"
    by (simp add: assms(10) rolloutStatus_def)
  ultimately show ?thesis
    using s' b by (intro exI [of _ s'] exI [of _ "cb_Compiled b"]) (simp add: engKey_def)
qed

text \<open>
  A reconcile of an engine always returns, whatever the API server answers, and keeps the store's invariant;
  the store changes only when the reconcile reports success, after the rule set was compiled and all owned
  objects were applied.
\<close>

theorem engine_store_changes_last:
  assumes "store_inv s" and "er_Store r = Some s"
  shows "\<exists>res s' w'. Engine_Reconcile K r req w = Some (res, Some s', w') \<and> store_inv s' \<and>
    (s' = s \<or>
     (\<exists>requeue engine w1 ruleset w2 b w3 w4. res = Inr requeue \<and> k_GetEngine K req w = (Inr engine, w1) \<and>
        k_GetRuleSet K (en_Namespace engine, es_RuleSetRef (en_Spec engine)) w1 = (Inr ruleset, w2) \<and>
        rst_CompiledHash (rs_Status ruleset) \<noteq> '''' \<and>
        compileRuleSet K (en_Namespace engine) ruleset w2 = (Inr b, w3) \<and>
        applyOwnedObjects K r engine b w3 = (Inr (), w4)))"
proof -
  obtain g w1 where g: "k_GetEngine K req w = (g, w1)" by fastforce
  show ?thesis
  proof (cases g)
    case (Inl e)
    with g assms show ?thesis by (simp add: Engine_Reconcile_def)
  next
    case engine: (Inr engine)
    let ?rsKey = "(en_Namespace engine, es_RuleSetRef (en_Spec engine))"
    obtain h w2 where h: "k_GetRuleSet K ?rsKey w1 = (h, w2)" by fastforce
    show ?thesis
    proof (cases h)
      case (Inl e)
      with g engine h assms show ?thesis
        by (auto simp: Engine_Reconcile_def Let_def split: prod.splits)
    next
      case rs: (Inr ruleset)
      obtain c w3 where c: "compileRuleSet K (en_Namespace engine) ruleset w2 = (c, w3)" by fastforce
      consider (waiting) "rst_CompiledHash (rs_Status ruleset) = ''''"
        | (failed) e where "rst_CompiledHash (rs_Status ruleset) \<noteq> ''''" "c = Inl e"
        | (compiled) b where "rst_CompiledHash (rs_Status ruleset) \<noteq> ''''" "c = Inr b"
        by (cases c) auto
      then show ?thesis
      proof cases
        case (compiled b)
        obtain a w4 where a: "applyOwnedObjects K r engine b w3 = (a, w4)" by fastforce
        obtain res s' w' where t: "reconcileStatus K (Some s) engine ruleset b w4 = Some (res, Some s', w')"
          "store_inv s'" "s' = s \<or> (\<exists>requeue. res = Inr requeue)"
          using reconcileStatus_total [OF assms(1), of K engine ruleset b w4] by blast
        show ?thesis
          using g engine h rs c compiled a t assms
          by (cases a) (auto simp: Engine_Reconcile_def Let_def)
      qed (use g engine h rs c assms in \<open>auto simp: Engine_Reconcile_def Let_def split: prod.splits\<close>)
    qed
  qed
qed

text \<open>The rollout conditions are idempotent at any later time as well.\<close>

lemma setRollout_again:
  assumes "meta_laws K"
  shows "setRolloutConditions K now' (setRolloutConditions K now conds gen ready desired) gen ready desired
    = setRolloutConditions K now conds gen ready desired"
proof (cases "ready = desired")
  case True
  then show ?thesis by (simp add: setRolloutConditions_def setReady_again assms)
next
  case False
  define reason where "reason = ''DeploymentRollingOut''"
  define msg where "msg = Itoa (sint ready) @ ''/'' @ Itoa (sint desired) @ '' replicas ready''"
  let ?set = "\<lambda>t cs. k_SetStatusCondition K t (k_SetStatusCondition K t (k_SetStatusCondition K t cs
    (mkCondition ConditionReady ConditionFalse reason msg gen)) (mkCondition ConditionProgressing ConditionTrue reason msg gen))
    (mkCondition ConditionDegraded ConditionFalse reason '''' gen)"
  have r: "setRolloutConditions K t cs gen ready desired = ?set t cs" for t cs
    using False by (simp add: setRolloutConditions_def reason_def msg_def Let_def)
  have "k_SetStatusCondition K now' (?set now conds) (mkCondition t st reason m gen) = ?set now conds"
    if "(t, st, m) \<in> {(ConditionReady, ConditionFalse, msg), (ConditionProgressing, ConditionTrue, msg),
          (ConditionDegraded, ConditionFalse, '''')}" for t st m
    using that by (intro set_unchanged [OF assms]) (auto simp: find_set assms)
  then show ?thesis by (simp add: r)
qed

lemma rolloutStatus_again:
  assumes "meta_laws K"
  shows "rolloutStatus K now' (rolloutStatus K now engine b ready) b ready = rolloutStatus K now engine b ready"
  using setRollout_again [OF assms] by (simp add: rolloutStatus_def engineReplicas_def)

text \<open>
  C15. A steady engine is left alone: when an earlier reconcile wrote the status of an engine, the sources still compile to
  the same bundle, the same number of replicas is ready and the store has the digest, then the next reconcile applies the
  owned objects and stops there: it writes no status, publishes nothing, and asks to be called again only during a rollout.
\<close>

theorem engine_reconcile_steady:
  assumes "meta_laws K" and "deep_equal_laws K" and "store_inv s" and "er_Store r = Some s"
    and "engine' = rolloutStatus K t engine b (dp_ReadyReplicas dep)"
    and "k_GetEngine K req w = (Inr engine', w1)"
    and "k_GetRuleSet K (en_Namespace engine', es_RuleSetRef (en_Spec engine')) w1 = (Inr ruleset, w2)"
    and "rst_CompiledHash (rs_Status ruleset) \<noteq> ''''"
    and "compileRuleSet K (en_Namespace engine') ruleset w2 = (Inr b, w3)"
    and "applyOwnedObjects K r engine' b w3 = (Inr (), w4)"
    and "k_GetDeployment K (en_Namespace engine', DeploymentName engine') w4 = (Inr dep, w5)"
    and "map_option b_SHA256 (Get s (engKey engine')) = Some (cb_SHA256 b)"
  shows "Engine_Reconcile K r req w =
    Some (Inr (if dp_ReadyReplicas dep = engineReplicas engine' then emptyResult else \<lparr>res_RequeueAfter = 5\<rparr>), Some s, w5)"
proof -
  have "patchEngineStatusIfChanged K engine' (rolloutStatus K (k_Now K w5) engine' b (dp_ReadyReplicas dep)) w5 = (Inr emptyResult, w5)"
    using assms(2) rolloutStatus_again [OF assms(1)]
    by (simp add: assms(5) patchEngineStatusIfChanged_def deep_equal_laws_def)
  moreover have "publishBundle (Some s) (en_Namespace engine') (en_Name engine') (rs_Name ruleset) b now = Some (Some s)" for now
    using assms(3,12) by (auto simp: publishBundle_def PublishIfChanged_eq isDuplicate_def Get_def engKey_def)
  ultimately show ?thesis
    using assms(4,6-11) by (simp add: Engine_Reconcile_def reconcileStatus_def)
qed

text \<open>
  The order of the owned objects matters and is kept: when the ServiceAccount cannot be applied, neither the
  ConfigMap, the Deployment nor the Service is attempted, and when the ConfigMap cannot be applied, the Deployment
  and the Service are not: the outcome and the world do not depend on what those calls would have done.
\<close>

theorem apply_order_stops:
  assumes "stampOwners K engine (buildDesired r engine b) = Inr d"
    and "k_CreateOrPatchServiceAccount K (existingSA (de_SA d)) (mutateSA (de_SA d)) w = (sa, w1)"
    and "k_CreateOrPatchConfigMap K (existingCM (de_CM d)) (mutateConfigMap (de_CM d)) w1 = (Inl e, w2)"
  shows "case sa of
      Inl e1 \<Rightarrow> \<exists>msg. \<forall>cm dep svc.
        applyOwnedObjects (K\<lparr>k_CreateOrPatchConfigMap := cm, k_CreateOrPatchDeployment := dep,
          k_CreateOrPatchService := svc\<rparr>) r engine b w = (Inl (msg @ errText e1), w1)
    | Inr _ \<Rightarrow> \<exists>msg. \<forall>dep svc.
        applyOwnedObjects (K\<lparr>k_CreateOrPatchDeployment := dep, k_CreateOrPatchService := svc\<rparr>) r engine b w
          = (Inl (msg @ errText e), w2)"
proof -
  have stamp: "stampOwners (K\<lparr>k_CreateOrPatchConfigMap := cm, k_CreateOrPatchDeployment := dep,
        k_CreateOrPatchService := svc\<rparr>) engine (buildDesired r engine b) = Inr d"
    "stampOwners (K\<lparr>k_CreateOrPatchDeployment := dep, k_CreateOrPatchService := svc\<rparr>) engine
        (buildDesired r engine b) = Inr d" for cm dep svc
    using assms(1)
    by (subst stampOwners_cong [of _ K], simp, simp)+
  let ?msg = "\<lambda>kind m. ''reconcile '' @ kind @ '' '' @ om_Namespace m @ ''/'' @ om_Name m @ '': ''"
  show ?thesis
  proof (cases sa)
    case (Inl e1)
    then show ?thesis
      using assms stamp
      by (auto intro!: exI [of _ "?msg ''ServiceAccount'' (nameOnly (sa_Meta (de_SA d)))"]
          simp: applyOwnedObjects_def ownedObjects_def applyOwnedObject_def)
  next
    case (Inr x)
    then show ?thesis
      using assms stamp
      by (auto intro!: exI [of _ "?msg ''ConfigMap'' (nameOnly (cm_Meta (de_CM d)))"]
          simp: applyOwnedObjects_def ownedObjects_def applyOwnedObject_def)
  qed
qed

text \<open>
  What the mutations keep: applied to any existing Deployment and Service, they keep the name, the namespace,
  the resource version, the observed replicas and the cluster IP; a Deployment that exists keeps its selector, a
  new one gets the selector that matches its pods; a second application changes nothing.
\<close>

theorem mutations_keep:
  assumes "mutateDeployment (de_Dep (buildDesired r engine b)) dep = Inr dep'"
    and "mutateService (de_Svc (buildDesired r engine b)) svc = Inr svc'"
  shows "metaKey (dp_Meta dep') = metaKey (dp_Meta dep) \<and> metaKey (sv_Meta svc') = metaKey (sv_Meta svc) \<and>
    om_ResourceVersion (dp_Meta dep') = om_ResourceVersion (dp_Meta dep) \<and>
    dp_ReadyReplicas dep' = dp_ReadyReplicas dep \<and> sv_ClusterIP svc' = sv_ClusterIP svc \<and>
    dp_Selector dep' =
      (if om_ResourceVersion (dp_Meta dep) = '''' then Some (pt_Labels (dp_Template dep'))
       else dp_Selector dep) \<and>
    sv_Selector svc' = pt_Labels (dp_Template dep') \<and>
    mutateDeployment (de_Dep (buildDesired r engine b)) dep' = Inr dep' \<and>
    mutateService (de_Svc (buildDesired r engine b)) svc' = Inr svc'"
  using assms
  by (auto simp: mutateDeployment_def mutateService_def buildDesired_def BuildDeployment_def BuildService_def
      metaKey_def)

text \<open>
  The rollout conditions are set together: \<open>Ready\<close> is true and \<open>Progressing\<close> false when the ready replicas are
  the desired ones, the other way round otherwise, \<open>Degraded\<close> is false in both cases, all three carry the
  generation that was reconciled, and conditions of other types are kept.
\<close>

theorem rollout_conditions_exclusive:
  assumes "meta_laws K"
  shows "(let cs = setRolloutConditions K now conds gen ready desired in
    (condStatus cs ConditionReady = Some ConditionTrue \<longleftrightarrow> ready = desired) \<and>
    (condStatus cs ConditionProgressing = Some ConditionTrue \<longleftrightarrow> ready \<noteq> desired) \<and>
    condStatus cs ConditionDegraded = Some ConditionFalse \<and>
    (\<forall>t \<in> {ConditionReady, ConditionProgressing, ConditionDegraded}. condGeneration cs t = Some gen) \<and>
    (\<forall>t. t \<notin> {ConditionReady, ConditionProgressing, ConditionDegraded} \<longrightarrow> condStatus cs t = condStatus conds t))"
  by (simp add: Let_def find_setRollout [OF assms])

text \<open>
  The watch on rule sets reaches the engines the publication serves: an event of a rule set enqueues exactly
  the keys of the listed engines to which \<open>publishToEngines\<close> would publish the set's bundle.
\<close>

theorem engine_watch_matches_publication:
  assumes "k_ListEngines K (Some (rs_Namespace rs)) w = (Inr items, w1)" and "store_inv s"
  shows "\<exists>s'. publishToEngines K (Some s) rs b w = Some (Some s', w1) \<and>
    (\<forall>ns n. (ns, n) \<in> set (fst (enqueueEnginesForRuleSet K (rs_Meta rs) w)) \<longrightarrow>
       map_option b_SHA256 (Get s' (mkKey ns n)) = Some (cb_SHA256 b)) \<and>
    (\<forall>ns n. (ns, n) \<notin> set (fst (enqueueEnginesForRuleSet K (rs_Meta rs) w)) \<longrightarrow>
       Get s' (mkKey ns n) = Get s (mkKey ns n))"
proof -
  let ?reqs = "set (fst (enqueueEnginesForRuleSet K (rs_Meta rs) w))"
  obtain s' where s': "publishItems (rs_Name rs) b (k_Now K w1) items s = Some s'" "store_inv s'"
    "\<And>e. e \<in> set items \<Longrightarrow> es_RuleSetRef (en_Spec e) = rs_Name rs \<Longrightarrow>
       map_option b_SHA256 (Get s' (engKey e)) = Some (cb_SHA256 b)"
    "\<And>k. k \<notin> engKey ` {e \<in> set items. es_RuleSetRef (en_Spec e) = rs_Name rs} \<Longrightarrow> Get s' k = Get s k"
    by (rule publishItems_spec [OF assms(2), of "rs_Name rs" b "k_Now K w1" items]) (rule that)
  have reqs: "(ns, n) \<in> ?reqs \<longleftrightarrow>
      mkKey ns n \<in> engKey ` {e \<in> set items. es_RuleSetRef (en_Spec e) = rs_Name rs}" for ns n
    using assms(1) by (auto simp: enqueueEnginesForRuleSet_def engKey_def image_iff)
  have "publishToEngines K (Some s) rs b w = Some (Some s', w1)"
    using assms(1) s'(1) by (simp add: publishToEngines_def)
  moreover have "map_option b_SHA256 (Get s' (mkKey ns n)) = Some (cb_SHA256 b)" if "(ns, n) \<in> ?reqs" for ns n
    using that s'(3) by (auto simp: reqs)
  moreover have "Get s' (mkKey ns n) = Get s (mkKey ns n)" if "(ns, n) \<notin> ?reqs" for ns n
    using that s'(4) by (simp add: reqs)
  ultimately show ?thesis by blast
qed

subsection \<open>Witnesses\<close>

definition readyRuleSet :: RuleSet where
  "readyRuleSet = demoRuleSet\<lparr>rs_Status := (rs_Status demoRuleSet)\<lparr>rst_CompiledHash := ''h''\<rparr>\<rparr>"

definition readyCluster :: demoWorld where
  "readyCluster = demoCluster\<lparr>dw_RuleSets := [readyRuleSet]\<rparr>"

definition demoReconciler :: EngineReconciler where
  "demoReconciler =
     \<lparr>er_Store = Some NewStore, er_OperatorGRPCAddr = ''operator:9443'', er_DefaultEngineImage = ''''\<rparr>"

lemma ready_objects:
  "k_GetEngine demoKube (''ns'', ''e'') readyCluster = (Inr demoEngine, readyCluster)"
  "k_GetRuleSet demoKube (en_Namespace demoEngine, es_RuleSetRef (en_Spec demoEngine)) readyCluster
     = (Inr readyRuleSet, readyCluster)"
  "rst_CompiledHash (rs_Status readyRuleSet) \<noteq> ''''"
  by (simp_all add: readyCluster_def demoCluster_def emptyWorld_def readyRuleSet_def demoRuleSet_def
      demoEngine_def demoMeta_def metaKey_def)

lemma sources_compile:
  obtains b where "\<And>w. dw_SecRules w = dw_SecRules readyCluster \<Longrightarrow>
    compileRuleSet demoKube (en_Namespace demoEngine) readyRuleSet w = (Inr b, w)"
proof -
  obtain b where b: "Compile demoSources = Inr b" by (rule demo_compiles)
  have "compileRefs demoKube (en_Namespace demoEngine) (rss_Sources (rs_Spec readyRuleSet)) [] w = (Inr demoSources, w)"
    if "dw_SecRules w = dw_SecRules readyCluster" for w
    using that by (simp add: readyCluster_def demoCluster_def emptyWorld_def readyRuleSet_def demoRuleSet_def
        demoEngine_def demoSecRules_def demoMeta_def metaKey_def demoSources_def)
  with b that show thesis by (simp add: compileRuleSet_def)
qed

lemma ready_compiles:
  obtains b where "compileRuleSet demoKube (en_Namespace demoEngine) readyRuleSet readyCluster
    = (Inr b, readyCluster)"
  using sources_compile by blast

lemma demoPatch_created:
  "mutate x = Inr y \<Longrightarrow> demoPatch meta [] x mutate = (Inr OpCreated, [y])"
  by (simp add: demoPatch_def putObj_def)

text \<open>On an empty cluster the four objects are created.\<close>

lemma apply_creates:
  assumes "stampOwners demoKube e (buildDesired r e b) = Inr d" and "en_Meta e = demoMeta ''ns'' ''e''"
    and "dw_ServiceAccounts c = []" "dw_ConfigMaps c = []" "dw_Deployments c = []" "dw_Services c = []"
  obtains w4 dep where "applyEach (ownedObjects demoKube d) c = (Inr (), w4)"
    "k_GetDeployment demoKube (''ns'', ''e'') w4 = (Inr dep, w4)" "dp_ReadyReplicas dep = 0"
proof -
  obtain sa cm dep svc where m: "mutateSA (de_SA d) (existingSA (de_SA d)) = Inr sa"
    "mutateConfigMap (de_CM d) (existingCM (de_CM d)) = Inr cm"
    "mutateDeployment (de_Dep d) (existingDep (de_Dep d)) = Inr dep"
    "mutateService (de_Svc d) (existingSvc (de_Svc d)) = Inr svc"
    by (simp add: mutateSA_def mutateConfigMap_def mutateDeployment_def mutateService_def)
  have a: "applyEach (ownedObjects demoKube d) c = (Inr (), c\<lparr>dw_ServiceAccounts := [sa],
      dw_ConfigMaps := [cm], dw_Deployments := [dep], dw_Services := [svc]\<rparr>)"
    by (simp add: ownedObjects_def applyOwnedObject_def demoKube_def demoPatch_created m assms)
  have "metaKey (dp_Meta dep) = (''ns'', ''e'')" "dp_ReadyReplicas dep = 0"
    using m(3) assms(1,2)
    by (auto simp: mutateDeployment_def existingDep_def nameOnly_def metaKey_def stampOwners_def demoKube_def
        demoOwner_def buildDesired_def BuildDeployment_def builtMeta_def DeploymentName_def demoMeta_def)
  with a show thesis by (intro that [OF a]) simp_all
qed

lemma demo_applies:
  assumes "stampOwners demoKube demoEngine (buildDesired r demoEngine b) = Inr d"
  obtains w4 dep where "applyEach (ownedObjects demoKube d) readyCluster = (Inr (), w4)"
    "k_GetDeployment demoKube (''ns'', ''e'') w4 = (Inr dep, w4)" "dp_ReadyReplicas dep = 0"
  by (rule apply_creates [OF assms, of readyCluster]; (rule that)?)
    (simp_all add: demoEngine_def readyCluster_def demoCluster_def emptyWorld_def)

lemma demo_patch_accepts:
  "\<exists>w'. patchEngineStatusIfChanged demoKube e e' w = (Inr emptyResult, w')"
  by (auto simp: patchEngineStatusIfChanged_def demoKube_def)

lemma demo_stamps: "\<exists>d. stampOwners demoKube e (buildDesired r e b) = Inr d"
  by (simp add: stampOwners_def demoKube_def demoOwner_def)

theorem engine_one_digest_witness:
  "\<exists>s' w' text. Engine_Reconcile demoKube demoReconciler (''ns'', ''e'') readyCluster
     = Some (Inr \<lparr>res_RequeueAfter = 5\<rparr>, Some s', w') \<and>
     map_option b_SHA256 (Get s' (mkKey ''ns'' ''e'')) = Some (sha256hex text)"
proof -
  obtain b where b: "compileRuleSet demoKube (en_Namespace demoEngine) readyRuleSet readyCluster
      = (Inr b, readyCluster)" by (rule ready_compiles)
  obtain d where d: "stampOwners demoKube demoEngine (buildDesired demoReconciler demoEngine b) = Inr d"
    using demo_stamps by blast
  obtain w4 dep where w4: "applyEach (ownedObjects demoKube d) readyCluster = (Inr (), w4)"
    "k_GetDeployment demoKube (''ns'', ''e'') w4 = (Inr dep, w4)" "dp_ReadyReplicas dep = 0"
    using d by (rule demo_applies)
  let ?e = "rolloutStatus demoKube (k_Now demoKube w4) demoEngine b (dp_ReadyReplicas dep)"
  obtain w6 where p: "patchEngineStatusIfChanged demoKube demoEngine ?e w4 = (Inr emptyResult, w6)"
    using demo_patch_accepts by blast
  have dep: "k_GetDeployment demoKube (en_Namespace demoEngine, DeploymentName demoEngine) w4 = (Inr dep, w4)"
    using w4(2) by (simp add: demo_cluster_objects DeploymentName_def del: demo_gets)
  have "dp_ReadyReplicas dep \<noteq> engineReplicas demoEngine"
    using w4(3) by (simp add: engineReplicas_def demoEngine_def)
  moreover have "er_Store demoReconciler = Some NewStore" by (simp add: demoReconciler_def)
  ultimately show ?thesis
    using engine_one_digest [OF store_inv_NewStore _ ready_objects(1,2,3) b d w4(1) dep refl p]
    by (auto simp: demo_cluster_objects)
qed

theorem engine_reconcile_steady_witness:
  "\<exists>b s w w5. Engine_Reconcile demoKube (demoReconciler\<lparr>er_Store := Some s\<rparr>) (''ns'', ''e'') w
       = Some (Inr \<lparr>res_RequeueAfter = 5\<rparr>, Some s, w5) \<and>
     compileRuleSet demoKube ''ns'' readyRuleSet w = (Inr b, w) \<and>
     Get s (mkKey ''ns'' ''e'') = Some (bundleOf ''r'' b 1)"
proof -
  obtain b where b: "\<And>w. dw_SecRules w = dw_SecRules readyCluster \<Longrightarrow>
      compileRuleSet demoKube (en_Namespace demoEngine) readyRuleSet w = (Inr b, w)" using sources_compile by blast
  define e where "e = rolloutStatus demoKube 5 demoEngine b 0"
  define c where "c = readyCluster\<lparr>dw_Engines := [e]\<rparr>"
  have e: "en_Meta e = demoMeta ''ns'' ''e''" "en_Spec e = en_Spec demoEngine"
    by (simp_all add: e_def rolloutStatus_def demoEngine_def)
  have empty: "dw_ServiceAccounts c = []" "dw_ConfigMaps c = []" "dw_Deployments c = []" "dw_Services c = []"
    by (simp_all add: c_def readyCluster_def demoCluster_def emptyWorld_def)
  let ?r = "demoReconciler\<lparr>er_Store := Some (delivered NewStore (engKey e) (bundleOf ''r'' b 1))\<rparr>"
  obtain d where d: "stampOwners demoKube e (buildDesired ?r e b) = Inr d" using demo_stamps by blast
  obtain w4 dep where w4: "applyEach (ownedObjects demoKube d) c = (Inr (), w4)"
    "k_GetDeployment demoKube (''ns'', ''e'') w4 = (Inr dep, w4)" "dp_ReadyReplicas dep = 0"
    using d e(1) empty by (rule apply_creates)
  have g: "k_GetEngine demoKube (''ns'', ''e'') c = (Inr e, c)"
    "k_GetRuleSet demoKube (en_Namespace e, es_RuleSetRef (en_Spec e)) c = (Inr readyRuleSet, c)"
    "k_GetDeployment demoKube (en_Namespace e, DeploymentName e) w4 = (Inr dep, w4)"
    using w4(2) by (simp_all add: c_def e readyCluster_def readyRuleSet_def demoRuleSet_def demoEngine_def demoMeta_def metaKey_def
        DeploymentName_def)
  have n: "compileRuleSet demoKube (en_Namespace e) readyRuleSet c = (Inr b, c)"
    using b [of c] e(1) by (simp add: c_def demoEngine_def)
  have a: "applyOwnedObjects demoKube ?r e b c = (Inr (), w4)" by (simp add: applyOwnedObjects_def d w4(1))
  have "Engine_Reconcile demoKube ?r (''ns'', ''e'') c = Some (Inr (if dp_ReadyReplicas dep = engineReplicas e then emptyResult
      else \<lparr>res_RequeueAfter = 5\<rparr>), Some (delivered NewStore (engKey e) (bundleOf ''r'' b 1)), w4)"
    by (rule engine_reconcile_steady [OF demo_meta_laws demo_deep_equal_laws delivered_inv [OF store_inv_NewStore] _ _
          g(1,2) ready_objects(3) n a g(3)]) (simp_all add: e_def w4(3) Get_def bundleOf_def)
  moreover have "engineReplicas e = 1" "engKey e = mkKey ''ns'' ''e''"
    by (simp_all add: engineReplicas_def e demoEngine_def engKey_def demoMeta_def)
  ultimately have "Engine_Reconcile demoKube ?r (''ns'', ''e'') c = Some (Inr \<lparr>res_RequeueAfter = 5\<rparr>,
      Some (delivered NewStore (engKey e) (bundleOf ''r'' b 1)), w4)"
    and "Get (delivered NewStore (engKey e) (bundleOf ''r'' b 1)) (mkKey ''ns'' ''e'') = Some (bundleOf ''r'' b 1)"
    by (simp_all add: w4(3) Get_def)
  moreover have "compileRuleSet demoKube ''ns'' readyRuleSet c = (Inr b, c)"
    using n e(1) by (simp add: demoMeta_def)
  ultimately show ?thesis by blast
qed

theorem engine_store_changes_last_witness:
  "\<exists>res s' w'. Engine_Reconcile demoKube demoReconciler (''ns'', ''e'') demoCluster
     = Some (res, Some s', w') \<and> s' = NewStore"
proof -
  have g: "k_GetEngine demoKube (''ns'', ''e'') demoCluster = (Inr demoEngine, demoCluster)"
    "k_GetRuleSet demoKube (en_Namespace demoEngine, es_RuleSetRef (en_Spec demoEngine)) demoCluster
       = (Inr demoRuleSet, demoCluster)"
    "rst_CompiledHash (rs_Status demoRuleSet) = ''''"
    using demo_cluster_objects by (simp_all add: demoRuleSet_def)
  have "er_Store demoReconciler = Some NewStore" by (simp add: demoReconciler_def)
  from engine_store_changes_last [OF store_inv_NewStore this, of demoKube "(''ns'', ''e'')" demoCluster] g
  show ?thesis by (auto simp del: demo_gets)
qed

definition brokenKube :: "demoWorld Kube" where
  "brokenKube = demoKube\<lparr>k_CreateOrPatchConfigMap := (\<lambda>x f w. (Inl (APIFailure ''quota''), w))\<rparr>"

theorem apply_order_stops_witness:
  "\<exists>b msg w'. \<forall>dep svc.
     applyOwnedObjects (brokenKube\<lparr>k_CreateOrPatchDeployment := dep, k_CreateOrPatchService := svc\<rparr>)
       demoReconciler demoEngine b readyCluster = (Inl (msg @ ''quota''), w')"
proof -
  obtain b where b: "compileRuleSet demoKube (en_Namespace demoEngine) readyRuleSet readyCluster
      = (Inr b, readyCluster)" by (rule ready_compiles)
  obtain d where "stampOwners demoKube demoEngine (buildDesired demoReconciler demoEngine b) = Inr d"
    using demo_stamps by blast
  then have d: "stampOwners brokenKube demoEngine (buildDesired demoReconciler demoEngine b) = Inr d"
    by (subst stampOwners_cong [of _ demoKube]) (simp_all add: brokenKube_def)
  obtain w1 where sa: "k_CreateOrPatchServiceAccount brokenKube (existingSA (de_SA d)) (mutateSA (de_SA d))
      readyCluster = (Inr OpCreated, w1)"
    by (simp add: brokenKube_def demoKube_def readyCluster_def demoCluster_def emptyWorld_def demoPatch_created
        mutateSA_def)
  have cm: "k_CreateOrPatchConfigMap brokenKube (existingCM (de_CM d)) (mutateConfigMap (de_CM d)) w1
      = (Inl (APIFailure ''quota''), w1)"
    by (simp add: brokenKube_def)
  from apply_order_stops [OF d sa cm] show ?thesis by auto
qed

theorem mutations_keep_witness:
  "\<exists>dep' b. mutateDeployment (de_Dep (buildDesired demoReconciler demoEngine b))
      (existingDep (BuildDeployment demoEngine '''' '''' '''')) = Inr dep' \<and>
    dp_Selector dep' = Some (pt_Labels (dp_Template dep'))"
proof -
  let ?b = "\<lparr>cb_Compiled = '''', cb_SHA256 = ''h'', cb_RuleCount = 0\<rparr>"
  obtain dep' where dep': "mutateDeployment (de_Dep (buildDesired demoReconciler demoEngine ?b))
      (existingDep (BuildDeployment demoEngine '''' '''' '''')) = Inr dep'"
    by (simp add: mutateDeployment_def)
  obtain svc' where svc': "mutateService (de_Svc (buildDesired demoReconciler demoEngine ?b))
      (existingSvc (BuildService demoEngine)) = Inr svc'"
    by (simp add: mutateService_def)
  from mutations_keep [OF dep' svc'] dep' show ?thesis
    by (auto simp: existingDep_def nameOnly_def)
qed

theorem rollout_conditions_exclusive_witness:
  "condStatus (setRolloutConditions demoKube 5 [] 1 0 2) ConditionProgressing = Some ConditionTrue \<and>
   condStatus (setRolloutConditions demoKube 5 [] 1 2 2) ConditionReady = Some ConditionTrue"
  using rollout_conditions_exclusive [OF demo_meta_laws, of 5 "[]" 1 0 2]
    rollout_conditions_exclusive [OF demo_meta_laws, of 5 "[]" 1 2 2]
  by (simp add: Let_def)

theorem engine_watch_matches_publication_witness:
  "\<exists>b s'. publishToEngines demoKube (Some NewStore) demoRuleSet b demoCluster = Some (Some s', demoCluster) \<and>
     map_option b_SHA256 (Get s' (mkKey ''ns'' ''e'')) = Some (cb_SHA256 b)"
proof -
  let ?b = "\<lparr>cb_Compiled = '''', cb_SHA256 = ''h'', cb_RuleCount = 0\<rparr>"
  have l: "k_ListEngines demoKube (Some (rs_Namespace demoRuleSet)) demoCluster = (Inr [demoEngine], demoCluster)"
    by (simp add: demoKube_def demoCluster_def demo_cluster_objects)
  have "(''ns'', ''e'') \<in> set (fst (enqueueEnginesForRuleSet demoKube (rs_Meta demoRuleSet) demoCluster))"
    using l by (simp add: enqueueEnginesForRuleSet_def demo_cluster_objects)
  with engine_watch_matches_publication [OF l store_inv_NewStore, of ?b] show ?thesis by blast
qed

end
