(* ===== verification/Watches.thy ===== *)
theory Watches
  imports Engine_Controller
begin

text \<open>
  What wakes the controllers: \<open>SetupWithManager\<close> of the four files of \<open>internal/controller\<close>. A builder is the
  record of what the code declares: the kind it reconciles, the kinds it owns, its watches with their mapping
  functions, and the predicates. How controller-runtime turns a builder and an event into requests is a parameter,
  \<open>Runtime\<close>, with its documented behaviour in \<open>predicate_laws\<close>, \<open>builder_laws\<close> and \<open>owner_laws\<close>. The lemmas say
  which events reach which objects: an edit of a rule source, a status write, a change of an owned object.
\<close>

subsection \<open>Events, predicates and builders\<close>

datatype Kind = KSecRules | KClusterSecRules | KRuleSet | KEngine | KDeployment | KService | KConfigMap | KServiceAccount

datatype Event = CreateEvent ObjectMeta | UpdateEvent ObjectMeta ObjectMeta | DeleteEvent ObjectMeta
  | GenericEvent ObjectMeta

fun objectsOf :: "Event \<Rightarrow> ObjectMeta list" where
  "objectsOf (CreateEvent m) = [m]"
| "objectsOf (UpdateEvent m m') = [m, m']"
| "objectsOf (DeleteEvent m) = [m]"
| "objectsOf (GenericEvent m) = [m]"

datatype Predicate = GenerationChangedPredicate | AnnotationChangedPredicate | Or "Predicate list"

type_synonym 'w mapFunc = "ObjectMeta \<Rightarrow> 'w \<Rightarrow> NamespacedName list \<times> 'w"

record 'w Watch =
  wt_Kind :: Kind
  wt_MapFunc :: "'w mapFunc"
  wt_Predicates :: "Predicate list"

record 'w Builder =
  bd_For :: Kind
  bd_ForPredicates :: "Predicate list"
  bd_EventFilter :: "Predicate list"
  bd_Owns :: "Kind list"
  bd_Watches :: "'w Watch list"
  bd_Named :: string

subsection \<open>SetupWithManager\<close>

definition SecRules_SetupWithManager :: "'w Builder" where
  "SecRules_SetupWithManager =
     \<lparr>bd_For = KSecRules, bd_ForPredicates = [], bd_EventFilter = [GenerationChangedPredicate], bd_Owns = [],
      bd_Watches = [], bd_Named = ''secrules''\<rparr>"

definition ClusterSecRules_SetupWithManager :: "'w Builder" where
  "ClusterSecRules_SetupWithManager =
     \<lparr>bd_For = KClusterSecRules, bd_ForPredicates = [], bd_EventFilter = [GenerationChangedPredicate], bd_Owns = [],
      bd_Watches = [], bd_Named = ''clustersecrules''\<rparr>"

definition sourcePredicate :: Predicate where
  "sourcePredicate = Or [GenerationChangedPredicate, AnnotationChangedPredicate]"

definition RuleSet_SetupWithManager :: "'w Kube \<Rightarrow> 'w Builder" where
  "RuleSet_SetupWithManager K =
     \<lparr>bd_For = KRuleSet, bd_ForPredicates = [], bd_EventFilter = [GenerationChangedPredicate], bd_Owns = [],
      bd_Watches =
        [\<lparr>wt_Kind = KSecRules, wt_MapFunc = enqueueRuleSetsForSecRules K, wt_Predicates = [sourcePredicate]\<rparr>,
         \<lparr>wt_Kind = KClusterSecRules, wt_MapFunc = enqueueRuleSetsForClusterSecRules K,
          wt_Predicates = [sourcePredicate]\<rparr>],
      bd_Named = ''ruleset''\<rparr>"

definition Engine_SetupWithManager :: "'w Kube \<Rightarrow> 'w Builder" where
  "Engine_SetupWithManager K =
     \<lparr>bd_For = KEngine, bd_ForPredicates = [Or [GenerationChangedPredicate, AnnotationChangedPredicate]],
      bd_EventFilter = [], bd_Owns = [KDeployment, KService, KConfigMap, KServiceAccount],
      bd_Watches = [\<lparr>wt_Kind = KRuleSet, wt_MapFunc = enqueueEnginesForRuleSet K, wt_Predicates = []\<rparr>],
      bd_Named = ''engine''\<rparr>"

subsection \<open>The runtime\<close>

record 'w Runtime =
  rt_Passes :: "Predicate \<Rightarrow> Event \<Rightarrow> bool"
  rt_ControllerOf :: "ObjectMeta \<Rightarrow> NamespacedName option"  \<comment> \<open>the engine of the controller reference\<close>
  rt_Requests :: "'w Builder \<Rightarrow> Kind \<Rightarrow> Event \<Rightarrow> 'w \<Rightarrow> NamespacedName set"

text \<open>
  The two predicates filter updates only, by a difference of the generation or of the annotations; \<open>Or\<close> is
  disjunction.
\<close>

definition predicate_laws :: "'w Runtime \<Rightarrow> bool" where
  "predicate_laws rt \<longleftrightarrow>
     (\<forall>p m. p \<in> {GenerationChangedPredicate, AnnotationChangedPredicate} \<longrightarrow>
        rt_Passes rt p (CreateEvent m) \<and> rt_Passes rt p (DeleteEvent m) \<and> rt_Passes rt p (GenericEvent m)) \<and>
     (\<forall>m m'. rt_Passes rt GenerationChangedPredicate (UpdateEvent m m') \<longleftrightarrow> om_Generation m' \<noteq> om_Generation m) \<and>
     (\<forall>m m'. rt_Passes rt AnnotationChangedPredicate (UpdateEvent m m') \<longleftrightarrow> om_Annotations m' \<noteq> om_Annotations m) \<and>
     (\<forall>ps ev. rt_Passes rt (Or ps) ev \<longleftrightarrow> list_ex (\<lambda>p. rt_Passes rt p ev) ps)"

text \<open>The mapping function is called on each object of the event in turn.\<close>

fun mapEach :: "'w mapFunc \<Rightarrow> ObjectMeta list \<Rightarrow> 'w \<Rightarrow> NamespacedName list" where
  "mapEach f [] w = []"
| "mapEach f (m # ms) w = (case f m w of (reqs, w1) \<Rightarrow> reqs @ mapEach f ms w1)"

definition passesAll :: "'w Runtime \<Rightarrow> Predicate list \<Rightarrow> Event \<Rightarrow> bool" where
  "passesAll rt ps ev \<longleftrightarrow> list_all (\<lambda>p. rt_Passes rt p ev) ps"

text \<open>
  The filters of \<open>WithEventFilter\<close> apply to every source of the controller, before the predicates of the source:
  an event has to pass both.
\<close>

definition builtRequests :: "'w Runtime \<Rightarrow> 'w Builder \<Rightarrow> Kind \<Rightarrow> Event \<Rightarrow> 'w \<Rightarrow> NamespacedName set" where
  "builtRequests rt b k ev w =
     (if k = bd_For b \<and> passesAll rt (bd_EventFilter b @ bd_ForPredicates b) ev
      then set (map (\<lambda>m. (om_Namespace m, om_Name m)) (objectsOf ev)) else {}) \<union>
     (if k \<in> set (bd_Owns b) \<and> passesAll rt (bd_EventFilter b) ev
      then \<Union> (set (map (set_option \<circ> rt_ControllerOf rt) (objectsOf ev))) else {}) \<union>
     \<Union> (set (map
       (\<lambda>wt. if wt_Kind wt = k \<and> passesAll rt (bd_EventFilter b @ wt_Predicates wt) ev
             then set (mapEach (wt_MapFunc wt) (objectsOf ev) w) else {}) (bd_Watches b)))"

definition builder_laws :: "'w Runtime \<Rightarrow> bool" where
  "builder_laws rt \<longleftrightarrow> (\<forall>b k ev w. rt_Requests rt b k ev w = builtRequests rt b k ev w)"

text \<open>The controller reference the code sets is the one the owner handler reads, in the namespace of the object.\<close>

definition owner_laws :: "'w Kube \<Rightarrow> 'w Runtime \<Rightarrow> bool" where
  "owner_laws K rt \<longleftrightarrow>
     (\<forall>e m m'. k_SetControllerReference K e m = Inr m' \<longrightarrow>
        rt_ControllerOf rt m' = Some (om_Namespace m, en_Name e))"

lemmas setup_defs = SecRules_SetupWithManager_def ClusterSecRules_SetupWithManager_def
  RuleSet_SetupWithManager_def Engine_SetupWithManager_def sourcePredicate_def

lemma passesAll_simps [simp]:
  "passesAll rt [] ev" "passesAll rt (p # ps) ev \<longleftrightarrow> rt_Passes rt p ev \<and> passesAll rt ps ev"
  by (simp_all add: passesAll_def)

lemma passes_update:
  assumes "predicate_laws rt"
  shows "rt_Passes rt GenerationChangedPredicate (UpdateEvent m m') \<longleftrightarrow> om_Generation m' \<noteq> om_Generation m"
    "rt_Passes rt AnnotationChangedPredicate (UpdateEvent m m') \<longleftrightarrow> om_Annotations m' \<noteq> om_Annotations m"
    "rt_Passes rt (Or ps) ev \<longleftrightarrow> list_ex (\<lambda>p. rt_Passes rt p ev) ps"
  using assms by (simp_all add: predicate_laws_def)

subsection \<open>Lemmas\<close>

text \<open>An event of the object \<open>key\<close>; whether it passes the generation predicate.\<close>

definition eventOf :: "NamespacedName \<Rightarrow> Event \<Rightarrow> bool" where
  "eventOf key ev \<longleftrightarrow> list_all (\<lambda>m. (om_Namespace m, om_Name m) = key) (objectsOf ev)"

fun specEvent :: "Event \<Rightarrow> bool" where
  "specEvent (UpdateEvent m m') \<longleftrightarrow> om_Generation m' \<noteq> om_Generation m"
| "specEvent (CreateEvent m) \<longleftrightarrow> True"
| "specEvent (DeleteEvent m) \<longleftrightarrow> True"
| "specEvent (GenericEvent m) \<longleftrightarrow> True"

lemma passes_generation: "predicate_laws rt \<Longrightarrow> rt_Passes rt GenerationChangedPredicate ev \<longleftrightarrow> specEvent ev"
  by (cases ev) (simp_all add: predicate_laws_def)

lemma passes_source: "predicate_laws rt \<Longrightarrow> specEvent ev \<Longrightarrow> rt_Passes rt sourcePredicate ev"
  by (simp add: sourcePredicate_def passes_update(3) passes_generation)

text \<open>A mapping function that reads a cache gives the same requests for both objects of an update.\<close>

lemma mapEach_same:
  assumes "\<And>m. m \<in> set (objectsOf ev) \<Longrightarrow> f m w = (reqs, w)"
  shows "set (mapEach f (objectsOf ev) w) = set reqs"
  using assms by (cases ev) simp_all

lemma objectsOf_eventOf: "eventOf (ns, n) ev \<Longrightarrow> m \<in> set (objectsOf ev) \<Longrightarrow> om_Namespace m = ns \<and> om_Name m = n"
  by (auto simp: eventOf_def list_all_iff)

lemma requests_of_object:
  "eventOf key ev \<Longrightarrow> set (map (\<lambda>m. (om_Namespace m, om_Name m)) (objectsOf ev)) = {key}"
  by (cases ev) (auto simp: eventOf_def)

lemma enqueue_reads:
  assumes "list_laws K" and "om_Namespace m = ns" and "om_Name m = n"
  shows "k_ListRuleSets K (Some ns) w = (Inr items, w) \<Longrightarrow> enqueueRuleSetsForSecRules K m w =
      (map requestFor (filter (\<lambda>rs. readsSecRules rs (ns, n)) items), w)"
    and "k_ListRuleSets K None w = (Inr citems, w) \<Longrightarrow> enqueueRuleSetsForClusterSecRules K m w =
      (map requestFor (filter (\<lambda>rs. readsClusterSecRules rs n) citems), w)"
proof -
  assume l: "k_ListRuleSets K (Some ns) w = (Inr items, w)"
  have "filter (refersSecRules n) items = filter (\<lambda>rs. readsSecRules rs (ns, n)) items"
    using assms(1) l
    by (intro filter_cong) (auto simp: list_laws_def refersSecRules_def readsSecRules_def list_ex_iff)
  with l assms(2,3) show "enqueueRuleSetsForSecRules K m w =
      (map requestFor (filter (\<lambda>rs. readsSecRules rs (ns, n)) items), w)"
    by (simp add: enqueueRuleSetsForSecRules_def)
next
  assume l: "k_ListRuleSets K None w = (Inr citems, w)"
  have "filter (refersClusterSecRules n) citems = filter (\<lambda>rs. readsClusterSecRules rs n) citems"
    by (intro filter_cong) (auto simp: refersClusterSecRules_def readsClusterSecRules_def list_ex_iff)
  with l assms(3) show "enqueueRuleSetsForClusterSecRules K m w =
      (map requestFor (filter (\<lambda>rs. readsClusterSecRules rs n) citems), w)"
    by (simp add: enqueueRuleSetsForClusterSecRules_def)
qed

text \<open>The requests of an event of \<open>ns/n\<close>, once the cache can be listed.\<close>

lemma mapped_readers:
  assumes "list_laws K" and "eventOf (ns, n) ev"
  shows "k_ListRuleSets K (Some ns) w = (Inr items, w) \<Longrightarrow>
      set (mapEach (enqueueRuleSetsForSecRules K) (objectsOf ev) w) =
        requestFor ` {rs \<in> set items. readsSecRules rs (ns, n)}"
    and "k_ListRuleSets K None w = (Inr citems, w) \<Longrightarrow>
      set (mapEach (enqueueRuleSetsForClusterSecRules K) (objectsOf ev) w) =
        requestFor ` {rs \<in> set citems. readsClusterSecRules rs n}"
proof -
  assume l: "k_ListRuleSets K (Some ns) w = (Inr items, w)"
  have "set (mapEach (enqueueRuleSetsForSecRules K) (objectsOf ev) w) =
      set (map requestFor (filter (\<lambda>rs. readsSecRules rs (ns, n)) items))"
    using enqueue_reads(1) [OF assms(1) _ _ l] objectsOf_eventOf [OF assms(2)] by (intro mapEach_same) blast
  then show "set (mapEach (enqueueRuleSetsForSecRules K) (objectsOf ev) w) =
      requestFor ` {rs \<in> set items. readsSecRules rs (ns, n)}" by simp
next
  assume l: "k_ListRuleSets K None w = (Inr citems, w)"
  have "set (mapEach (enqueueRuleSetsForClusterSecRules K) (objectsOf ev) w) =
      set (map requestFor (filter (\<lambda>rs. readsClusterSecRules rs n) citems))"
    using enqueue_reads(2) [OF assms(1) _ _ l] objectsOf_eventOf [OF assms(2)] by (intro mapEach_same) blast
  then show "set (mapEach (enqueueRuleSetsForClusterSecRules K) (objectsOf ev) w) =
      requestFor ` {rs \<in> set citems. readsClusterSecRules rs n}" by simp
qed

lemma mapped_users:
  assumes "eventOf (ns, n) ev" and "k_ListEngines K (Some ns) w = (Inr items, w)"
  shows "set (mapEach (enqueueEnginesForRuleSet K) (objectsOf ev) w) =
    (\<lambda>e. (en_Namespace e, en_Name e)) ` {e \<in> set items. es_RuleSetRef (en_Spec e) = n}"
proof -
  have "enqueueEnginesForRuleSet K x w =
      (map (\<lambda>e. (en_Namespace e, en_Name e)) (filter (\<lambda>e. es_RuleSetRef (en_Spec e) = n) items), w)"
    if "x \<in> set (objectsOf ev)" for x
    using objectsOf_eventOf [OF assms(1) that] assms(2) by (simp add: enqueueEnginesForRuleSet_def)
  from mapEach_same [where f = "enqueueEnginesForRuleSet K", OF this] show ?thesis by simp
qed

text \<open>Every source of the rule set controller is behind the generation filter.\<close>

lemma ruleset_requests:
  assumes "predicate_laws rt" and "builder_laws rt"
  shows "rt_Requests rt (RuleSet_SetupWithManager K) k ev w =
    (if \<not> specEvent ev then {}
     else if k = KRuleSet then set (map (\<lambda>m. (om_Namespace m, om_Name m)) (objectsOf ev))
     else if k = KSecRules then set (mapEach (enqueueRuleSetsForSecRules K) (objectsOf ev) w)
     else if k = KClusterSecRules then set (mapEach (enqueueRuleSetsForClusterSecRules K) (objectsOf ev) w)
     else {})"
  using assms passes_source [OF assms(1)]
  by (simp add: builder_laws_def builtRequests_def RuleSet_SetupWithManager_def passes_generation)

lemma source_requests:
  assumes "predicate_laws rt" and "builder_laws rt"
  shows "rt_Requests rt SecRules_SetupWithManager k ev w =
      (if specEvent ev \<and> k = KSecRules then set (map (\<lambda>m. (om_Namespace m, om_Name m)) (objectsOf ev)) else {})"
    and "rt_Requests rt ClusterSecRules_SetupWithManager k ev w =
      (if specEvent ev \<and> k = KClusterSecRules then set (map (\<lambda>m. (om_Namespace m, om_Name m)) (objectsOf ev)) else {})"
  using assms
  by (simp_all add: builder_laws_def builtRequests_def SecRules_SetupWithManager_def
      ClusterSecRules_SetupWithManager_def passes_generation)

lemma engine_requests_ruleset:
  assumes "builder_laws rt"
  shows "rt_Requests rt (Engine_SetupWithManager K) KRuleSet ev w =
    set (mapEach (enqueueEnginesForRuleSet K) (objectsOf ev) w)"
  using assms by (simp add: builder_laws_def builtRequests_def Engine_SetupWithManager_def)

lemma engine_requests_owned:
  assumes "builder_laws rt" and "k \<in> {KDeployment, KService, KConfigMap, KServiceAccount}"
  shows "rt_Requests rt (Engine_SetupWithManager K) k ev w =
    \<Union> (set (map (set_option \<circ> rt_ControllerOf rt) (objectsOf ev)))"
  using assms by (auto simp: builder_laws_def builtRequests_def Engine_SetupWithManager_def)

subsection \<open>Properties\<close>

text \<open>
  C16. An edit of a rule source wakes its rule sets, and nothing else about the source does: an event of a
  \<open>SecRules\<close> object enqueues exactly the rule sets that read the object when it is a creation, a deletion or an
  update with a new generation, and the same holds for \<open>ClusterSecRules\<close>. An update that changes only annotations
  or the status enqueues nothing, although the predicate of the two watches also names annotation changes: the
  filter of the controller applies first.
\<close>

theorem source_edit_wakes_rulesets:
  assumes "predicate_laws rt" and "builder_laws rt" and "list_laws K" and "eventOf (ns, n) ev"
    and "k_ListRuleSets K (Some ns) w = (Inr items, w)" and "k_ListRuleSets K None w = (Inr citems, w)"
  shows "rt_Requests rt (RuleSet_SetupWithManager K) KSecRules ev w =
      (if specEvent ev then requestFor ` {rs \<in> set items. readsSecRules rs (ns, n)} else {}) \<and>
    rt_Requests rt (RuleSet_SetupWithManager K) KClusterSecRules ev w =
      (if specEvent ev then requestFor ` {rs \<in> set citems. readsClusterSecRules rs n} else {})"
  unfolding ruleset_requests [OF assms(1,2)] mapped_readers(1) [OF assms(3,4,5)] mapped_readers(2) [OF assms(3,4,6)]
  by simp

text \<open>
  C17. Status writes do not wake their own controller, but they do wake the engines: an update that keeps generation
  and annotations enqueues nothing for the three rule controllers and nothing for the engine it is an update of;
  the same update of a rule set, whose status the rule set controller has just written, enqueues exactly the engines
  of its namespace that use the set.
\<close>

theorem status_write_wakes_engines_only:
  assumes "predicate_laws rt" and "builder_laws rt"
    and "om_Generation m' = om_Generation m" and "om_Annotations m' = om_Annotations m"
    and "eventOf (ns, n) (UpdateEvent m m')" and "k_ListEngines K (Some ns) w = (Inr items, w)"
  shows "rt_Requests rt SecRules_SetupWithManager k (UpdateEvent m m') w = {} \<and>
    rt_Requests rt ClusterSecRules_SetupWithManager k (UpdateEvent m m') w = {} \<and>
    rt_Requests rt (RuleSet_SetupWithManager K) k (UpdateEvent m m') w = {} \<and>
    rt_Requests rt (Engine_SetupWithManager K) KEngine (UpdateEvent m m') w = {} \<and>
    rt_Requests rt (Engine_SetupWithManager K) KRuleSet (UpdateEvent m m') w =
      (\<lambda>e. (en_Namespace e, en_Name e)) ` {e \<in> set items. es_RuleSetRef (en_Spec e) = n}"
proof -
  have "rt_Requests rt (Engine_SetupWithManager K) KEngine (UpdateEvent m m') w = {}"
    using assms(1-4) passes_update [OF assms(1)]
    by (simp add: builder_laws_def builtRequests_def Engine_SetupWithManager_def)
  moreover have "rt_Requests rt (Engine_SetupWithManager K) KRuleSet (UpdateEvent m m') w =
      (\<lambda>e. (en_Namespace e, en_Name e)) ` {e \<in> set items. es_RuleSetRef (en_Spec e) = n}"
    unfolding engine_requests_ruleset [OF assms(2)] by (rule mapped_users [OF assms(5,6)])
  ultimately show ?thesis
    using assms(3) by (simp add: source_requests [OF assms(1,2)] ruleset_requests [OF assms(1,2)])
qed

text \<open>
  Drift is repaired: any event of a Deployment, Service, ConfigMap or ServiceAccount that carries the controller
  reference of an engine enqueues that engine and no other.
\<close>

theorem owned_object_wakes_its_engine:
  assumes "builder_laws rt" and "owner_laws K rt" and "k_SetControllerReference K e m = Inr m'"
    and "k \<in> {KDeployment, KService, KConfigMap, KServiceAccount}" and "set (objectsOf ev) = {m'}"
  shows "rt_Requests rt (Engine_SetupWithManager K) k ev w = {(om_Namespace m, en_Name e)}"
  using assms(2,3,5) by (auto simp: engine_requests_owned [OF assms(1,4)] owner_laws_def)

subsection \<open>Witnesses\<close>

fun demoPasses :: "Predicate \<Rightarrow> Event \<Rightarrow> bool" where
  "demoPasses GenerationChangedPredicate (UpdateEvent m m') \<longleftrightarrow> om_Generation m' \<noteq> om_Generation m"
| "demoPasses AnnotationChangedPredicate (UpdateEvent m m') \<longleftrightarrow> om_Annotations m' \<noteq> om_Annotations m"
| "demoPasses (Or ps) ev \<longleftrightarrow> list_ex (\<lambda>p. demoPasses p ev) ps"
| "demoPasses _ ev \<longleftrightarrow> True"

definition demoControllerOf :: "ObjectMeta \<Rightarrow> NamespacedName option" where
  "demoControllerOf m = (case om_OwnerReferences m of [] \<Rightarrow> None | n # _ \<Rightarrow> Some (om_Namespace m, n))"

definition demoRuntime :: "demoWorld Runtime" where
  "demoRuntime =
     (let rt = \<lparr>rt_Passes = demoPasses, rt_ControllerOf = demoControllerOf, rt_Requests = (\<lambda>b k ev w. {})\<rparr>
      in rt\<lparr>rt_Requests := builtRequests rt\<rparr>)"

lemma demo_runtime_laws: "predicate_laws demoRuntime" "builder_laws demoRuntime" "owner_laws demoKube demoRuntime"
  by (auto simp: predicate_laws_def builder_laws_def builtRequests_def passesAll_def owner_laws_def demoRuntime_def
      demoControllerOf_def demoKube_def demoOwner_def Let_def list_all_def)

lemma demo_lists:
  "k_ListRuleSets demoKube (Some ''ns'') demoCluster = (Inr [demoRuleSet], demoCluster)"
  "k_ListRuleSets demoKube None demoCluster = (Inr [demoRuleSet], demoCluster)"
  "k_ListEngines demoKube (Some ''ns'') demoCluster = (Inr [demoEngine], demoCluster)"
  by (simp_all add: demoKube_def demoCluster_def demo_cluster_objects)

theorem source_edit_wakes_rulesets_witness:
  "rt_Requests demoRuntime (RuleSet_SetupWithManager demoKube) KSecRules
     (UpdateEvent (demoMeta ''ns'' ''a'') ((demoMeta ''ns'' ''a'')\<lparr>om_Generation := 2\<rparr>)) demoCluster = {(''ns'', ''r'')} \<and>
   rt_Requests demoRuntime (RuleSet_SetupWithManager demoKube) KSecRules
     (UpdateEvent (demoMeta ''ns'' ''a'') ((demoMeta ''ns'' ''a'')\<lparr>om_Annotations := [''hint'' \<mapsto> ''h'']\<rparr>)) demoCluster = {}"
proof -
  have "eventOf (''ns'', ''a'') (UpdateEvent (demoMeta ''ns'' ''a'') ((demoMeta ''ns'' ''a'')\<lparr>om_Generation := 2\<rparr>))"
    "eventOf (''ns'', ''a'')
       (UpdateEvent (demoMeta ''ns'' ''a'') ((demoMeta ''ns'' ''a'')\<lparr>om_Annotations := [''hint'' \<mapsto> ''h'']\<rparr>))"
    by (simp_all add: eventOf_def demoMeta_def)
  note edits = this [THEN source_edit_wakes_rulesets [OF demo_runtime_laws(1,2) demo_list_laws _ demo_lists(1,2)]]
  moreover have "{rs \<in> set [demoRuleSet]. readsSecRules rs (''ns'', ''a'')} = {demoRuleSet}"
    by (auto simp: readsSecRules_def demoRuleSet_def demoMeta_def)
  ultimately show ?thesis
    by (simp add: demoMeta_def requestFor_def demo_cluster_objects)
qed

theorem status_write_wakes_engines_only_witness:
  "rt_Requests demoRuntime (RuleSet_SetupWithManager demoKube) KRuleSet
     (UpdateEvent (rs_Meta demoRuleSet) ((rs_Meta demoRuleSet)\<lparr>om_ResourceVersion := ''2''\<rparr>)) demoCluster = {} \<and>
   rt_Requests demoRuntime (Engine_SetupWithManager demoKube) KRuleSet
     (UpdateEvent (rs_Meta demoRuleSet) ((rs_Meta demoRuleSet)\<lparr>om_ResourceVersion := ''2''\<rparr>)) demoCluster = {(''ns'', ''e'')}"
proof -
  have "eventOf (''ns'', ''r'')
      (UpdateEvent (rs_Meta demoRuleSet) ((rs_Meta demoRuleSet)\<lparr>om_ResourceVersion := ''2''\<rparr>))"
    by (simp add: eventOf_def demo_cluster_objects)
  moreover have "{e \<in> set [demoEngine]. es_RuleSetRef (en_Spec e) = ''r''} = {demoEngine}"
    by (auto simp: demo_cluster_objects)
  ultimately show ?thesis
    using status_write_wakes_engines_only [OF demo_runtime_laws(1,2) _ _ _ demo_lists(3)]
    by (simp add: demo_cluster_objects)
qed

end
