(* ===== verification/Pki.thy ===== *)
theory Pki
  imports Kube
begin

text \<open>
  The operator's certificate authority, \<open>internal/pki/ca.go\<close>. Key generation, X.509 and PEM coding and the random
  source are fields of the record \<open>Crypto\<close>; a certificate is the record of the template fields the code sets
  together with the key it certifies and the key that signed it. The documented behaviour the properties rely on is
  the predicate \<open>crypto_laws\<close>. The common name of a client certificate is the identity of an engine: the locale
  \<open>identity_codec\<close> states what the issuing and the checking side agree on. Times are in seconds.
\<close>

subsection \<open>Certificates and the parameters\<close>

datatype KeyUsage = DigitalSignature | KeyEncipherment | CertSign | CRLSign
datatype ExtKeyUsage = ServerAuth | ClientAuth

record CertTemplate =
  x_SerialNumber :: int
  x_CommonName :: string
  x_DNSNames :: "string list"
  x_IPAddresses :: "string list"
  x_NotBefore :: time
  x_NotAfter :: time
  x_IsCA :: bool
  x_KeyUsage :: "KeyUsage list"
  x_ExtKeyUsage :: "ExtKeyUsage list"
  x_BasicConstraintsValid :: bool

text \<open>A parsed certificate: what the template said, the certified key and the key of the signer.\<close>

record 'pub Certificate =
  crt_Template :: CertTemplate
  crt_PublicKey :: 'pub
  crt_SignerKey :: 'pub

text \<open>A parent may be the template itself, when a certificate is self-signed.\<close>

datatype 'pub Parent = SelfSigned | Issuer "'pub Certificate"

record ('w, 'key, 'pub) Crypto =
  cr_Now :: "'w \<Rightarrow> time"
  cr_GenerateKey :: "'w \<Rightarrow> 'key result \<times> 'w"
  cr_Public :: "'key \<Rightarrow> 'pub"
  cr_RandInt :: "int \<Rightarrow> 'w \<Rightarrow> int result \<times> 'w"
  cr_CreateCertificate :: "CertTemplate \<Rightarrow> 'pub Parent \<Rightarrow> 'pub \<Rightarrow> 'key \<Rightarrow> 'w \<Rightarrow> string result \<times> 'w"
  cr_ParseCertificate :: "string \<Rightarrow> 'pub Certificate result"
  cr_MarshalECPrivateKey :: "'key \<Rightarrow> string result"
  cr_ParseECPrivateKey :: "string \<Rightarrow> 'key result"
  cr_EncodePEM :: "string \<Rightarrow> string \<Rightarrow> string"  \<comment> \<open>block type, bytes\<close>
  cr_DecodePEM :: "string \<Rightarrow> (string \<times> string) option"
  cr_X509KeyPair :: "string \<Rightarrow> string \<Rightarrow> string result"
  cr_AppendCertsFromPEM :: "string \<Rightarrow> 'pub Certificate list option"

text \<open>
  A created certificate parses back to its template with the two keys; an encoded private key and a PEM block
  decode to what was encoded; an encoded block is not empty; a serial number is drawn from the given range.
\<close>

definition crypto_laws :: "('w, 'key, 'pub) Crypto \<Rightarrow> bool" where
  "crypto_laws C \<longleftrightarrow>
     (\<forall>tmpl parent pub key w der w'. cr_CreateCertificate C tmpl parent pub key w = (Inr der, w') \<longrightarrow>
        cr_ParseCertificate C der =
          Inr \<lparr>crt_Template = tmpl, crt_PublicKey = pub, crt_SignerKey = cr_Public C key\<rparr>) \<and>
     (\<forall>key der. cr_MarshalECPrivateKey C key = Inr der \<longrightarrow> cr_ParseECPrivateKey C der = Inr key) \<and>
     (\<forall>t bytes. cr_DecodePEM C (cr_EncodePEM C t bytes) = Some (t, bytes) \<and> cr_EncodePEM C t bytes \<noteq> '''') \<and>
     (\<forall>n w i w'. cr_RandInt C n w = (Inr i, w') \<longrightarrow> 0 \<le> i \<and> i < n)"

record Secret =
  se_Meta :: ObjectMeta
  se_Type :: string
  se_Data :: "string \<rightharpoonup> string"

record 'w SecretClient =
  sc_Get :: "NamespacedName \<Rightarrow> ('w, Secret) call"
  sc_Create :: "Secret \<Rightarrow> ('w, unit) call"

definition pemTypeCertificate :: string where "pemTypeCertificate = ''CERTIFICATE''"
definition pemTypeECPrivateKey :: string where "pemTypeECPrivateKey = ''EC PRIVATE KEY''"

text \<open>\<open>corev1.TLSCertKey\<close>, \<open>corev1.TLSPrivateKeyKey\<close> and \<open>corev1.SecretTypeTLS\<close>.\<close>

definition TLSCertKey :: string where "TLSCertKey = ''tls.crt''"
definition TLSPrivateKeyKey :: string where "TLSPrivateKeyKey = ''tls.key''"
definition SecretTypeTLS :: string where "SecretTypeTLS = ''kubernetes.io/tls''"

record ('key, 'pub) CertAuthority =
  ca_Cert :: "'pub Certificate"
  ca_Key :: 'key
  ca_CertPEM :: string
  ca_KeyPEM :: string

subsection \<open>Helpers\<close>

definition newSerial :: "('w, 'key, 'pub) Crypto \<Rightarrow> 'w \<Rightarrow> int result \<times> 'w" where
  "newSerial C w =
     (case cr_RandInt C (2 ^ 128) w of
        (Inl err, w1) \<Rightarrow> (Inl (''generate serial number: '' @ err), w1)
      | (Inr serial, w1) \<Rightarrow> (Inr serial, w1))"

definition marshalPrivKey :: "('w, 'key, 'pub) Crypto \<Rightarrow> 'key \<Rightarrow> string result" where
  "marshalPrivKey C priv =
     (case cr_MarshalECPrivateKey C priv of
        Inl err \<Rightarrow> Inl (''marshal private key: '' @ err)
      | Inr der \<Rightarrow> Inr (cr_EncodePEM C pemTypeECPrivateKey der))"

definition signCert ::
  "('w, 'key, 'pub) Crypto \<Rightarrow> CertTemplate \<Rightarrow> 'pub \<Rightarrow> 'pub Certificate \<Rightarrow> 'key \<Rightarrow> 'w \<Rightarrow> string result \<times> 'w" where
  "signCert C tmpl pub signerCert signerKey w =
     (case cr_CreateCertificate C tmpl (Issuer signerCert) pub signerKey w of
        (Inl err, w1) \<Rightarrow> (Inl (''create certificate: '' @ err), w1)
      | (Inr certDER, w1) \<Rightarrow> (Inr (cr_EncodePEM C pemTypeCertificate certDER), w1))"

definition loadFromSecret ::
  "('w, 'key, 'pub) Crypto \<Rightarrow> Secret \<Rightarrow> ('key, 'pub) CertAuthority result" where
  "loadFromSecret C secret =
     (let certPEM = (case se_Data secret TLSCertKey of None \<Rightarrow> '''' | Some d \<Rightarrow> d);
          keyPEM = (case se_Data secret TLSPrivateKeyKey of None \<Rightarrow> '''' | Some d \<Rightarrow> d);
          at = om_Namespace (se_Meta secret) @ ''/'' @ om_Name (se_Meta secret)
      in if length certPEM = 0 \<or> length keyPEM = 0
         then Inl (''CA secret '' @ at @ '' is missing tls.crt or tls.key'')
         else
           (case cr_DecodePEM C certPEM of
              None \<Rightarrow> Inl (''CA secret '' @ at @ '': tls.crt is not valid PEM'')
            | Some (_, certDER) \<Rightarrow>
                (case cr_ParseCertificate C certDER of
                   Inl err \<Rightarrow> Inl (''parse CA cert from secret '' @ at @ '': '' @ err)
                 | Inr cert \<Rightarrow>
                     (case cr_DecodePEM C keyPEM of
                        None \<Rightarrow> Inl (''CA secret '' @ at @ '': tls.key is not valid PEM'')
                      | Some (_, keyDER) \<Rightarrow>
                          (case cr_ParseECPrivateKey C keyDER of
                             Inl err \<Rightarrow> Inl (''parse CA key from secret '' @ at @ '': '' @ err)
                           | Inr priv \<Rightarrow>
                               Inr \<lparr>ca_Cert = cert, ca_Key = priv, ca_CertPEM = certPEM,
                                    ca_KeyPEM = keyPEM\<rparr>)))))"

definition caTemplate :: "time \<Rightarrow> int \<Rightarrow> CertTemplate" where
  "caTemplate now serial =
     \<lparr>x_SerialNumber = serial, x_CommonName = ''coraza-operator-ca'', x_DNSNames = [], x_IPAddresses = [],
      x_NotBefore = now - 10, x_NotAfter = now + 10 * 365 * 24 * 3600, x_IsCA = True,
      x_KeyUsage = [CertSign, CRLSign], x_ExtKeyUsage = [], x_BasicConstraintsValid = True\<rparr>"

definition generateCA ::
  "('w, 'key, 'pub) Crypto \<Rightarrow> 'w \<Rightarrow> ('key, 'pub) CertAuthority result \<times> 'w" where
  "generateCA C w =
     (case cr_GenerateKey C w of
        (Inl err, w1) \<Rightarrow> (Inl (''generate CA key: '' @ err), w1)
      | (Inr priv, w1) \<Rightarrow>
     (case newSerial C w1 of
        (Inl err, w2) \<Rightarrow> (Inl err, w2)
      | (Inr serial, w2) \<Rightarrow>
     (case cr_CreateCertificate C (caTemplate (cr_Now C w2) serial) SelfSigned (cr_Public C priv) priv w2 of
        (Inl err, w3) \<Rightarrow> (Inl (''self-sign CA: '' @ err), w3)
      | (Inr certDER, w3) \<Rightarrow>
     (case cr_ParseCertificate C certDER of
        Inl err \<Rightarrow> (Inl (''parse CA cert: '' @ err), w3)
      | Inr cert \<Rightarrow>
     (case cr_MarshalECPrivateKey C priv of
        Inl err \<Rightarrow> (Inl (''marshal CA key: '' @ err), w3)
      | Inr keyDER \<Rightarrow>
          (Inr \<lparr>ca_Cert = cert, ca_Key = priv, ca_CertPEM = cr_EncodePEM C pemTypeCertificate certDER,
                ca_KeyPEM = cr_EncodePEM C pemTypeECPrivateKey keyDER\<rparr>, w3))))))"

definition caSecret :: "string \<Rightarrow> string \<Rightarrow> ('key, 'pub) CertAuthority \<Rightarrow> Secret" where
  "caSecret namespace secretName ca =
     \<lparr>se_Meta = \<lparr>om_Name = secretName, om_Namespace = namespace, om_Generation = 0, om_ResourceVersion = '''',
        om_Labels = Map.empty, om_Annotations = Map.empty, om_OwnerReferences = []\<rparr>,
      se_Type = SecretTypeTLS,
      se_Data = [TLSCertKey \<mapsto> ca_CertPEM ca, TLSPrivateKeyKey \<mapsto> ca_KeyPEM ca]\<rparr>"

definition LoadOrCreate ::
  "('w, 'key, 'pub) Crypto \<Rightarrow> 'w SecretClient \<Rightarrow> string \<Rightarrow> string \<Rightarrow> 'w
    \<Rightarrow> ('key, 'pub) CertAuthority result \<times> 'w" where
  "LoadOrCreate C c namespace secretName w =
     (case sc_Get c (namespace, secretName) w of
        (Inr secret, w1) \<Rightarrow> (loadFromSecret C secret, w1)
      | (Inl err, w1) \<Rightarrow>
          if \<not> IsNotFound err
          then (Inl (''get CA secret '' @ namespace @ ''/'' @ secretName @ '': '' @ errText err), w1)
          else
            (case generateCA C w1 of
               (Inl err, w2) \<Rightarrow> (Inl (''generate CA: '' @ err), w2)
             | (Inr ca, w2) \<Rightarrow>
                 (case sc_Create c (caSecret namespace secretName ca) w2 of
                    (Inl err, w3) \<Rightarrow>
                      (Inl (''create CA secret '' @ namespace @ ''/'' @ secretName @ '': '' @ errText err), w3)
                  | (Inr _, w3) \<Rightarrow> (Inr ca, w3))))"

subsection \<open>Issuing\<close>

definition serverTemplate :: "time \<Rightarrow> int \<Rightarrow> string list \<Rightarrow> string list \<Rightarrow> CertTemplate" where
  "serverTemplate now serial dnsSANs ipSANs =
     \<lparr>x_SerialNumber = serial, x_CommonName = ''coraza-operator-grpc'', x_DNSNames = dnsSANs,
      x_IPAddresses = ipSANs, x_NotBefore = now - 10, x_NotAfter = now + 365 * 24 * 3600, x_IsCA = False,
      x_KeyUsage = [DigitalSignature, KeyEncipherment], x_ExtKeyUsage = [ServerAuth],
      x_BasicConstraintsValid = False\<rparr>"

definition IssueServerCert ::
  "('w, 'key, 'pub) Crypto \<Rightarrow> ('key, 'pub) CertAuthority \<Rightarrow> string list \<Rightarrow> string list \<Rightarrow> 'w
    \<Rightarrow> (string \<times> string) result \<times> 'w" where
  "IssueServerCert C ca dnsSANs ipSANs w =
     (case cr_GenerateKey C w of
        (Inl err, w1) \<Rightarrow> (Inl (''generate server key: '' @ err), w1)
      | (Inr priv, w1) \<Rightarrow>
     (case newSerial C w1 of
        (Inl err, w2) \<Rightarrow> (Inl err, w2)
      | (Inr serial, w2) \<Rightarrow>
     (case signCert C (serverTemplate (cr_Now C w2) serial dnsSANs ipSANs) (cr_Public C priv) (ca_Cert ca)
             (ca_Key ca) w2 of
        (Inl err, w3) \<Rightarrow> (Inl err, w3)
      | (Inr certPEM, w3) \<Rightarrow>
     (case marshalPrivKey C priv of
        Inl err \<Rightarrow> (Inl err, w3)
      | Inr keyPEM \<Rightarrow> (Inr (certPEM, keyPEM), w3)))))"

definition clientCN :: "string \<Rightarrow> string \<Rightarrow> string" where
  "clientCN engineNS engineName = engineNS @ ''/'' @ engineName"

definition clientTemplate :: "time \<Rightarrow> int \<Rightarrow> string \<Rightarrow> string \<Rightarrow> CertTemplate" where
  "clientTemplate now serial engineNS engineName =
     \<lparr>x_SerialNumber = serial, x_CommonName = clientCN engineNS engineName, x_DNSNames = [],
      x_IPAddresses = [], x_NotBefore = now - 10, x_NotAfter = now + 90 * 24 * 3600, x_IsCA = False,
      x_KeyUsage = [DigitalSignature], x_ExtKeyUsage = [ClientAuth], x_BasicConstraintsValid = False\<rparr>"

definition IssueClientCert ::
  "('w, 'key, 'pub) Crypto \<Rightarrow> ('key, 'pub) CertAuthority \<Rightarrow> string \<Rightarrow> string \<Rightarrow> 'w
    \<Rightarrow> (string \<times> string) result \<times> 'w" where
  "IssueClientCert C ca engineNS engineName w =
     (case cr_GenerateKey C w of
        (Inl err, w1) \<Rightarrow> (Inl (''generate client key: '' @ err), w1)
      | (Inr priv, w1) \<Rightarrow>
     (case newSerial C w1 of
        (Inl err, w2) \<Rightarrow> (Inl err, w2)
      | (Inr serial, w2) \<Rightarrow>
     (case signCert C (clientTemplate (cr_Now C w2) serial engineNS engineName) (cr_Public C priv) (ca_Cert ca)
             (ca_Key ca) w2 of
        (Inl err, w3) \<Rightarrow> (Inl err, w3)
      | (Inr certPEM, w3) \<Rightarrow>
     (case marshalPrivKey C priv of
        Inl err \<Rightarrow> (Inl err, w3)
      | Inr keyPEM \<Rightarrow> (Inr (certPEM, keyPEM), w3)))))"

text \<open>\<open>x509.CertificateRequest\<close>: the claimed name, which the code ignores, and the public key.\<close>

record 'pub CertificateRequest =
  cq_CommonName :: string
  cq_PublicKey :: 'pub

definition IssueClientCertFromCSR ::
  "('w, 'key, 'pub) Crypto \<Rightarrow> ('key, 'pub) CertAuthority \<Rightarrow> 'pub CertificateRequest \<Rightarrow> string \<Rightarrow> string \<Rightarrow> 'w
    \<Rightarrow> string result \<times> 'w" where
  "IssueClientCertFromCSR C ca csr engineNS engineName w =
     (case newSerial C w of
        (Inl err, w1) \<Rightarrow> (Inl err, w1)
      | (Inr serial, w1) \<Rightarrow>
          (case cr_CreateCertificate C (clientTemplate (cr_Now C w1) serial engineNS engineName)
                  (Issuer (ca_Cert ca)) (cq_PublicKey csr) (ca_Key ca) w1 of
             (Inl err, w2) \<Rightarrow> (Inl (''sign client cert from CSR: '' @ err), w2)
           | (Inr certDER, w2) \<Rightarrow> (Inr (cr_EncodePEM C pemTypeCertificate certDER), w2)))"

datatype ClientAuthType = NoClientCert | VerifyClientCertIfGiven | RequireAndVerifyClientCert
datatype TLSVersion = VersionTLS12 | VersionTLS13

record 'pub TLSConfig =
  tc_Certificates :: "string list"
  tc_ClientCAs :: "'pub Certificate list"
  tc_ClientAuth :: ClientAuthType
  tc_MinVersion :: TLSVersion

definition BuildTLSConfig ::
  "('w, 'key, 'pub) Crypto \<Rightarrow> ('key, 'pub) CertAuthority \<Rightarrow> string \<Rightarrow> string \<Rightarrow> 'pub TLSConfig result" where
  "BuildTLSConfig C ca serverCertPEM serverKeyPEM =
     (case cr_X509KeyPair C serverCertPEM serverKeyPEM of
        Inl err \<Rightarrow> Inl (''parse server key pair: '' @ err)
      | Inr serverCert \<Rightarrow>
          (case cr_AppendCertsFromPEM C (ca_CertPEM ca) of
             None \<Rightarrow> Inl ''append CA cert to pool: no PEM block found''
           | Some pool \<Rightarrow>
               Inr \<lparr>tc_Certificates = [serverCert], tc_ClientCAs = pool,
                    tc_ClientAuth = VerifyClientCertIfGiven, tc_MinVersion = VersionTLS13\<rparr>))"

definition ParseClientCN :: "string \<Rightarrow> (string \<times> string) result" where
  "ParseClientCN cn =
     (let parts = splitN2 slash cn in
      if length parts \<noteq> 2 \<or> parts ! 0 = '''' \<or> parts ! 1 = ''''
      then Inl (''invalid client cert CN '' @ Quote cn @ '': expected <namespace>/<name>'')
      else Inr (parts ! 0, parts ! 1))"

subsection \<open>The identity of an engine\<close>

text \<open>
  What the issuer and the checker of a client name rely on: an encoded identity is recovered, and a name is
  accepted only as the encoding of the identity it is decoded to.
\<close>

locale identity_codec =
  fixes enc :: "'a \<Rightarrow> 'b \<Rightarrow> string" and dec :: "string \<Rightarrow> ('a \<times> 'b) result"
    and valid :: "'a \<Rightarrow> 'b \<Rightarrow> bool"
  assumes dec_enc: "valid a b \<Longrightarrow> dec (enc a b) = Inr (a, b)"
    and dec_sound: "dec s = Inr (a, b) \<Longrightarrow> s = enc a b \<and> valid a b"
begin

lemma dec_iff: "dec s = Inr (a, b) \<longleftrightarrow> s = enc a b \<and> valid a b"
  using dec_enc dec_sound by blast

lemma enc_inj: "valid a b \<Longrightarrow> valid a' b' \<Longrightarrow> enc a b = enc a' b' \<longleftrightarrow> a = a' \<and> b = b'"
  by (metis dec_enc Inr_inject prod.inject)

text \<open>A name issued for one valid identity is accepted for that identity and no other.\<close>

lemma issued_name_unique: "valid a b \<Longrightarrow> dec (enc a b) = Inr (a', b') \<longleftrightarrow> a' = a \<and> b' = b"
  by (auto simp: dec_enc)

end

definition validIdentity :: "string \<Rightarrow> string \<Rightarrow> bool" where
  "validIdentity ns name \<longleftrightarrow> ns \<noteq> '''' \<and> name \<noteq> '''' \<and> slash \<notin> set ns"

lemma splitN2_length: "length (splitN2 c s) = 2 \<or> splitN2 c s = [s]"
  by simp

lemma ParseClientCN_iff:
  "ParseClientCN cn = Inr (ns, name) \<longleftrightarrow> cn = clientCN ns name \<and> validIdentity ns name"
proof -
  have "ParseClientCN cn = Inr (ns, name) \<longleftrightarrow> splitN2 slash cn = [ns, name] \<and> ns \<noteq> '''' \<and> name \<noteq> ''''"
    using splitN2_length [of slash cn]
    by (auto simp: ParseClientCN_def Let_def length_Suc_conv numeral_2_eq_2 simp del: splitN2.simps)
  then show ?thesis
    by (auto simp: splitN2_join clientCN_def validIdentity_def slash_def simp del: splitN2.simps)
qed

interpretation client_identity: identity_codec clientCN ParseClientCN validIdentity
  by unfold_locales (simp_all add: ParseClientCN_iff)

subsection \<open>What is issued\<close>

lemma newSerial_range:
  "crypto_laws C \<Longrightarrow> newSerial C w = (Inr i, w') \<Longrightarrow> 0 \<le> i \<and> i < 2 ^ 128"
  unfolding crypto_laws_def by (fastforce simp: newSerial_def split: prod.splits sum.splits)

lemma parse_created:
  "crypto_laws C \<Longrightarrow> cr_CreateCertificate C tmpl parent pub key w = (Inr der, w') \<Longrightarrow>
   cr_ParseCertificate C der = Inr \<lparr>crt_Template = tmpl, crt_PublicKey = pub, crt_SignerKey = cr_Public C key\<rparr>"
  unfolding crypto_laws_def by blast

lemma pem_roundtrip [simp]:
  "crypto_laws C \<Longrightarrow> cr_DecodePEM C (cr_EncodePEM C t bytes) = Some (t, bytes)"
  "crypto_laws C \<Longrightarrow> cr_EncodePEM C t bytes \<noteq> ''''"
  by (simp_all add: crypto_laws_def)

text \<open>The certificate a PEM text holds.\<close>

definition certOf :: "('w, 'key, 'pub) Crypto \<Rightarrow> string \<Rightarrow> 'pub Certificate option" where
  "certOf C certPEM =
     (case cr_DecodePEM C certPEM of
        Some (t, der) \<Rightarrow>
          (case cr_ParseCertificate C der of Inr c \<Rightarrow> Some c | Inl _ \<Rightarrow> None)
      | None \<Rightarrow> None)"

lemma generateCA_Inr:
  assumes "crypto_laws C" and "generateCA C w = (Inr ca, w')"
  obtains now serial where "certOf C (ca_CertPEM ca) = Some (ca_Cert ca)" "0 \<le> serial" "serial < 2 ^ 128"
    "ca_Cert ca = \<lparr>crt_Template = caTemplate now serial, crt_PublicKey = cr_Public C (ca_Key ca),
       crt_SignerKey = cr_Public C (ca_Key ca)\<rparr>"
    "loadFromSecret C (caSecret ns name ca) = Inr ca"
proof -
  note gen = assms(2) [unfolded generateCA_def]
  from gen obtain priv w1 where "cr_GenerateKey C w = (Inr priv, w1)"
    by (cases "cr_GenerateKey C w" rule: result_pair_cases) simp_all
  note gen = gen [unfolded this prod.case sum.case]
  from gen obtain serial w2 where s: "newSerial C w1 = (Inr serial, w2)"
    by (cases "newSerial C w1" rule: result_pair_cases) simp_all
  note gen = gen [unfolded this prod.case sum.case]
  let ?create = "cr_CreateCertificate C (caTemplate (cr_Now C w2) serial) SelfSigned (cr_Public C priv) priv w2"
  from gen obtain certDER w3 where c: "?create = (Inr certDER, w3)"
    by (cases ?create rule: result_pair_cases) simp_all
  note gen = gen [unfolded this prod.case sum.case]
  from gen obtain cert where p: "cr_ParseCertificate C certDER = Inr cert"
    by (cases "cr_ParseCertificate C certDER") simp_all
  note gen = gen [unfolded this prod.case sum.case]
  from gen obtain keyDER where m: "cr_MarshalECPrivateKey C priv = Inr keyDER" and
    ca: "ca = \<lparr>ca_Cert = cert, ca_Key = priv, ca_CertPEM = cr_EncodePEM C pemTypeCertificate certDER,
      ca_KeyPEM = cr_EncodePEM C pemTypeECPrivateKey keyDER\<rparr>"
    by (cases "cr_MarshalECPrivateKey C priv") simp_all
  have k: "cr_ParseECPrivateKey C keyDER = Inr priv"
    using assms(1) m unfolding crypto_laws_def by blast
  show thesis
  proof
    show "certOf C (ca_CertPEM ca) = Some (ca_Cert ca)"
      using assms(1) p by (simp add: certOf_def ca)
    show "0 \<le> serial" "serial < 2 ^ 128" using newSerial_range [OF assms(1) s] by simp_all
    show "ca_Cert ca = \<lparr>crt_Template = caTemplate (cr_Now C w2) serial,
        crt_PublicKey = cr_Public C (ca_Key ca), crt_SignerKey = cr_Public C (ca_Key ca)\<rparr>"
      using parse_created [OF assms(1) c] p by (simp add: ca)
    show "loadFromSecret C (caSecret ns name ca) = Inr ca"
      using assms(1) p k
      by (simp add: loadFromSecret_def caSecret_def Let_def ca TLSCertKey_def TLSPrivateKeyKey_def)
  qed
qed

lemma IssueClientCertFromCSR_Inr:
  assumes "crypto_laws C" and "IssueClientCertFromCSR C ca csr ns name w = (Inr certPEM, w')"
  obtains now serial where "certOf C certPEM = Some \<lparr>crt_Template = clientTemplate now serial ns name,
      crt_PublicKey = cq_PublicKey csr, crt_SignerKey = cr_Public C (ca_Key ca)\<rparr>"
    "0 \<le> serial" "serial < 2 ^ 128"
proof -
  from assms(2) obtain serial w1 der where s: "newSerial C w = (Inr serial, w1)" and
    c: "cr_CreateCertificate C (clientTemplate (cr_Now C w1) serial ns name) (Issuer (ca_Cert ca))
      (cq_PublicKey csr) (ca_Key ca) w1 = (Inr der, w')" and
    pem: "certPEM = cr_EncodePEM C pemTypeCertificate der"
    by (auto simp: IssueClientCertFromCSR_def split: prod.splits sum.splits)
  show thesis
    using newSerial_range [OF assms(1) s] assms(1) parse_created [OF assms(1) c]
    by (intro that [of "cr_Now C w1" serial]) (simp_all add: certOf_def pem)
qed

lemma issued_not_after:
  assumes "crypto_laws C" and "IssueClientCertFromCSR C ca csr ns name w = (Inr certPEM, w')"
    and clock: "\<And>tmpl parent pub key w. cr_Now C w \<le> cr_Now C (snd (cr_CreateCertificate C tmpl parent pub key w))"
  shows "\<exists>c. certOf C certPEM = Some c \<and> x_NotAfter (crt_Template c) \<le> cr_Now C w' + 90 * 24 * 3600"
proof -
  from assms(2) obtain serial w1 der where
    c: "cr_CreateCertificate C (clientTemplate (cr_Now C w1) serial ns name) (Issuer (ca_Cert ca))
      (cq_PublicKey csr) (ca_Key ca) w1 = (Inr der, w')" and
    pem: "certPEM = cr_EncodePEM C pemTypeCertificate der"
    by (auto simp: IssueClientCertFromCSR_def split: prod.splits sum.splits)
  have "cr_Now C w1 \<le> cr_Now C w'" using clock c by (metis snd_conv)
  moreover have "certOf C certPEM = Some \<lparr>crt_Template = clientTemplate (cr_Now C w1) serial ns name,
      crt_PublicKey = cq_PublicKey csr, crt_SignerKey = cr_Public C (ca_Key ca)\<rparr>"
    using assms(1) parse_created [OF assms(1) c] by (simp add: certOf_def pem)
  ultimately show ?thesis by (simp add: clientTemplate_def)
qed

subsection \<open>An instance\<close>

text \<open>
  Symbolic cryptography on which the laws hold: keys are texts, serials are always 7, it is always second 1000, and
  the signer issues two certificates, the authority's and the one of engine \<open>ns/e\<close> for the key \<open>p\<close>.
\<close>

fun demoDecode :: "string \<Rightarrow> (string \<times> string) option" where
  "demoDecode [] = None"
| "demoDecode [c] = (if c = CHR ''.'' then Some ([], []) else None)"
| "demoDecode (x # y # s) =
     (if x = CHR ''.'' then Some ([], y # s)
      else (case demoDecode s of None \<Rightarrow> None | Some (t, b) \<Rightarrow> Some (y # t, b)))"

definition demoEncode :: "string \<Rightarrow> string \<Rightarrow> string" where
  "demoEncode t b = concat (map (\<lambda>c. [CHR ''+'', c]) t) @ CHR ''.'' # b"

lemma demoDecode_Encode: "demoDecode (demoEncode t b) = Some (t, b)"
proof (induction t)
  case Nil
  show ?case by (cases b) (simp_all add: demoEncode_def)
next
  case (Cons c t)
  then show ?case by (simp add: demoEncode_def)
qed

lemma demoEncode_nonempty: "demoEncode t b \<noteq> []"
  by (simp add: demoEncode_def)

definition demoCACert :: "string Certificate" where
  "demoCACert = \<lparr>crt_Template = caTemplate 1000 7, crt_PublicKey = ''pub-k'', crt_SignerKey = ''pub-k''\<rparr>"

definition demoLeaf :: "string Certificate" where
  "demoLeaf = \<lparr>crt_Template = clientTemplate 1000 7 ''ns'' ''e'', crt_PublicKey = ''p'', crt_SignerKey = ''pub-k''\<rparr>"

definition demoCrypto :: "('w, string, string) Crypto" where
  "demoCrypto =
     \<lparr>cr_Now = (\<lambda>w. 1000), cr_GenerateKey = (\<lambda>w. (Inr ''k'', w)), cr_Public = (\<lambda>k. ''pub-'' @ k),
      cr_RandInt = (\<lambda>n w. (if 7 < n then Inr 7 else Inl ''range'', w)),
      cr_CreateCertificate = (\<lambda>tmpl parent pub key w.
        (let c = \<lparr>crt_Template = tmpl, crt_PublicKey = pub, crt_SignerKey = ''pub-'' @ key\<rparr> in
         if c = demoCACert then Inr ''CA'' else if c = demoLeaf then Inr ''LEAF'' else Inl ''refused'', w)),
      cr_ParseCertificate = (\<lambda>der.
        if der = ''CA'' then Inr demoCACert else if der = ''LEAF'' then Inr demoLeaf else Inl ''asn1''),
      cr_MarshalECPrivateKey = Inr, cr_ParseECPrivateKey = Inr,
      cr_EncodePEM = demoEncode, cr_DecodePEM = demoDecode,
      cr_X509KeyPair = (\<lambda>c k. Inr c), cr_AppendCertsFromPEM = (\<lambda>p. Some [demoCACert])\<rparr>"

lemma demo_certs_distinct: "demoLeaf \<noteq> demoCACert"
  by (simp add: demoLeaf_def demoCACert_def)

lemma demo_crypto_laws: "crypto_laws demoCrypto"
  using demo_certs_distinct
  by (auto simp: crypto_laws_def demoCrypto_def Let_def demoDecode_Encode demoEncode_nonempty split: if_splits)

definition demoCA :: "(string, string) CertAuthority" where
  "demoCA = \<lparr>ca_Cert = demoCACert, ca_Key = ''k'', ca_CertPEM = demoEncode pemTypeCertificate ''CA'',
     ca_KeyPEM = demoEncode pemTypeECPrivateKey ''k''\<rparr>"

lemma demo_generateCA: "generateCA demoCrypto w = (Inr demoCA, w)"
  by (simp add: generateCA_def newSerial_def demoCrypto_def demoCA_def Let_def demoCACert_def)

lemma demo_issues:
  "IssueClientCertFromCSR demoCrypto demoCA \<lparr>cq_CommonName = ''evil/other'', cq_PublicKey = ''p''\<rparr> ''ns'' ''e'' w
     = (Inr (demoEncode pemTypeCertificate ''LEAF''), w)"
  using demo_certs_distinct
  by (simp add: IssueClientCertFromCSR_def newSerial_def demoCrypto_def demoCA_def Let_def demoLeaf_def)

subsection \<open>Properties\<close>

text \<open>
  The name of a client certificate identifies one engine: a name parses to a namespace and a name exactly when
  it is their encoding, both are non-empty and the namespace has no slash. In particular a name issued for such an
  engine parses back to it, and two such engines never share a name.
\<close>

theorem parse_client_cn_exact:
  "ParseClientCN cn = Inr (ns, name) \<longleftrightarrow>
     cn = clientCN ns name \<and> ns \<noteq> '''' \<and> name \<noteq> '''' \<and> slash \<notin> set ns"
  by (simp add: client_identity.dec_iff validIdentity_def)

text \<open>
  C38. The authority survives a restart: when \<open>LoadOrCreate\<close> had to create the authority, a later \<open>LoadOrCreate\<close>
  that reads the Secret which was written returns the same authority and creates nothing; it is self-signed
  and its certificate is the one in its PEM text.
\<close>

theorem load_or_create_stable:
  assumes "crypto_laws C" and "sc_Get c (ns, name) w = (Inl (NotFound t), w1)"
    and "LoadOrCreate C c ns name w = (Inr ca, w2)"
    and "sc_Get c (ns, name) v = (Inr (caSecret ns name ca), v1)"
  shows "LoadOrCreate C c ns name v = (Inr ca, v1) \<and> certOf C (ca_CertPEM ca) = Some (ca_Cert ca) \<and>
    crt_SignerKey (ca_Cert ca) = cr_Public C (ca_Key ca) \<and> x_IsCA (crt_Template (ca_Cert ca))"
proof -
  obtain w3 where g: "generateCA C w1 = (Inr ca, w3)"
    using assms(2,3) by (auto simp: LoadOrCreate_def split: prod.splits sum.splits)
  obtain now serial where *: "certOf C (ca_CertPEM ca) = Some (ca_Cert ca)"
    "ca_Cert ca = \<lparr>crt_Template = caTemplate now serial, crt_PublicKey = cr_Public C (ca_Key ca),
       crt_SignerKey = cr_Public C (ca_Key ca)\<rparr>"
    "loadFromSecret C (caSecret ns name ca) = Inr ca"
    using assms(1) g by (rule generateCA_Inr)
  have "crt_SignerKey (ca_Cert ca) = cr_Public C (ca_Key ca)" "x_IsCA (crt_Template (ca_Cert ca))"
    using *(2) by (simp_all add: caTemplate_def)
  with * assms(4) show ?thesis by (simp add: LoadOrCreate_def)
qed

definition demoSecrets :: "Secret option SecretClient" where
  "demoSecrets =
     \<lparr>sc_Get = (\<lambda>k w. (case w of None \<Rightarrow> Inl (NotFound ''no secret'') | Some s \<Rightarrow> Inr s, w)),
      sc_Create = (\<lambda>s w. (Inr (), Some s))\<rparr>"

theorem load_or_create_stable_witness:
  "LoadOrCreate demoCrypto demoSecrets ''sys'' ''ca'' None = (Inr demoCA, Some (caSecret ''sys'' ''ca'' demoCA)) \<and>
   LoadOrCreate demoCrypto demoSecrets ''sys'' ''ca'' (Some (caSecret ''sys'' ''ca'' demoCA))
     = (Inr demoCA, Some (caSecret ''sys'' ''ca'' demoCA))"
proof -
  let ?s = "Some (caSecret ''sys'' ''ca'' demoCA)"
  have g: "sc_Get demoSecrets (''sys'', ''ca'') None = (Inl (NotFound ''no secret''), None)"
    "sc_Get demoSecrets (''sys'', ''ca'') ?s = (Inr (caSecret ''sys'' ''ca'' demoCA), ?s)"
    by (simp_all add: demoSecrets_def)
  have l: "LoadOrCreate demoCrypto demoSecrets ''sys'' ''ca'' None = (Inr demoCA, ?s)"
    by (simp add: LoadOrCreate_def g demo_generateCA) (simp add: demoSecrets_def)
  from load_or_create_stable [OF demo_crypto_laws g(1) l g(2)] l show ?thesis by simp
qed

text \<open>
  A signed request gets the operator's name and key usage, whatever it claims: the certificate carries the name
  of the engine the operator was asked for and the key of the request, is signed by the authority, is for client
  authentication only, is no authority, and is valid for 90 days and the ten seconds of tolerated skew.
\<close>

theorem issued_client_cert:
  assumes "crypto_laws C" and "IssueClientCertFromCSR C ca csr ns name w = (Inr certPEM, w')"
  shows "\<exists>c. certOf C certPEM = Some c \<and> crt_PublicKey c = cq_PublicKey csr \<and>
    crt_SignerKey c = cr_Public C (ca_Key ca) \<and> x_CommonName (crt_Template c) = clientCN ns name \<and>
    x_ExtKeyUsage (crt_Template c) = [ClientAuth] \<and> \<not> x_IsCA (crt_Template c) \<and>
    x_NotAfter (crt_Template c) - x_NotBefore (crt_Template c) = 90 * 24 * 3600 + 10 \<and>
    0 \<le> x_SerialNumber (crt_Template c) \<and> x_SerialNumber (crt_Template c) < 2 ^ 128"
proof -
  obtain now serial where c: "certOf C certPEM = Some \<lparr>crt_Template = clientTemplate now serial ns name,
      crt_PublicKey = cq_PublicKey csr, crt_SignerKey = cr_Public C (ca_Key ca)\<rparr>"
    and "0 \<le> serial" "serial < 2 ^ 128"
    using assms by (rule IssueClientCertFromCSR_Inr)
  then show ?thesis
    by (simp add: clientTemplate_def)
qed

theorem issued_client_cert_witness:
  "\<exists>certPEM c. IssueClientCertFromCSR (demoCrypto :: (unit, string, string) Crypto) demoCA \<lparr>cq_CommonName = ''evil/other'', cq_PublicKey = ''p''\<rparr>
      ''ns'' ''e'' () = (Inr certPEM, ()) \<and> certOf (demoCrypto :: (unit, string, string) Crypto) certPEM = Some c \<and>
    x_CommonName (crt_Template c) = ''ns/e''"
  using issued_client_cert [OF demo_crypto_laws demo_issues [of "()"]] demo_issues [of "()"]
  by (auto simp: clientCN_def)

end
