(* ===== verification/Grpc_Server.thy ===== *)
theory Grpc_Server
  imports Pki Rulestore
begin

text \<open>
  The configuration service of the operator, \<open>internal/grpcserver/server.go\<close> and \<open>enroll.go\<close>: the stream
  interceptor, the checks of the client certificate, the \<open>Subscribe\<close> stream and \<open>Enroll\<close>. A call ends with a
  gRPC status or, where the code would dereference nil or index out of range, with a panic. The lemmas show
  which engine a certificate opens, what a stream carries and what \<open>Enroll\<close> has checked when it signs.
\<close>

subsection \<open>Peers and errors\<close>

datatype Code = InvalidArgument | PermissionDenied | NotFoundCode | Internal

datatype rpcError = Status Code string | SendError string | Panic string

text \<open>\<open>peer.AuthInfo\<close>: not TLS, or the verified chains of the TLS state, leaf first.\<close>

datatype 'pub AuthInfo = InsecureInfo | TLSInfo "'pub Certificate list list"

record ('key, 'pub) Server =
  gs_CA :: "('key, 'pub) CertAuthority option"

text \<open>\<open>ConfigService_Subscribe_FullMethodName\<close> of the generated code.\<close>

definition Subscribe_FullMethodName :: string where
  "Subscribe_FullMethodName = ''/waf.v1.ConfigService/Subscribe''"

definition requireVerifiedClientCert :: "'pub AuthInfo option \<Rightarrow> rpcError + unit" where
  "requireVerifiedClientCert p =
     (case p of
        None \<Rightarrow> Inl (Status PermissionDenied ''no peer info in context'')
      | Some InsecureInfo \<Rightarrow> Inr ()
      | Some (TLSInfo verified) \<Rightarrow>
          if length verified = 0 then Inl (Status PermissionDenied ''client certificate required for Subscribe'')
          else Inr ())"

definition subscribeClientCertInterceptor ::
  "string \<Rightarrow> 'pub AuthInfo option \<Rightarrow> (rpcError + 'r) \<Rightarrow> rpcError + 'r" where
  "subscribeClientCertInterceptor fullMethod p handler =
     (if fullMethod = Subscribe_FullMethodName
      then (case requireVerifiedClientCert p of Inl e \<Rightarrow> Inl e | Inr _ \<Rightarrow> handler)
      else handler)"

definition verifyCertMatchesEngine :: "'pub AuthInfo option \<Rightarrow> string \<Rightarrow> string \<Rightarrow> rpcError + unit" where
  "verifyCertMatchesEngine p engineNS engineName =
     (case p of
        None \<Rightarrow> Inl (Status PermissionDenied ''no peer info'')
      | Some InsecureInfo \<Rightarrow> Inr ()
      | Some (TLSInfo []) \<Rightarrow> Inl (Status PermissionDenied ''no verified client certificate'')
      | Some (TLSInfo ([] # _)) \<Rightarrow> Inl (Panic ''index out of range [0] with length 0'')
      | Some (TLSInfo ((leaf # _) # _)) \<Rightarrow>
          (let cn = x_CommonName (crt_Template leaf) in
           case ParseClientCN cn of
             Inl err \<Rightarrow> Inl (Status PermissionDenied (''client cert CN invalid: '' @ err))
           | Inr (ns, name) \<Rightarrow>
               if ns \<noteq> engineNS \<or> name \<noteq> engineName
               then Inl (Status PermissionDenied
                      (''client cert CN '' @ Quote cn @ '' does not match engine '' @ engineNS @ ''/'' @ engineName))
               else Inr ()))"

subsection \<open>Subscribe\<close>

record RuleSetBundle =
  pb_RulesetName :: string
  pb_Sha256 :: string
  pb_CompiledSeclang :: string
  pb_GeneratedAt :: time

definition toPB :: "Bundle \<Rightarrow> RuleSetBundle" where
  "toPB b = \<lparr>pb_RulesetName = b_RuleSetName b, pb_Sha256 = b_SHA256 b, pb_CompiledSeclang = b_Compiled b,
     pb_GeneratedAt = b_GeneratedAt b\<rparr>"

text \<open>The checks before the store is touched.\<close>

definition Subscribe_checks ::
  "('key, 'pub) Server \<Rightarrow> 'pub AuthInfo option \<Rightarrow> string \<Rightarrow> string \<Rightarrow> rpcError + unit" where
  "Subscribe_checks srv p engineNS engineName =
     (if engineNS = '''' \<or> engineName = ''''
      then Inl (Status InvalidArgument ''engine_namespace and engine_name must be non-empty'')
      else
        (case gs_CA srv of
           None \<Rightarrow> Inr ()
         | Some _ \<Rightarrow> verifyCertMatchesEngine p engineNS engineName))"

text \<open>
  What happens to an open stream: the context ends, the select takes a waiting bundle (with the error of the send,
  if any), or a controller publishes for some engine in the meantime.
\<close>

datatype streamEvent =
    CtxDone
  | TakeBundle "string option"
  | Published engineKey Bundle

datatype streamOutcome = StreamOpen | StreamClosed | StreamFailed rpcError | StreamStuck

fun Subscribe_loop :: "streamEvent list \<Rightarrow> Store \<Rightarrow> subID \<Rightarrow> RuleSetBundle list
    \<Rightarrow> streamOutcome \<times> Store \<times> RuleSetBundle list" where
  "Subscribe_loop [] s sub sent = (StreamOpen, s, sent)"
| "Subscribe_loop (CtxDone # evs) s sub sent = (StreamClosed, s, sent)"
| "Subscribe_loop (TakeBundle sendErr # evs) s sub sent =
     (case recvBundle s sub of
        None \<Rightarrow> Subscribe_loop evs s sub sent
      | Some (b, s') \<Rightarrow>
          (case sendErr of
             Some err \<Rightarrow> (StreamFailed (SendError (''send bundle: '' @ err)), s', sent)
           | None \<Rightarrow> Subscribe_loop evs s' sub (sent @ [toPB b])))"
| "Subscribe_loop (Published k b # evs) s sub sent =
     (case PublishIfChanged s k b of
        None \<Rightarrow> (StreamStuck, s, sent)
      | Some (s', _) \<Rightarrow> Subscribe_loop evs s' sub sent)"

text \<open>The handler: the checks, the subscription, the loop and the deferred \<open>unsub\<close> when it returns.\<close>

definition Server_Subscribe ::
  "('key, 'pub) Server \<Rightarrow> 'pub AuthInfo option \<Rightarrow> string \<Rightarrow> string \<Rightarrow> Store \<Rightarrow> streamEvent list
    \<Rightarrow> rpcError + streamOutcome \<times> Store \<times> RuleSetBundle list" where
  "Server_Subscribe srv p engineNS engineName s evs =
     (case Subscribe_checks srv p engineNS engineName of
        Inl e \<Rightarrow> Inl e
      | Inr _ \<Rightarrow>
          (case Store_Subscribe s (mkKey engineNS engineName) of
             None \<Rightarrow> Inr (StreamStuck, s, [])
           | Some (s1, sub) \<Rightarrow>
               (case Subscribe_loop evs s1 sub [] of
                  (StreamOpen, s2, sent) \<Rightarrow> Inr (StreamOpen, s2, sent)
                | (StreamStuck, s2, sent) \<Rightarrow> Inr (StreamStuck, s2, sent)
                | (res, s2, sent) \<Rightarrow> Inr (res, unsub s2 (mkKey engineNS engineName) sub, sent))))"

definition rpcSubscribe ::
  "('key, 'pub) Server \<Rightarrow> 'pub AuthInfo option \<Rightarrow> string \<Rightarrow> string \<Rightarrow> Store \<Rightarrow> streamEvent list
    \<Rightarrow> rpcError + streamOutcome \<times> Store \<times> RuleSetBundle list" where
  "rpcSubscribe srv p engineNS engineName s evs =
     subscribeClientCertInterceptor Subscribe_FullMethodName p (Server_Subscribe srv p engineNS engineName s evs)"

subsection \<open>Enroll\<close>

record EnrollRequest =
  eq_EngineNamespace :: string
  eq_EngineName :: string
  eq_SaToken :: string
  eq_CsrDer :: string

record EnrollResponse =
  ep_ClientCertPem :: string
  ep_CaCertPem :: string

record TokenReviewStatus =
  tr_Authenticated :: bool
  tr_Username :: string

text \<open>The clients and the parser \<open>Enroll\<close> calls: \<open>TokenReviews().Create\<close>, the Engine reader and \<open>x509\<close> requests.\<close>

record ('w, 'pub) EnrollDeps =
  ed_TokenReview :: "string \<Rightarrow> string list \<Rightarrow> 'w \<Rightarrow> TokenReviewStatus result \<times> 'w"
  ed_GetEngine :: "NamespacedName \<Rightarrow> ('w, Engine) call"
  ed_ParseCertificateRequest :: "string \<Rightarrow> 'pub CertificateRequest result"
  ed_CheckSignature :: "string \<Rightarrow> 'pub CertificateRequest \<Rightarrow> string option"

definition enrollAudience :: string where
  "enrollAudience = ''coraza-operator''"

definition wantUsername :: "string \<Rightarrow> string \<Rightarrow> string" where
  "wantUsername ns name = ''system:serviceaccount:'' @ ns @ '':'' @ name @ ''-engine''"

text \<open>Step 5; a nil authority panics once its certificate is needed, after the serial was drawn.\<close>

definition issueFor ::
  "('w, 'key, 'pub) Crypto \<Rightarrow> ('key, 'pub) CertAuthority option \<Rightarrow> 'pub CertificateRequest \<Rightarrow> EnrollRequest \<Rightarrow> 'w
    \<Rightarrow> (rpcError + EnrollResponse) \<times> 'w" where
  "issueFor C ca csr req w =
     (case ca of
        None \<Rightarrow>
          (case newSerial C w of
             (Inl err, w1) \<Rightarrow> (Inl (Status Internal (''issue client cert: '' @ err)), w1)
           | (Inr _, w1) \<Rightarrow> (Inl (Panic ''nil pointer dereference''), w1))
      | Some a \<Rightarrow>
          (case IssueClientCertFromCSR C a csr (eq_EngineNamespace req) (eq_EngineName req) w of
             (Inl err, w1) \<Rightarrow> (Inl (Status Internal (''issue client cert: '' @ err)), w1)
           | (Inr certPEM, w1) \<Rightarrow>
               (Inr \<lparr>ep_ClientCertPem = certPEM, ep_CaCertPem = ca_CertPEM a\<rparr>, w1)))"

definition Enroll ::
  "('w, 'key, 'pub) Crypto \<Rightarrow> ('w, 'pub) EnrollDeps \<Rightarrow> ('key, 'pub) Server \<Rightarrow> EnrollRequest \<Rightarrow> 'w
    \<Rightarrow> (rpcError + EnrollResponse) \<times> 'w" where
  "Enroll C d srv req w =
     (let ns = eq_EngineNamespace req; name = eq_EngineName req in
      if ns = '''' \<or> name = ''''
      then (Inl (Status InvalidArgument ''engine_namespace and engine_name must be non-empty''), w)
      else if eq_SaToken req = '''' then (Inl (Status InvalidArgument ''sa_token must be non-empty''), w)
      else if length (eq_CsrDer req) = 0 then (Inl (Status InvalidArgument ''csr_der must be non-empty''), w)
      else
        (case ed_TokenReview d (eq_SaToken req) [enrollAudience] w of
           (Inl err, w1) \<Rightarrow> (Inl (Status Internal (''token review failed: '' @ err)), w1)
         | (Inr result, w1) \<Rightarrow>
             if \<not> tr_Authenticated result
             then (Inl (Status PermissionDenied ''SA token not authenticated''), w1)
             else if tr_Username result \<noteq> wantUsername ns name
             then (Inl (Status PermissionDenied
                     (''SA username '' @ Quote (tr_Username result) @ '' does not match expected ''
                      @ Quote (wantUsername ns name))), w1)
             else
               (case ed_GetEngine d (ns, name) w1 of
                  (Inl err, w2) \<Rightarrow>
                    (if IsNotFound err
                     then (Inl (Status NotFoundCode (''Engine '' @ ns @ ''/'' @ name @ '' not found'')), w2)
                     else (Inl (Status Internal (''get Engine CR: '' @ errText err)), w2))
                | (Inr engine, w2) \<Rightarrow>
                    (case ed_ParseCertificateRequest d (eq_CsrDer req) of
                       Inl err \<Rightarrow> (Inl (Status InvalidArgument (''parse CSR: '' @ err)), w2)
                     | Inr csr \<Rightarrow>
                         (case ed_CheckSignature d (eq_CsrDer req) csr of
                            Some err \<Rightarrow> (Inl (Status InvalidArgument (''CSR signature invalid: '' @ err)), w2)
                          | None \<Rightarrow> issueFor C (gs_CA srv) csr req w2)))))"

subsection \<open>Lemmas\<close>

text \<open>Over TLS with a configured authority, the checks accept exactly the engine the leaf is named after.\<close>

lemma checks_tls:
  assumes "gs_CA srv = Some ca"
  shows "Subscribe_checks srv (Some (TLSInfo ((leaf # rest) # others))) ns name = Inr () \<longleftrightarrow>
    x_CommonName (crt_Template leaf) = clientCN ns name \<and> validIdentity ns name"
proof -
  let ?cn = "x_CommonName (crt_Template leaf)"
  have "Subscribe_checks srv (Some (TLSInfo ((leaf # rest) # others))) ns name = Inr () \<longleftrightarrow>
      ns \<noteq> '''' \<and> name \<noteq> '''' \<and> ParseClientCN ?cn = Inr (ns, name)"
    using assms
    by (auto simp: Subscribe_checks_def verifyCertMatchesEngine_def Let_def split: sum.splits prod.splits)
  then show ?thesis
    by (auto simp: client_identity.dec_iff validIdentity_def)
qed

lemma checks_tls_empty:
  "gs_CA srv = Some ca \<Longrightarrow> Subscribe_checks srv (Some (TLSInfo [])) ns name \<noteq> Inr ()"
  "gs_CA srv = Some ca \<Longrightarrow> Subscribe_checks srv (Some (TLSInfo ([] # others))) ns name \<noteq> Inr ()"
  by (simp_all add: Subscribe_checks_def verifyCertMatchesEngine_def)

text \<open>
  The stream of \<open>k\<close>: every bundle in its channel is one of \<open>bs\<close>, and it is registered under \<open>k\<close>. Publications for
  \<open>k\<close> extend \<open>bs\<close>.
\<close>

fun publishedFor :: "engineKey \<Rightarrow> streamEvent list \<Rightarrow> Bundle set" where
  "publishedFor k [] = {}"
| "publishedFor k (Published k' b # evs) = (if k' = k then insert b (publishedFor k evs) else publishedFor k evs)"
| "publishedFor k (e # evs) = publishedFor k evs"

definition stream_inv :: "engineKey \<Rightarrow> subID \<Rightarrow> Bundle set \<Rightarrow> Store \<Rightarrow> bool" where
  "stream_inv k sub bs s \<longleftrightarrow> store_inv s \<and> sub \<in> set (subsOf s k) \<and> set (st_chans s sub) \<subseteq> bs"

lemma stream_inv_recv:
  assumes "stream_inv k sub bs s" and "recvBundle s sub = Some (b, s')"
  shows "b \<in> bs \<and> stream_inv k sub bs s'"
proof -
  from assms(2) obtain ch where "st_chans s sub = b # ch" "s' = s\<lparr>st_chans := (st_chans s)(sub := ch)\<rparr>"
    by (auto simp: recvBundle_def chanRecv_def split: option.splits list.splits)
  with assms recvBundle_inv [OF _ assms(2)] show ?thesis
    by (auto simp: stream_inv_def subsOf_def)
qed

lemma stream_inv_mono: "stream_inv k sub bs s \<Longrightarrow> bs \<subseteq> cs \<Longrightarrow> stream_inv k sub cs s"
  by (auto simp: stream_inv_def)

lemma stream_inv_publish:
  assumes "stream_inv k sub bs s" and "PublishIfChanged s k' b = Some (s', c)"
  shows "stream_inv k sub (if k' = k then insert b bs else bs) s'"
proof -
  have inv: "store_inv s" "sub \<in> set (subsOf s k)" "set (st_chans s sub) \<subseteq> bs"
    using assms(1) by (simp_all add: stream_inv_def)
  note pub = assms(2) [unfolded PublishIfChanged_eq [OF inv(1)]]
  show ?thesis
  proof (cases "isDuplicate s k' b")
    case True
    with pub have "s' = s" by simp
    with stream_inv_mono [OF assms(1)] show ?thesis by auto
  next
    case False
    with pub have s': "s' = delivered s k' b" by simp
    have "set (st_chans s' sub) \<subseteq> (if k' = k then insert b bs else bs)"
    proof (cases "sub \<in> set (subsOf s k')")
      case True
      with store_invD(4) [OF inv(1) inv(2)] have "k' = k" by simp
      with True show ?thesis by (simp add: s')
    next
      case False
      with inv(3) show ?thesis by (auto simp: s')
    qed
    moreover have "store_inv s'" "sub \<in> set (subsOf s' k)"
      using delivered_inv [OF inv(1)] inv(2) by (simp_all add: s')
    ultimately show ?thesis unfolding stream_inv_def by blast
  qed
qed

lemma Subscribe_loop_inv:
  assumes "stream_inv k sub bs s" and "Subscribe_loop evs s sub sent = (out, s', sent')"
  shows "stream_inv k sub (bs \<union> publishedFor k evs) s' \<and> out \<noteq> StreamStuck \<and>
    set sent' \<subseteq> set sent \<union> toPB ` (bs \<union> publishedFor k evs)"
  using assms
proof (induction evs arbitrary: bs s sent)
  case Nil
  then show ?case by auto
next
  case (Cons e evs)
  show ?case
  proof (cases e)
    case CtxDone
    with Cons.prems(2) stream_inv_mono [OF Cons.prems(1)] show ?thesis by auto
  next
    case (TakeBundle r)
    show ?thesis
    proof (cases "recvBundle s sub")
      case None
      with TakeBundle Cons.prems Cons.IH [of bs s sent] show ?thesis by simp
    next
      case (Some bs1)
      obtain b s1 where bs1: "bs1 = (b, s1)" by fastforce
      have inv: "b \<in> bs" "stream_inv k sub bs s1"
        using stream_inv_recv [OF Cons.prems(1)] Some bs1 by auto
      show ?thesis
      proof (cases r)
        case None
        with TakeBundle Some bs1 Cons.prems Cons.IH [OF inv(2), of "sent @ [toPB b]"] inv(1)
        show ?thesis by auto
      next
        case (Some err)
        with TakeBundle \<open>recvBundle s sub = Some bs1\<close> bs1 Cons.prems(2) stream_inv_mono [OF inv(2)]
        show ?thesis by auto
      qed
    qed
  next
    case (Published k' b)
    have "store_inv s" using Cons.prems(1) by (simp add: stream_inv_def)
    then obtain s1 c where s1: "PublishIfChanged s k' b = Some (s1, c)"
      using rulestore.pub_total by blast
    from Cons.IH [OF stream_inv_publish [OF Cons.prems(1) s1], of sent] s1 Published Cons.prems(2)
    show ?thesis by (auto split: if_splits)
  qed
qed

lemma Server_Subscribe_Inr:
  assumes "store_inv s" and "Server_Subscribe srv p ns name s evs = Inr (out, s', sent)"
  obtains s2 where "Subscribe_loop evs (subscribed s (mkKey ns name)) (st_next s) [] = (out, s2, sent)"
    "stream_inv (mkKey ns name) (st_next s)
       (set_option (Get s (mkKey ns name)) \<union> publishedFor (mkKey ns name) evs) s2"
    "s' = (if out = StreamOpen then s2 else unsub s2 (mkKey ns name) (st_next s))"
    "out \<noteq> StreamStuck" "set sent \<subseteq> toPB ` (set_option (Get s (mkKey ns name)) \<union> publishedFor (mkKey ns name) evs)"
proof -
  let ?k = "mkKey ns name"
  let ?bs = "set_option (Get s ?k)"
  have start: "stream_inv ?k (st_next s) ?bs (subscribed s ?k)"
    using subscribed_inv [OF assms(1)] by (auto simp: stream_inv_def Get_def split: option.splits)
  obtain o2 s2 sent2 where loop: "Subscribe_loop evs (subscribed s ?k) (st_next s) [] = (o2, s2, sent2)"
    by (cases "Subscribe_loop evs (subscribed s ?k) (st_next s) []") auto
  note inv = Subscribe_loop_inv [OF start loop]
  have "out = o2" "sent = sent2" "s' = (if o2 = StreamOpen then s2 else unsub s2 ?k (st_next s))"
    using assms(2) inv
    by (auto simp: Server_Subscribe_def Store_Subscribe_eq loop split: sum.splits streamOutcome.splits)
  with inv loop that [of s2] show thesis by auto
qed

lemma rpc_open_iff:
  assumes "gs_CA srv = Some ca"
  shows "(\<exists>r. rpcSubscribe srv (Some (TLSInfo verified)) ns name s evs = Inr r) \<longleftrightarrow>
    (\<exists>leaf rest others. verified = (leaf # rest) # others \<and>
       x_CommonName (crt_Template leaf) = clientCN ns name \<and> validIdentity ns name)"
proof -
  have open_iff: "(\<exists>r. rpcSubscribe srv (Some (TLSInfo verified)) ns name s evs = Inr r) \<longleftrightarrow>
      verified \<noteq> [] \<and> Subscribe_checks srv (Some (TLSInfo verified)) ns name = Inr ()"
    by (auto simp: rpcSubscribe_def subscribeClientCertInterceptor_def requireVerifiedClientCert_def
        Server_Subscribe_def Store_Subscribe_eq split: sum.splits streamOutcome.splits prod.splits)
  show ?thesis
  proof (cases verified)
    case Nil
    then show ?thesis unfolding open_iff by simp
  next
    case (Cons chain others)
    then show ?thesis
      using checks_tls [OF assms(1)] checks_tls_empty(2) [OF assms(1)] unfolding open_iff
      by (cases chain) auto
  qed
qed

subsection \<open>Properties\<close>

text \<open>
  Authorisation of \<open>Subscribe\<close>: with an authority and a TLS connection, a stream is opened for an engine exactly
  when the connection has a verified leaf certificate whose common name is that engine's \<open>namespace/name\<close>, with
  both parts non-empty and no slash in the namespace. Otherwise the call ends in an error and the store is not
  touched.
\<close>

theorem subscribe_authorised:
  assumes "gs_CA srv = Some ca"
  shows "(\<exists>r. rpcSubscribe srv (Some (TLSInfo verified)) ns name s evs = Inr r) \<longleftrightarrow>
    (\<exists>leaf rest others. verified = (leaf # rest) # others \<and>
       x_CommonName (crt_Template leaf) = clientCN ns name \<and> validIdentity ns name)"
  by (rule rpc_open_iff [OF assms])

text \<open>
  Isolation of the streams: whatever the select takes and whatever is published for whichever engine in
  between, a stream carries only bundles that were stored for its engine when it was opened or published for
  that engine since; it never gets stuck; the store keeps its invariant, and the subscription is registered exactly
  as long as the stream is open.
\<close>

theorem stream_isolated:
  assumes "store_inv s" and "Server_Subscribe srv p ns name s evs = Inr (out, s', sent)"
  shows "set sent \<subseteq> toPB ` (set_option (Get s (mkKey ns name)) \<union> publishedFor (mkKey ns name) evs) \<and>
    out \<noteq> StreamStuck \<and> store_inv s' \<and>
    (out = StreamOpen \<longleftrightarrow> st_next s \<in> set (subsOf s' (mkKey ns name)))"
proof -
  obtain s2 where "stream_inv (mkKey ns name) (st_next s)
       (set_option (Get s (mkKey ns name)) \<union> publishedFor (mkKey ns name) evs) s2"
    "s' = (if out = StreamOpen then s2 else unsub s2 (mkKey ns name) (st_next s))"
    "out \<noteq> StreamStuck" "set sent \<subseteq> toPB ` (set_option (Get s (mkKey ns name)) \<union> publishedFor (mkKey ns name) evs)"
    using assms by (rule Server_Subscribe_Inr)
  then show ?thesis
    by (auto simp: stream_inv_def unsub_inv)
qed

lemma Enroll_Inr:
  assumes "Enroll C d srv req w = (Inr resp, w')"
  obtains result w1 engine w2 csr ca where
    "eq_EngineNamespace req \<noteq> ''''" "eq_EngineName req \<noteq> ''''"
    "ed_TokenReview d (eq_SaToken req) [enrollAudience] w = (Inr result, w1)" "tr_Authenticated result"
    "tr_Username result = wantUsername (eq_EngineNamespace req) (eq_EngineName req)"
    "ed_GetEngine d (eq_EngineNamespace req, eq_EngineName req) w1 = (Inr engine, w2)"
    "ed_ParseCertificateRequest d (eq_CsrDer req) = Inr csr" "ed_CheckSignature d (eq_CsrDer req) csr = None"
    "gs_CA srv = Some ca" "ep_CaCertPem resp = ca_CertPEM ca"
    "IssueClientCertFromCSR C ca csr (eq_EngineNamespace req) (eq_EngineName req) w2
      = (Inr (ep_ClientCertPem resp), w')"
proof -
  let ?ns = "eq_EngineNamespace req" and ?name = "eq_EngineName req"
  note en = assms [unfolded Enroll_def Let_def]
  from en have g: "?ns \<noteq> ''''" "?name \<noteq> ''''" "eq_SaToken req \<noteq> ''''" "length (eq_CsrDer req) \<noteq> 0"
    by (simp_all split: if_splits)
  note en = en [unfolded if_not_P [OF g(3)] if_not_P [OF g(4)]]
  from en g obtain result w1 where r: "ed_TokenReview d (eq_SaToken req) [enrollAudience] w = (Inr result, w1)"
    by (cases "ed_TokenReview d (eq_SaToken req) [enrollAudience] w" rule: result_pair_cases) simp_all
  from en g r have a: "tr_Authenticated result" "tr_Username result = wantUsername ?ns ?name"
    by (simp_all split: if_splits)
  from en g r a obtain engine w2 where e: "ed_GetEngine d (?ns, ?name) w1 = (Inr engine, w2)"
    by (cases "ed_GetEngine d (?ns, ?name) w1" rule: result_pair_cases) (simp_all split: if_splits)
  from en g r a e obtain csr where c: "ed_ParseCertificateRequest d (eq_CsrDer req) = Inr csr"
    "ed_CheckSignature d (eq_CsrDer req) csr = None"
    by (simp split: sum.splits option.splits)
  with en g r a e have i: "issueFor C (gs_CA srv) csr req w2 = (Inr resp, w')"
    by simp
  then obtain ca where ca: "gs_CA srv = Some ca"
    by (cases "gs_CA srv"; cases "newSerial C w2" rule: result_pair_cases) (simp_all add: issueFor_def)
  with i have "IssueClientCertFromCSR C ca csr ?ns ?name w2 = (Inr (ep_ClientCertPem resp), w')"
    "ep_CaCertPem resp = ca_CertPEM ca"
    by (cases "IssueClientCertFromCSR C ca csr ?ns ?name w2" rule: result_pair_cases; auto simp: issueFor_def)+
  with g r a e c ca show thesis by (intro that)
qed

text \<open>
  C29. \<open>Enroll\<close> signs only after all its checks: a certificate is returned only when a token review for the
  operator's audience authenticated exactly the service account the operator creates for the engine named in
  the request, the Engine exists and the request's signature is valid; and it is the one the authority issues for
  that engine and the key of the request. The audience is the one of the token mounted into the engine's pods.
\<close>

theorem enroll_checks:
  assumes "Enroll C d srv req w = (Inr resp, w')"
    and "en_Name e = eq_EngineName req" and "en_Namespace e = eq_EngineNamespace req"
  shows "\<exists>result w1 engine w2 csr ca.
    ed_TokenReview d (eq_SaToken req) [SATokenAudience] w = (Inr result, w1) \<and> tr_Authenticated result \<and>
    tr_Username result =
      ''system:serviceaccount:'' @ en_Namespace e @ '':'' @ om_Name (sa_Meta (BuildServiceAccount e)) \<and>
    ed_GetEngine d (eq_EngineNamespace req, eq_EngineName req) w1 = (Inr engine, w2) \<and>
    ed_ParseCertificateRequest d (eq_CsrDer req) = Inr csr \<and> ed_CheckSignature d (eq_CsrDer req) csr = None \<and>
    gs_CA srv = Some ca \<and> ep_CaCertPem resp = ca_CertPEM ca \<and>
    IssueClientCertFromCSR C ca csr (en_Namespace e) (en_Name e) w2 = (Inr (ep_ClientCertPem resp), w')"
proof -
  obtain result w1 engine w2 csr ca where
    "eq_EngineNamespace req \<noteq> ''''" "eq_EngineName req \<noteq> ''''"
    "ed_TokenReview d (eq_SaToken req) [enrollAudience] w = (Inr result, w1)" "tr_Authenticated result"
    "tr_Username result = wantUsername (eq_EngineNamespace req) (eq_EngineName req)"
    "ed_GetEngine d (eq_EngineNamespace req, eq_EngineName req) w1 = (Inr engine, w2)"
    "ed_ParseCertificateRequest d (eq_CsrDer req) = Inr csr" "ed_CheckSignature d (eq_CsrDer req) csr = None"
    "gs_CA srv = Some ca" "ep_CaCertPem resp = ca_CertPEM ca"
    "IssueClientCertFromCSR C ca csr (eq_EngineNamespace req) (eq_EngineName req) w2
      = (Inr (ep_ClientCertPem resp), w')"
    using assms(1) by (rule Enroll_Inr)
  moreover have "enrollAudience = SATokenAudience" by (simp add: enrollAudience_def SATokenAudience_def)
  ultimately show ?thesis
    by (intro exI [of _ result] exI [of _ w1] exI [of _ engine] exI [of _ w2] exI [of _ csr] exI [of _ ca])
      (simp add: assms(2,3) wantUsername_def BuildServiceAccount_def builtMeta_def ServiceAccountName_def)
qed

lemma enrolled_opens:
  assumes "crypto_laws C" and "Enroll C d srv req w = (Inr resp, w')" and "slash \<notin> set (eq_EngineNamespace req)"
  shows "\<exists>c. certOf C (ep_ClientCertPem resp) = Some c \<and>
    (\<forall>ns name rest others s evs.
       (\<exists>r. rpcSubscribe srv (Some (TLSInfo ((c # rest) # others))) ns name s evs = Inr r) \<longleftrightarrow>
       ns = eq_EngineNamespace req \<and> name = eq_EngineName req)"
proof -
  let ?ns = "eq_EngineNamespace req" and ?name = "eq_EngineName req"
  obtain w2 csr ca where ne: "?ns \<noteq> ''''" "?name \<noteq> ''''" and ca: "gs_CA srv = Some ca"
    and i: "IssueClientCertFromCSR C ca csr ?ns ?name w2 = (Inr (ep_ClientCertPem resp), w')"
    using assms(2) by (rule Enroll_Inr)
  obtain now serial where c: "certOf C (ep_ClientCertPem resp) =
      Some \<lparr>crt_Template = clientTemplate now serial ?ns ?name, crt_PublicKey = cq_PublicKey csr,
        crt_SignerKey = cr_Public C (ca_Key ca)\<rparr>"
    using assms(1) i by (rule IssueClientCertFromCSR_Inr)
  have valid: "validIdentity ?ns ?name" using ne assms(3) by (simp add: validIdentity_def)
  have "clientCN ?ns ?name = clientCN ns name \<and> validIdentity ns name \<longleftrightarrow> ns = ?ns \<and> name = ?name" for ns name
    using client_identity.enc_inj [OF valid, of ns name] valid by auto
  with c show ?thesis
    unfolding rpc_open_iff [OF ca] by (simp add: clientTemplate_def)
qed

text \<open>
  From enrolment to subscription: the certificate \<open>Enroll\<close> returned for an engine whose namespace has no slash,
  presented as the verified leaf of a TLS connection, opens the stream of that engine and of no other.
\<close>

theorem enroll_then_subscribe:
  assumes "crypto_laws C" and "Enroll C d srv req w = (Inr resp, w')" and "slash \<notin> set (eq_EngineNamespace req)"
  shows "\<exists>c. certOf C (ep_ClientCertPem resp) = Some c \<and>
    (\<forall>ns name rest others s evs.
       (\<exists>r. rpcSubscribe srv (Some (TLSInfo ((c # rest) # others))) ns name s evs = Inr r) \<longleftrightarrow>
       ns = eq_EngineNamespace req \<and> name = eq_EngineName req)"
  using assms by (rule enrolled_opens)

text \<open>
  The handler's own check is no gate on a connection without TLS: with an authority configured, an insecure
  peer passes the interceptor and the identity check and gets the stream of any engine it names.
\<close>

theorem insecure_peer_is_admitted:
  assumes "gs_CA srv = Some ca" and "ns \<noteq> ''''" and "name \<noteq> ''''"
  shows "\<exists>r. rpcSubscribe srv (Some InsecureInfo) ns name s evs = Inr r"
  using assms
  by (auto simp: rpcSubscribe_def subscribeClientCertInterceptor_def requireVerifiedClientCert_def
      Server_Subscribe_def Subscribe_checks_def verifyCertMatchesEngine_def Store_Subscribe_eq
      split: prod.splits streamOutcome.splits)

subsection \<open>Witnesses\<close>

definition demoServer :: "(string, string) Server" where
  "demoServer = \<lparr>gs_CA = Some demoCA\<rparr>"

definition demoDeps :: "('w, string) EnrollDeps" where
  "demoDeps =
     \<lparr>ed_TokenReview = (\<lambda>t aud w.
        (Inr \<lparr>tr_Authenticated = (t = ''jwt''), tr_Username = ''system:serviceaccount:ns:e-engine''\<rparr>, w)),
      ed_GetEngine = (\<lambda>key w. (Inr \<lparr>en_Meta = \<lparr>om_Name = ''e'', om_Namespace = ''ns'', om_Generation = 1,
          om_ResourceVersion = '''', om_Labels = Map.empty, om_Annotations = Map.empty, om_OwnerReferences = []\<rparr>,
        en_Spec = \<lparr>es_Type = EngineTypeCorazaHTTP, es_RuleSetRef = ''r'', es_Replicas = None, es_Image = None,
          es_Listener = \<lparr>lc_Port = 0, lc_ProxyProtocol = False, lc_SPOAPort = 0\<rparr>,
          es_Upstream = \<lparr>uc_URL = ''http://b''\<rparr>, es_Mode = EngineModeBlocking,
          es_Resources = \<lparr>rr_Limits = Map.empty, rr_Requests = Map.empty\<rparr>\<rparr>,
        en_Status = \<lparr>et_Conditions = [], et_ObservedGeneration = 0, et_ReadyReplicas = 0,
          et_AppliedRuleSetHash = ''''\<rparr>\<rparr>, w)),
      ed_ParseCertificateRequest = (\<lambda>der. Inr \<lparr>cq_CommonName = ''evil/other'', cq_PublicKey = ''p''\<rparr>),
      ed_CheckSignature = (\<lambda>der csr. None)\<rparr>"

definition demoRequest :: EnrollRequest where
  "demoRequest = \<lparr>eq_EngineNamespace = ''ns'', eq_EngineName = ''e'', eq_SaToken = ''jwt'', eq_CsrDer = ''csr''\<rparr>"

lemma demo_enrolls:
  "\<exists>resp. Enroll (demoCrypto :: (unit, string, string) Crypto) demoDeps demoServer demoRequest () = (Inr resp, ()) \<and>
     ep_ClientCertPem resp = demoEncode pemTypeCertificate ''LEAF''"
  by (simp add: Enroll_def demoDeps_def demoRequest_def demoServer_def wantUsername_def issueFor_def demo_issues)

lemma demo_leaf: "certOf demoCrypto (demoEncode pemTypeCertificate ''LEAF'') = Some demoLeaf"
  by (simp add: certOf_def demoCrypto_def demoDecode_Encode)

theorem subscribe_authorised_witness:
  "\<exists>r. rpcSubscribe demoServer (Some (TLSInfo [[demoLeaf]])) ''ns'' ''e'' NewStore [CtxDone] = Inr r"
  by (subst subscribe_authorised [of _ demoCA])
    (simp_all add: demoServer_def demoLeaf_def clientTemplate_def clientCN_def validIdentity_def slash_def)

theorem stream_isolated_witness:
  "\<exists>s' sent. Server_Subscribe demoServer (Some (TLSInfo [[demoLeaf]])) ''ns'' ''e'' NewStore
      [Published (mkKey ''ns'' ''other'') (demoBundle ''o''), Published (mkKey ''ns'' ''e'') (demoBundle ''a''),
       TakeBundle None, CtxDone] = Inr (StreamClosed, s', sent) \<and>
    set sent \<subseteq> {toPB (demoBundle ''a'')} \<and> st_next NewStore \<notin> set (subsOf s' (mkKey ''ns'' ''e''))"
proof -
  let ?evs = "[Published (mkKey ''ns'' ''other'') (demoBundle ''o''),
    Published (mkKey ''ns'' ''e'') (demoBundle ''a''), TakeBundle None, CtxDone]"
  have "\<exists>s' sent. Server_Subscribe demoServer (Some (TLSInfo [[demoLeaf]])) ''ns'' ''e'' NewStore ?evs
      = Inr (StreamClosed, s', sent)"
    using checks_tls [of demoServer demoCA demoLeaf "[]" "[]" "''ns''" "''e''"]
    by (simp add: Server_Subscribe_def demoServer_def demoLeaf_def clientTemplate_def clientCN_def
        validIdentity_def slash_def Store_Subscribe_eq PublishIfChanged_def subscribed_def NewStore_def subsOf_def
        fanOut.simps sendLatest_def chanSend_def chanCap_def recvBundle_def chanRecv_def)
  then obtain s' sent where r: "Server_Subscribe demoServer (Some (TLSInfo [[demoLeaf]])) ''ns'' ''e'' NewStore ?evs
      = Inr (StreamClosed, s', sent)" by blast
  from stream_isolated [OF store_inv_NewStore r] r show ?thesis
    by (auto simp: Get_def NewStore_def)
qed

theorem enroll_checks_witness:
  "\<exists>result w1. ed_TokenReview demoDeps ''jwt'' [SATokenAudience] () = (Inr result, w1) \<and> tr_Authenticated result"
proof -
  obtain resp where r: "Enroll (demoCrypto :: (unit, string, string) Crypto) demoDeps demoServer demoRequest ()
      = (Inr resp, ())"
    using demo_enrolls by blast
  obtain e w2 where "ed_GetEngine demoDeps (''ns'', ''e'') () = (Inr e, w2)" "en_Name e = ''e''"
    "en_Namespace e = ''ns''"
    by (simp add: demoDeps_def)
  with enroll_checks [OF r, of e] show ?thesis by (simp add: demoRequest_def) blast
qed

theorem enroll_then_subscribe_witness:
  "\<not> (\<exists>r. rpcSubscribe demoServer (Some (TLSInfo [[demoLeaf]])) ''ns'' ''other'' NewStore [] = Inr r) \<and>
   (\<exists>r. rpcSubscribe demoServer (Some (TLSInfo [[demoLeaf]])) ''ns'' ''e'' NewStore [] = Inr r)"
proof -
  obtain resp where r: "Enroll (demoCrypto :: (unit, string, string) Crypto) demoDeps demoServer demoRequest ()
      = (Inr resp, ())" "ep_ClientCertPem resp = demoEncode pemTypeCertificate ''LEAF''"
    using demo_enrolls by blast
  have "slash \<notin> set (eq_EngineNamespace demoRequest)" by (simp add: demoRequest_def slash_def)
  from enroll_then_subscribe [OF demo_crypto_laws r(1) this] r(2)
  have "\<forall>ns name rest others s evs.
      (\<exists>r. rpcSubscribe demoServer (Some (TLSInfo ((demoLeaf # rest) # others))) ns name s evs = Inr r) \<longleftrightarrow>
      ns = ''ns'' \<and> name = ''e''"
    by (auto simp: demo_leaf demoRequest_def)
  from this [rule_format, of "[]" "[]"] show ?thesis by simp
qed

theorem insecure_peer_is_admitted_witness:
  "\<exists>r. rpcSubscribe demoServer (Some InsecureInfo) ''ns'' ''e'' NewStore [] = Inr r"
  by (rule insecure_peer_is_admitted [of _ demoCA]) (simp_all add: demoServer_def)

end
