(* ===== verification/Go_Flag.thy ===== *)
theory Go_Flag
  imports Go_Prelude
begin

text \<open>
  Command line flags as the package \<open>flag\<close> of the standard library parses them: one or two dashes, a value after an equals
  sign or, for flags that are not boolean, in the next argument, \<open>--\<close> or the first other argument as the end of the
  flags, and \<open>-h\<close> or \<open>-help\<close> as a request for help. The lemmas show that the flags of a list of settings are read back, the
  last setting of a name being the one that counts.
\<close>

text \<open>A flag: whether its value may be left out, and which values it accepts.\<close>

record flagSpec =
  fl_IsBool :: bool
  fl_Accepts :: "string \<Rightarrow> bool"

definition parseBool :: "string \<Rightarrow> bool option" where
  "parseBool s =
     (if s \<in> {''1'', ''t'', ''T'', ''true'', ''TRUE'', ''True''} then Some True
      else if s \<in> {''0'', ''f'', ''F'', ''false'', ''FALSE'', ''False''} then Some False else None)"

definition stringFlag :: flagSpec where
  "stringFlag = \<lparr>fl_IsBool = False, fl_Accepts = (\<lambda>s. True)\<rparr>"

definition boolFlag :: flagSpec where
  "boolFlag = \<lparr>fl_IsBool = True, fl_Accepts = (\<lambda>s. parseBool s \<noteq> None)\<rparr>"

text \<open>The values that were set, in order, or why the parser gave up.\<close>

datatype flagResult = Parsed "(string \<times> string) list" | HelpWanted | BadFlag string

fun setFirst :: "string \<times> string \<Rightarrow> flagResult \<Rightarrow> flagResult" where
  "setFirst kv (Parsed kvs) = Parsed (kv # kvs)"
| "setFirst kv r = r"

definition dash :: char where "dash = CHR ''-''"
definition equals :: char where "equals = CHR ''=''"

text \<open>\<open>FlagSet.parseOne\<close>, repeated.\<close>

fun parseArgs :: "(string \<Rightarrow> flagSpec option) \<Rightarrow> string list \<Rightarrow> flagResult" where
  "parseArgs flags [] = Parsed []"
| "parseArgs flags (s # args) =
     (if length s < 2 \<or> hd s \<noteq> dash \<or> s = [dash, dash] then Parsed []
      else
        (let nm = (if s ! 1 = dash then drop 2 s else drop 1 s) in
         if nm = [] \<or> hd nm = dash \<or> hd nm = equals then BadFlag (''bad flag syntax: '' @ s)
         else
           (let pieces = splitN2 equals nm; name = hd pieces;
                val = (case pieces of [_, v] \<Rightarrow> Some v | _ \<Rightarrow> None)
            in case flags name of
                 None \<Rightarrow>
                   if name = ''help'' \<or> name = ''h'' then HelpWanted
                   else BadFlag (''flag provided but not defined: -'' @ name)
               | Some sp \<Rightarrow>
                   if fl_IsBool sp then
                     (let v = (case val of Some v \<Rightarrow> v | None \<Rightarrow> ''true'') in
                      if fl_Accepts sp v then setFirst (name, v) (parseArgs flags args)
                      else BadFlag (''invalid boolean value for -'' @ name))
                   else
                     (case val of
                        Some v \<Rightarrow>
                          if fl_Accepts sp v then setFirst (name, v) (parseArgs flags args)
                          else BadFlag (''invalid value for flag -'' @ name)
                      | None \<Rightarrow>
                          (case args of
                             [] \<Rightarrow> BadFlag (''flag needs an argument: -'' @ name)
                           | v # args' \<Rightarrow>
                               if fl_Accepts sp v then setFirst (name, v) (parseArgs flags args')
                               else BadFlag (''invalid value for flag -'' @ name))))))"

definition flagValue :: "(string \<times> string) list \<Rightarrow> string \<Rightarrow> string option" where
  "flagValue kvs name = map_of (rev kvs) name"

subsection \<open>Settings read back\<close>

text \<open>A setting as one argument; a plain name needs no quoting.\<close>

definition flagArg :: "string \<times> string \<Rightarrow> string" where
  "flagArg kv = ''--'' @ fst kv @ ''='' @ snd kv"

definition plainFlag :: "string \<Rightarrow> bool" where
  "plainFlag name \<longleftrightarrow> name \<noteq> [] \<and> hd name \<noteq> dash \<and> equals \<notin> set name"

lemma splitN2_flag: "plainFlag k \<Longrightarrow> splitN2 equals (k @ ''='' @ v) = [k, v]"
  using splitN2_sep [of equals k v] by (simp add: plainFlag_def equals_def del: splitN2.simps)

lemma parseArgs_flagArg:
  assumes "plainFlag k" "flags k = Some sp" "fl_Accepts sp v"
  shows "parseArgs flags (flagArg (k, v) # args) = setFirst (k, v) (parseArgs flags args)"
proof -
  have k: "k \<noteq> []" "hd k \<noteq> dash" using assms(1) by (simp_all add: plainFlag_def)
  moreover have "hd k \<noteq> equals" using assms(1) hd_in_set [OF k(1)] unfolding plainFlag_def by metis
  ultimately show ?thesis
    using assms(2,3) splitN2_flag [OF assms(1), of v]
    by (simp add: flagArg_def dash_def [symmetric] Let_def del: splitN2.simps)
qed

lemma parseArgs_settings:
  assumes "\<forall>(k, v) \<in> set kvs. plainFlag k \<and> (\<exists>sp. flags k = Some sp \<and> fl_Accepts sp v)"
  shows "parseArgs flags (map flagArg kvs) = Parsed kvs"
  using assms
proof (induction kvs)
  case (Cons kv kvs)
  obtain k v where kv: "kv = (k, v)" by (cases kv)
  then obtain sp where "plainFlag k" "flags k = Some sp" "fl_Accepts sp v" using Cons.prems by auto
  from parseArgs_flagArg [of k flags sp v "map flagArg kvs", OF this] kv Cons show ?case
    by (simp del: parseArgs.simps)
qed simp

lemma flagValue_distinct: "distinct (map fst kvs) \<Longrightarrow> (k, v) \<in> set kvs \<Longrightarrow> flagValue kvs k = Some v"
  unfolding flagValue_def by (rule map_of_is_SomeI) (simp_all add: rev_map [symmetric])

end
