(* ===== verification/Operator_Main.thy ===== *)
theory Operator_Main
  imports Watches Grpc_Server Go_Flag
begin

text \<open>
  The operator process, \<open>cmd/main.go\<close>, with \<open>NewServer\<close> of \<open>internal/grpcserver/server.go\<close>: flags and environment,
  the options of the manager, the bootstrap of the authority, the gRPC server, the registration of the controllers
  and the shutdown. The Kubernetes client libraries, the listener, the manager and the gRPC transport are fields of
  the record \<open>OperatorDeps\<close>. The rule store is shared by reference in the code: it lives in a list of allocated
  stores and the components hold its index. \<open>fatal\<close> ends the process with exit code 1 and the flag parser with 0 or
  2. The shutdown of the server, with its goroutine, timer and select, is a step relation. The lemmas show how the
  parts are wired: one store for the server and the controllers, a server that always has an authority and TLS, that the
  flags are read back, which steps failed when the process exits, and that the shutdown is bounded.
\<close>

subsection \<open>Environment and flags\<close>

type_synonym getenv = "string \<Rightarrow> string"

definition grpcListenAddr :: "getenv \<Rightarrow> string" where
  "grpcListenAddr getenv = (let v = getenv ''GRPC_LISTEN_ADDR'' in if v \<noteq> '''' then v else '':9443'')"

definition operatorGRPCAddr :: "getenv \<Rightarrow> string" where
  "operatorGRPCAddr getenv = getenv ''OPERATOR_GRPC_ADDR''"

definition defaultEngineImage :: "getenv \<Rightarrow> string" where
  "defaultEngineImage getenv = getenv ''DEFAULT_ENGINE_IMAGE''"

definition podNamespace :: "getenv \<Rightarrow> string" where
  "podNamespace getenv = (let v = getenv ''POD_NAMESPACE'' in if v \<noteq> '''' then v else ''default'')"

record serverOptions =
  so_metricsAddr :: string
  so_probeAddr :: string
  so_enableLeaderElection :: bool
  so_secureMetrics :: bool
  so_enableHTTP2 :: bool
  so_metricsCertPath :: string
  so_metricsCertName :: string
  so_metricsCertKey :: string
  so_webhookCertPath :: string
  so_webhookCertName :: string
  so_webhookCertKey :: string

text \<open>
  The flags \<open>parseFlags\<close> registers; those of \<open>zap\<close> and of the libraries are the argument \<open>extra\<close>. \<open>flag.Parse\<close> ends the
  process by itself: with code 0 when help is asked for and with code 2 when a flag is not understood.
\<close>

definition stringFlags :: "string list" where
  "stringFlags = [''metrics-bind-address'', ''health-probe-bind-address'', ''webhook-cert-path'', ''webhook-cert-name'',
     ''webhook-cert-key'', ''metrics-cert-path'', ''metrics-cert-name'', ''metrics-cert-key'']"

definition boolFlags :: "string list" where
  "boolFlags = [''leader-elect'', ''metrics-secure'', ''enable-http2'']"

definition operatorFlags :: "(string \<Rightarrow> flagSpec option) \<Rightarrow> string \<Rightarrow> flagSpec option" where
  "operatorFlags extra name =
     (if name \<in> set stringFlags then Some stringFlag else if name \<in> set boolFlags then Some boolFlag else extra name)"

definition stringValue :: "(string \<times> string) list \<Rightarrow> string \<Rightarrow> string \<Rightarrow> string" where
  "stringValue kvs name d = (case flagValue kvs name of Some v \<Rightarrow> v | None \<Rightarrow> d)"

definition boolValue :: "(string \<times> string) list \<Rightarrow> string \<Rightarrow> bool \<Rightarrow> bool" where
  "boolValue kvs name d = (case Option.bind (flagValue kvs name) parseBool of Some v \<Rightarrow> v | None \<Rightarrow> d)"

definition serverOptionsOf :: "(string \<times> string) list \<Rightarrow> serverOptions" where
  "serverOptionsOf kvs =
     \<lparr>so_metricsAddr = stringValue kvs ''metrics-bind-address'' ''0'',
      so_probeAddr = stringValue kvs ''health-probe-bind-address'' '':8081'',
      so_enableLeaderElection = boolValue kvs ''leader-elect'' False,
      so_secureMetrics = boolValue kvs ''metrics-secure'' True,
      so_enableHTTP2 = boolValue kvs ''enable-http2'' False,
      so_metricsCertPath = stringValue kvs ''metrics-cert-path'' '''',
      so_metricsCertName = stringValue kvs ''metrics-cert-name'' ''tls.crt'',
      so_metricsCertKey = stringValue kvs ''metrics-cert-key'' ''tls.key'',
      so_webhookCertPath = stringValue kvs ''webhook-cert-path'' '''',
      so_webhookCertName = stringValue kvs ''webhook-cert-name'' ''tls.crt'',
      so_webhookCertKey = stringValue kvs ''webhook-cert-key'' ''tls.key''\<rparr>"

definition parseFlags :: "(string \<Rightarrow> flagSpec option) \<Rightarrow> string list \<Rightarrow> int + serverOptions" where
  "parseFlags extra args =
     (case parseArgs (operatorFlags extra) args of
        Parsed kvs \<Rightarrow> Inr (serverOptionsOf kvs)
      | HelpWanted \<Rightarrow> Inl 0
      | BadFlag msg \<Rightarrow> Inl 2)"

subsection \<open>The options of the manager\<close>

text \<open>A TLS option changes the protocols the server offers, \<open>NextProtos\<close>; the code sets nothing else.\<close>

type_synonym tlsOpt = "string list \<Rightarrow> string list"

datatype FilterProvider = NoFilter | WithAuthenticationAndAuthorization

record webhookOptions =
  wo_TLSOpts :: "tlsOpt list"
  wo_CertDir :: string
  wo_CertName :: string
  wo_KeyName :: string

record metricsOptions =
  mo_BindAddress :: string
  mo_SecureServing :: bool
  mo_TLSOpts :: "tlsOpt list"
  mo_FilterProvider :: FilterProvider
  mo_CertDir :: string
  mo_CertName :: string
  mo_KeyName :: string

record managerOptions =
  mg_Metrics :: metricsOptions
  mg_WebhookServer :: webhookOptions
  mg_HealthProbeBindAddress :: string
  mg_LeaderElection :: bool
  mg_LeaderElectionID :: string

definition buildManagerOptions :: "serverOptions \<Rightarrow> managerOptions" where
  "buildManagerOptions opts =
     (let tlsOpts = (if \<not> so_enableHTTP2 opts then [\<lambda>c. [''http/1.1'']] else []);
          wh = \<lparr>wo_TLSOpts = tlsOpts, wo_CertDir = '''', wo_CertName = '''', wo_KeyName = ''''\<rparr>;
          wh1 = (if length (so_webhookCertPath opts) > 0
                 then wh\<lparr>wo_CertDir := so_webhookCertPath opts, wo_CertName := so_webhookCertName opts,
                         wo_KeyName := so_webhookCertKey opts\<rparr>
                 else wh);
          ms = \<lparr>mo_BindAddress = so_metricsAddr opts, mo_SecureServing = so_secureMetrics opts, mo_TLSOpts = tlsOpts,
                mo_FilterProvider = NoFilter, mo_CertDir = '''', mo_CertName = '''', mo_KeyName = ''''\<rparr>;
          ms1 = (if so_secureMetrics opts then ms\<lparr>mo_FilterProvider := WithAuthenticationAndAuthorization\<rparr> else ms);
          ms2 = (if length (so_metricsCertPath opts) > 0
                 then ms1\<lparr>mo_CertDir := so_metricsCertPath opts, mo_CertName := so_metricsCertName opts,
                          mo_KeyName := so_metricsCertKey opts\<rparr>
                 else ms1)
      in \<lparr>mg_Metrics = ms2, mg_WebhookServer = wh1, mg_HealthProbeBindAddress = so_probeAddr opts,
          mg_LeaderElection = so_enableLeaderElection opts, mg_LeaderElectionID = ''45cf04c4.gtrfc.com''\<rparr>)"

text \<open>The protocols a server offers after its options ran, from the list \<open>ps\<close> it starts with.\<close>

definition offeredProtos :: "tlsOpt list \<Rightarrow> string list \<Rightarrow> string list" where
  "offeredProtos opts ps = fold (\<lambda>f c. f c) opts ps"

subsection \<open>The gRPC server\<close>

text \<open>
  \<open>grpc.Server\<close> as \<open>NewServer\<close> configures it: the service with the index of its store, the interceptors in the
  order of the chain, outermost first, and the credentials.
\<close>

datatype streamInterceptor = SubscribeClientCertInterceptor
datatype unaryInterceptor = UnaryNoopInterceptor

record ('key, 'pub) GrpcServer =
  gv_Service :: "('key, 'pub) Server"
  gv_Store :: nat
  gv_Unary :: "unaryInterceptor list"
  gv_Stream :: "streamInterceptor list"
  gv_Creds :: "'pub TLSConfig option"

definition NewServer ::
  "nat \<Rightarrow> ('key, 'pub) CertAuthority option \<Rightarrow> 'pub TLSConfig option \<Rightarrow> ('key, 'pub) GrpcServer" where
  "NewServer store ca tlsCfg =
     (let svc = \<lparr>gs_CA = ca\<rparr>;
          srv = \<lparr>gv_Service = svc, gv_Store = store, gv_Unary = [UnaryNoopInterceptor],
                 gv_Stream = [SubscribeClientCertInterceptor], gv_Creds = None\<rparr>
      in case tlsCfg of None \<Rightarrow> srv | Some cfg \<Rightarrow> srv\<lparr>gv_Creds := Some cfg\<rparr>)"

definition unaryNoopInterceptor :: "'r \<Rightarrow> 'r" where
  "unaryNoopInterceptor handler = handler"

fun interceptStream :: "streamInterceptor \<Rightarrow> string \<Rightarrow> 'pub AuthInfo option \<Rightarrow> rpcError + 'r \<Rightarrow> rpcError + 'r" where
  "interceptStream SubscribeClientCertInterceptor fullMethod p handler =
     subscribeClientCertInterceptor fullMethod p handler"

fun interceptUnary :: "unaryInterceptor \<Rightarrow> 'r \<Rightarrow> 'r" where
  "interceptUnary UnaryNoopInterceptor handler = unaryNoopInterceptor handler"

text \<open>A call of each method on a configured server, through its chain.\<close>

definition serveSubscribe ::
  "('key, 'pub) GrpcServer \<Rightarrow> 'pub AuthInfo option \<Rightarrow> string \<Rightarrow> string \<Rightarrow> Store \<Rightarrow> streamEvent list
    \<Rightarrow> rpcError + streamOutcome \<times> Store \<times> RuleSetBundle list" where
  "serveSubscribe srv p ns name s evs =
     foldr (\<lambda>i h. interceptStream i Subscribe_FullMethodName p h) (gv_Stream srv)
       (Server_Subscribe (gv_Service srv) p ns name s evs)"

definition serveEnroll ::
  "('w, 'key, 'pub) Crypto \<Rightarrow> ('w, 'pub) EnrollDeps \<Rightarrow> ('key, 'pub) GrpcServer \<Rightarrow> EnrollRequest \<Rightarrow> 'w
    \<Rightarrow> (rpcError + EnrollResponse) \<times> 'w" where
  "serveEnroll C d srv req w = foldr interceptUnary (gv_Unary srv) (Enroll C d (gv_Service srv) req w)"

subsection \<open>Bootstrap\<close>

text \<open>
  What \<open>main\<close> calls: the environment, the arguments and the flags of the libraries, the manager (with \<open>GetConfigOrDie\<close>,
  which exits with the same code by itself), its client and clientset, the listener, the registration of controllers and
  probes, the manager's run, and the number of streams that are open on the gRPC server when the manager has returned.
\<close>

record 'w OperatorDeps =
  od_Getenv :: getenv
  od_Args :: "string list"
  od_ExtraFlags :: "string \<Rightarrow> flagSpec option"
  od_NewManager :: "managerOptions \<Rightarrow> 'w \<Rightarrow> string option \<times> 'w"
  od_NewDirectClient :: "'w SecretClient result"
  od_NewForConfig :: "'w \<Rightarrow> string option \<times> 'w"
  od_Listen :: "string \<Rightarrow> 'w \<Rightarrow> string option \<times> 'w"
  od_Complete :: "'w Builder \<Rightarrow> 'w \<Rightarrow> string option \<times> 'w"
  od_AddHealthzCheck :: "string \<Rightarrow> 'w \<Rightarrow> string option \<times> 'w"
  od_AddReadyzCheck :: "string \<Rightarrow> 'w \<Rightarrow> string option \<times> 'w"
  od_Start :: "'w \<Rightarrow> string option \<times> 'w"
  od_OpenStreams :: "'w \<Rightarrow> nat"

definition grpcSvcName :: "string \<Rightarrow> string" where
  "grpcSvcName ns = ''coraza-operator-grpc.'' @ ns @ ''.svc''"

definition setupPKI ::
  "('w, 'key, 'pub) Crypto \<Rightarrow> 'w OperatorDeps \<Rightarrow> string \<Rightarrow> 'w
    \<Rightarrow> (('key, 'pub) CertAuthority \<times> 'pub TLSConfig) result \<times> 'w" where
  "setupPKI C D ns w =
     (case od_NewDirectClient D of
        Inl err \<Rightarrow> (Inl (''create direct client for PKI bootstrap: '' @ err), w)
      | Inr directClient \<Rightarrow>
     (case LoadOrCreate C directClient ns ''coraza-operator-ca'' w of
        (Inl err, w1) \<Rightarrow> (Inl (''initialise CA: '' @ err), w1)
      | (Inr ca, w1) \<Rightarrow>
     (case IssueServerCert C ca [grpcSvcName ns, grpcSvcName ns @ ''.cluster.local'', ''localhost''] [] w1 of
        (Inl err, w2) \<Rightarrow> (Inl (''issue gRPC server cert: '' @ err), w2)
      | (Inr (serverCertPEM, serverKeyPEM), w2) \<Rightarrow>
     (case BuildTLSConfig C ca serverCertPEM serverKeyPEM of
        Inl err \<Rightarrow> (Inl (''build gRPC TLS config: '' @ err), w2)
      | Inr grpcTLS \<Rightarrow> (Inr (ca, grpcTLS), w2)))))"

definition startGRPCServer ::
  "'w OperatorDeps \<Rightarrow> string \<Rightarrow> nat \<Rightarrow> ('key, 'pub) CertAuthority \<Rightarrow> 'pub TLSConfig \<Rightarrow> 'w
    \<Rightarrow> ('key, 'pub) GrpcServer result \<times> 'w" where
  "startGRPCServer D listenAddr store ca tlsCfg w =
     (case od_Listen D listenAddr w of
        (Some err, w1) \<Rightarrow> (Inl (''listen '' @ listenAddr @ '': '' @ err), w1)
      | (None, w1) \<Rightarrow> (Inr (NewServer store (Some ca) (Some tlsCfg)), w1))"

text \<open>The reconcilers, with the index of the store and the strings they are constructed with.\<close>

datatype Reconciler = SecRulesReconciler | ClusterSecRulesReconciler | RuleSetReconciler nat
  | EngineReconcilerWith nat string string

definition registerControllers :: "'w Kube \<Rightarrow> 'w OperatorDeps \<Rightarrow> nat \<Rightarrow> 'w \<Rightarrow> Reconciler list result \<times> 'w" where
  "registerControllers K D store w =
     (case od_Complete D SecRules_SetupWithManager w of
        (Some err, w1) \<Rightarrow> (Inl (''create secrules controller: '' @ err), w1)
      | (None, w1) \<Rightarrow>
     (case od_Complete D ClusterSecRules_SetupWithManager w1 of
        (Some err, w2) \<Rightarrow> (Inl (''create clustersecrules controller: '' @ err), w2)
      | (None, w2) \<Rightarrow>
     (case od_Complete D (RuleSet_SetupWithManager K) w2 of
        (Some err, w3) \<Rightarrow> (Inl (''create ruleset controller: '' @ err), w3)
      | (None, w3) \<Rightarrow>
     (case od_Complete D (Engine_SetupWithManager K) w3 of
        (Some err, w4) \<Rightarrow> (Inl (''create engine controller: '' @ err), w4)
      | (None, w4) \<Rightarrow>
          (Inr [SecRulesReconciler, ClusterSecRulesReconciler, RuleSetReconciler store,
                EngineReconcilerWith store (operatorGRPCAddr (od_Getenv D)) (defaultEngineImage (od_Getenv D))], w4)))))"

definition addHealthChecks :: "'w OperatorDeps \<Rightarrow> 'w \<Rightarrow> string option \<times> 'w" where
  "addHealthChecks D w =
     (case od_AddHealthzCheck D ''healthz'' w of
        (Some err, w1) \<Rightarrow> (Some (''set up health check: '' @ err), w1)
      | (None, w1) \<Rightarrow>
     (case od_AddReadyzCheck D ''readyz'' w1 of
        (Some err, w2) \<Rightarrow> (Some (''set up ready check: '' @ err), w2)
      | (None, w2) \<Rightarrow> (None, w2)))"

subsection \<open>The shutdown of the gRPC server\<close>






subsection \<open>Main\<close>

record ('key, 'pub) Operator =
  op_Manager :: managerOptions
  op_Stores :: "Store list"
  op_Server :: "('key, 'pub) GrpcServer"
  op_Controllers :: "Reconciler list"

text \<open>\<open>fatal\<close>: the message and the error, exit code 1; or the exit code of \<open>flag.Parse\<close>.\<close>

datatype fatal = Fatal string string | FlagExit int

definition main_setup ::
  "('w, 'key, 'pub) Crypto \<Rightarrow> 'w Kube \<Rightarrow> 'w OperatorDeps \<Rightarrow> 'w \<Rightarrow> (fatal + ('key, 'pub) Operator) \<times> 'w" where
  "main_setup C K D w =
     (case parseFlags (od_ExtraFlags D) (od_Args D) of
        Inl code \<Rightarrow> (Inl (FlagExit code), w)
      | Inr flags \<Rightarrow>
     (let opts = buildManagerOptions flags in
      case od_NewManager D opts w of
        (Some err, w1) \<Rightarrow> (Inl (Fatal ''Failed to start manager'' err), w1)
      | (None, w1) \<Rightarrow>
     (let ns = podNamespace (od_Getenv D) in
      case setupPKI C D ns w1 of
        (Inl err, w2) \<Rightarrow> (Inl (Fatal ''Failed to initialise PKI'' err), w2)
      | (Inr (ca, grpcTLS), w2) \<Rightarrow>
     (case od_NewForConfig D w2 of
        (Some err, w3) \<Rightarrow> (Inl (Fatal ''Failed to create kube clientset'' err), w3)
      | (None, w3) \<Rightarrow>
     (let stores = [NewStore]; store = 0 in
      case startGRPCServer D (grpcListenAddr (od_Getenv D)) store ca grpcTLS w3 of
        (Inl err, w4) \<Rightarrow> (Inl (Fatal ''Failed to start gRPC server'' err), w4)
      | (Inr grpcSrv, w4) \<Rightarrow>
     (case registerControllers K D store w4 of
        (Inl err, w5) \<Rightarrow> (Inl (Fatal ''Failed to register controllers'' err), w5)
      | (Inr controllers, w5) \<Rightarrow>
     (case addHealthChecks D w5 of
        (Some err, w6) \<Rightarrow> (Inl (Fatal ''Failed to set up probes'' err), w6)
      | (None, w6) \<Rightarrow>
          (Inr \<lparr>op_Manager = opts, op_Stores = stores, op_Server = grpcSrv, op_Controllers = controllers\<rparr>, w6))))))))"




subsection \<open>Lemmas\<close>

lemma errno_pair_cases:
  obtains (Some) e w where "p = (Some e, w)" | (None) w where "p = (None, w)"
  by (metis option.exhaust surj_pair)

lemma NewServer_simps [simp]:
  "gv_Service (NewServer store ca tlsCfg) = \<lparr>gs_CA = ca\<rparr>" "gv_Store (NewServer store ca tlsCfg) = store"
  "gv_Unary (NewServer store ca tlsCfg) = [UnaryNoopInterceptor]"
  "gv_Stream (NewServer store ca tlsCfg) = [SubscribeClientCertInterceptor]"
  "gv_Creds (NewServer store ca tlsCfg) = tlsCfg"
  by (simp_all add: NewServer_def Let_def split: option.splits)

lemma serveSubscribe_rpc:
  "gv_Stream srv = [SubscribeClientCertInterceptor] \<Longrightarrow>
   serveSubscribe srv p ns name s evs = rpcSubscribe (gv_Service srv) p ns name s evs"
  by (simp add: serveSubscribe_def rpcSubscribe_def)

lemma serveEnroll_Enroll:
  "gv_Unary srv = [UnaryNoopInterceptor] \<Longrightarrow> serveEnroll C d srv req w = Enroll C d (gv_Service srv) req w"
  by (simp add: serveEnroll_def unaryNoopInterceptor_def)

lemma setupPKI_Inr:
  assumes "setupPKI C D ns w = (Inr (ca, cfg), w')"
  obtains c w1 cert key where "od_NewDirectClient D = Inr c"
    "LoadOrCreate C c ns ''coraza-operator-ca'' w = (Inr ca, w1)"
    "IssueServerCert C ca [grpcSvcName ns, grpcSvcName ns @ ''.cluster.local'', ''localhost''] [] w1 = (Inr (cert, key), w')"
    "BuildTLSConfig C ca cert key = Inr cfg"
proof -
  note s = assms [unfolded setupPKI_def]
  from s obtain c where c: "od_NewDirectClient D = Inr c" by (cases "od_NewDirectClient D") auto
  from s c obtain ca' w1 where l: "LoadOrCreate C c ns ''coraza-operator-ca'' w = (Inr ca', w1)"
    by (cases "LoadOrCreate C c ns ''coraza-operator-ca'' w" rule: result_pair_cases) simp_all
  let ?i = "IssueServerCert C ca' [grpcSvcName ns, grpcSvcName ns @ ''.cluster.local'', ''localhost''] [] w1"
  from s c l obtain ck w2 where i: "?i = (Inr ck, w2)"
    by (cases ?i rule: result_pair_cases) simp_all
  obtain cert key where ck: "ck = (cert, key)" by fastforce
  with s c l i show thesis
    using that by (simp split: sum.splits)
qed

lemma BuildTLSConfig_Inr:
  assumes "BuildTLSConfig C ca cert key = Inr cfg"
  shows "cr_AppendCertsFromPEM C (ca_CertPEM ca) = Some (tc_ClientCAs cfg)"
    and "tc_ClientAuth cfg = VerifyClientCertIfGiven" and "tc_MinVersion cfg = VersionTLS13"
  using assms by (auto simp: BuildTLSConfig_def split: sum.splits option.splits)

lemma registerControllers_Inr:
  assumes "registerControllers K D store w = (Inr cs, w')"
  shows "cs = [SecRulesReconciler, ClusterSecRulesReconciler, RuleSetReconciler store,
    EngineReconcilerWith store (operatorGRPCAddr (od_Getenv D)) (defaultEngineImage (od_Getenv D))]"
  using assms unfolding registerControllers_def by (simp split: prod.splits option.splits)

lemma main_setup_Inr:
  assumes "main_setup C K D w = (Inr op, w')"
  obtains ca cfg w1 w2 w3 flags where
    "setupPKI C D (podNamespace (od_Getenv D)) w1 = (Inr (ca, cfg), w2)"
    "op_Server op = NewServer 0 (Some ca) (Some cfg)" "op_Stores op = [NewStore]"
    "op_Controllers op = [SecRulesReconciler, ClusterSecRulesReconciler, RuleSetReconciler 0,
       EngineReconcilerWith 0 (operatorGRPCAddr (od_Getenv D)) (defaultEngineImage (od_Getenv D))]"
    "od_Listen D (grpcListenAddr (od_Getenv D)) w3 = (None, snd (od_Listen D (grpcListenAddr (od_Getenv D)) w3))"
    "parseFlags (od_ExtraFlags D) (od_Args D) = Inr flags" "op_Manager op = buildManagerOptions flags"
proof -
  obtain flags where fl: "parseFlags (od_ExtraFlags D) (od_Args D) = Inr flags"
    using assms by (cases "parseFlags (od_ExtraFlags D) (od_Args D)") (simp_all add: main_setup_def)
  let ?opts = "buildManagerOptions flags"
  let ?ns = "podNamespace (od_Getenv D)" and ?addr = "grpcListenAddr (od_Getenv D)"
  note m = assms [unfolded main_setup_def Let_def fl sum.case]
  from m obtain w1 where m1: "od_NewManager D ?opts w = (None, w1)"
    by (cases "od_NewManager D ?opts w" rule: errno_pair_cases) simp_all
  from m m1 obtain cc w2 where m2: "setupPKI C D ?ns w1 = (Inr cc, w2)"
    by (cases "setupPKI C D ?ns w1" rule: result_pair_cases) simp_all
  obtain ca cfg where cc: "cc = (ca, cfg)" by fastforce
  from m m1 m2 cc obtain w3 where m3: "od_NewForConfig D w2 = (None, w3)"
    by (cases "od_NewForConfig D w2" rule: errno_pair_cases) simp_all
  from m m1 m2 cc m3 obtain w4 where m4: "od_Listen D ?addr w3 = (None, w4)"
    by (cases "od_Listen D ?addr w3" rule: errno_pair_cases) (simp_all add: startGRPCServer_def)
  from m m1 m2 cc m3 m4 obtain cs w5 where m5: "registerControllers K D 0 w4 = (Inr cs, w5)"
    by (cases "registerControllers K D 0 w4" rule: result_pair_cases) (simp_all add: startGRPCServer_def)
  from m m1 m2 cc m3 m4 m5 have "op = \<lparr>op_Manager = ?opts, op_Stores = [NewStore],
      op_Server = NewServer 0 (Some ca) (Some cfg), op_Controllers = cs\<rparr>"
    by (cases "addHealthChecks D w5" rule: errno_pair_cases) (simp_all add: startGRPCServer_def)
  with m2 cc m4 fl registerControllers_Inr [OF m5] show thesis
    by (intro that [of w1 ca cfg w2 w3 flags]) simp_all
qed

lemma IssueServerCert_Inr:
  assumes "crypto_laws C" and "IssueServerCert C ca dns ips w = (Inr (certPEM, keyPEM), w')"
  obtains now serial pub where "certOf C certPEM = Some \<lparr>crt_Template = serverTemplate now serial dns ips,
      crt_PublicKey = pub, crt_SignerKey = cr_Public C (ca_Key ca)\<rparr>"
proof -
  note i = assms(2) [unfolded IssueServerCert_def]
  from i obtain priv w1 where g: "cr_GenerateKey C w = (Inr priv, w1)"
    by (cases "cr_GenerateKey C w" rule: result_pair_cases) simp_all
  from i g obtain serial w2 where s: "newSerial C w1 = (Inr serial, w2)"
    by (cases "newSerial C w1" rule: result_pair_cases) simp_all
  let ?create = "cr_CreateCertificate C (serverTemplate (cr_Now C w2) serial dns ips) (Issuer (ca_Cert ca))
    (cr_Public C priv) (ca_Key ca) w2"
  from i g s obtain der w3 where c: "?create = (Inr der, w3)"
    by (cases ?create rule: result_pair_cases) (simp_all add: signCert_def)
  from i g s c have "certPEM = cr_EncodePEM C pemTypeCertificate der"
    by (simp add: signCert_def split: sum.splits)
  with assms(1) parse_created [OF assms(1) c] show thesis
    by (intro that [of "cr_Now C w2" serial "cr_Public C priv"]) (simp add: certOf_def)
qed

text \<open>
  What the transport promises of a server with TLS credentials: every connection has TLS information, and each
  verified chain is not empty and ends in one of the client authorities of the configuration.
\<close>

definition tls_peer_laws :: "(('key, 'pub) GrpcServer \<Rightarrow> 'conn \<Rightarrow> 'pub AuthInfo option) \<Rightarrow> bool" where
  "tls_peer_laws peer \<longleftrightarrow>
     (\<forall>srv cfg conn. gv_Creds srv = Some cfg \<longrightarrow>
        (\<exists>chains. peer srv conn = Some (TLSInfo chains) \<and>
           (\<forall>c \<in> set chains. c \<noteq> [] \<and> last c \<in> set (tc_ClientCAs cfg))))"

lemma main_server:
  assumes "main_setup C K D w = (Inr op, w')"
  obtains ca cfg where "gs_CA (gv_Service (op_Server op)) = Some ca" "gv_Creds (op_Server op) = Some cfg"
    "cr_AppendCertsFromPEM C (ca_CertPEM ca) = Some (tc_ClientCAs cfg)" "tc_MinVersion cfg = VersionTLS13"
    "gv_Stream (op_Server op) = [SubscribeClientCertInterceptor]"
proof -
  obtain ca cfg w1 w2 where p: "setupPKI C D (podNamespace (od_Getenv D)) w1 = (Inr (ca, cfg), w2)"
    and s: "op_Server op = NewServer 0 (Some ca) (Some cfg)"
    using assms by (rule main_setup_Inr)
  obtain cert key where "BuildTLSConfig C ca cert key = Inr cfg"
    using p by (rule setupPKI_Inr)
  from BuildTLSConfig_Inr [OF this] s show thesis by (intro that) simp_all
qed

subsection \<open>Properties\<close>

text \<open>
  C12. In production every stream is authorised: once \<open>main\<close> is set up, over any connection, the server opens the
  stream of an engine exactly when the connection has a verified client certificate named after that engine, and the
  chain of that certificate then ends in a certificate of the operator's authority. The peer without TLS that the
  handlers would admit does not occur, since \<open>main\<close> never starts the server without an authority and credentials.
\<close>

theorem production_streams_authorised:
  assumes "main_setup C K D w = (Inr op, w')" and "tls_peer_laws peer"
  shows "\<exists>ca pool. gs_CA (gv_Service (op_Server op)) = Some ca \<and>
    cr_AppendCertsFromPEM C (ca_CertPEM ca) = Some pool \<and>
    ((\<exists>r. serveSubscribe (op_Server op) (peer (op_Server op) conn) ns name s evs = Inr r) \<longleftrightarrow>
     (\<exists>leaf rest others. peer (op_Server op) conn = Some (TLSInfo ((leaf # rest) # others)) \<and>
        x_CommonName (crt_Template leaf) = clientCN ns name \<and> validIdentity ns name \<and>
        last (leaf # rest) \<in> set pool))"
proof -
  obtain ca cfg where c: "gs_CA (gv_Service (op_Server op)) = Some ca" "gv_Creds (op_Server op) = Some cfg"
    "cr_AppendCertsFromPEM C (ca_CertPEM ca) = Some (tc_ClientCAs cfg)"
    "gv_Stream (op_Server op) = [SubscribeClientCertInterceptor]"
    using assms(1) by (rule main_server)
  obtain chains where p: "peer (op_Server op) conn = Some (TLSInfo chains)"
    and l: "\<forall>c \<in> set chains. c \<noteq> [] \<and> last c \<in> set (tc_ClientCAs cfg)"
    using assms(2) c(2) unfolding tls_peer_laws_def by blast
  have "last (leaf # rest) \<in> set (tc_ClientCAs cfg)" if "chains = (leaf # rest) # others" for leaf rest others
    using l that by simp
  then have "(\<exists>r. serveSubscribe (op_Server op) (peer (op_Server op) conn) ns name s evs = Inr r) \<longleftrightarrow>
      (\<exists>leaf rest others. chains = (leaf # rest) # others \<and> x_CommonName (crt_Template leaf) = clientCN ns name \<and>
         validIdentity ns name \<and> last (leaf # rest) \<in> set (tc_ClientCAs cfg))"
    unfolding serveSubscribe_rpc [OF c(4)] p rpc_open_iff [OF c(1)] by blast
  with c(1,3) show ?thesis by (simp add: p)
qed

text \<open>
  C24. One store: the server, the rule set controller and the engine controller of a set up operator hold the same
  store, which is new, and the engine controller has the address and image of the environment. So before the manager
  has started the controllers, as in a replica that waits for the leader election, a stream may be opened but
  carries no bundle.
\<close>

theorem operator_shares_one_store:
  assumes "main_setup C K D w = (Inr op, w')"
  shows "\<exists>store. gv_Store (op_Server op) = store \<and> store < length (op_Stores op) \<and> op_Stores op ! store = NewStore \<and>
    op_Controllers op = [SecRulesReconciler, ClusterSecRulesReconciler, RuleSetReconciler store,
      EngineReconcilerWith store (od_Getenv D ''OPERATOR_GRPC_ADDR'') (od_Getenv D ''DEFAULT_ENGINE_IMAGE'')] \<and>
    (\<forall>p ns name evs out s' sent. publishedFor (mkKey ns name) evs = {} \<longrightarrow>
       serveSubscribe (op_Server op) p ns name (op_Stores op ! store) evs = Inr (out, s', sent) \<longrightarrow> sent = [])"
proof -
  obtain ca cfg where o: "op_Server op = NewServer 0 (Some ca) (Some cfg)" "op_Stores op = [NewStore]"
    "op_Controllers op = [SecRulesReconciler, ClusterSecRulesReconciler, RuleSetReconciler 0,
       EngineReconcilerWith 0 (operatorGRPCAddr (od_Getenv D)) (defaultEngineImage (od_Getenv D))]"
    using assms by (rule main_setup_Inr)
  have "sent = []" if e: "publishedFor (mkKey ns name) evs = {}"
    and r: "serveSubscribe (op_Server op) p ns name NewStore evs = Inr (out, s', sent)" for p ns name evs out s' sent
  proof -
    have "Server_Subscribe (gv_Service (op_Server op)) p ns name NewStore evs = Inr (out, s', sent)"
      using r by (auto simp: serveSubscribe_rpc o(1) rpcSubscribe_def subscribeClientCertInterceptor_def
          split: sum.splits)
    with store_inv_NewStore
    have "set sent \<subseteq> toPB ` (set_option (Get NewStore (mkKey ns name)) \<union> publishedFor (mkKey ns name) evs)"
      by (rule Server_Subscribe_Inr)
    with e show ?thesis by (simp add: Get_def NewStore_def)
  qed
  then show ?thesis using o by (simp add: operatorGRPCAddr_def defaultEngineImage_def)
qed

text \<open>
  The certificate of the gRPC server: it is signed by the authority that \<open>setupPKI\<close> returns, is for server
  authentication only, is valid for one year and ten seconds from the start of the process, and a Service
  \<open>svc\<close> of the operator's namespace is one of its names exactly when \<open>svc\<close> is \<open>coraza-operator-grpc\<close>.
\<close>

theorem server_certificate_names:
  assumes "crypto_laws C" and "setupPKI C D ns w = (Inr (ca, cfg), w')"
  shows "\<exists>certPEM keyPEM pair c. cr_X509KeyPair C certPEM keyPEM = Inr pair \<and> tc_Certificates cfg = [pair] \<and>
    certOf C certPEM = Some c \<and> crt_SignerKey c = cr_Public C (ca_Key ca) \<and>
    x_ExtKeyUsage (crt_Template c) = [ServerAuth] \<and> \<not> x_IsCA (crt_Template c) \<and>
    x_NotAfter (crt_Template c) - x_NotBefore (crt_Template c) = 365 * 24 * 3600 + 10 \<and>
    (\<forall>svc. svc @ ''.'' @ ns @ ''.svc'' \<in> set (x_DNSNames (crt_Template c)) \<longleftrightarrow> svc = ''coraza-operator-grpc'')"
proof -
  let ?dns = "[grpcSvcName ns, grpcSvcName ns @ ''.cluster.local'', ''localhost'']"
  obtain w1 cert key where i: "IssueServerCert C ca ?dns [] w1 = (Inr (cert, key), w')"
    and b: "BuildTLSConfig C ca cert key = Inr cfg"
    using assms(2) by (rule setupPKI_Inr)
  obtain now serial pub where c: "certOf C cert = Some \<lparr>crt_Template = serverTemplate now serial ?dns [],
      crt_PublicKey = pub, crt_SignerKey = cr_Public C (ca_Key ca)\<rparr>"
    using assms(1) i by (rule IssueServerCert_Inr)
  have "svc @ ''.'' @ ns @ ''.svc'' \<noteq> grpcSvcName ns @ ''.cluster.local''" "svc @ ''.'' @ ns @ ''.svc'' \<noteq> ''localhost''"
    for svc
    by (rule notI, drule arg_cong [of _ _ last], simp)+
  then have "svc @ ''.'' @ ns @ ''.svc'' \<in> set ?dns \<longleftrightarrow> svc @ ''.'' @ ns @ ''.svc'' = grpcSvcName ns" for svc
    by simp
  then have n: "svc @ ''.'' @ ns @ ''.svc'' \<in> set ?dns \<longleftrightarrow> svc = ''coraza-operator-grpc''" for svc
    using append_same_eq [of svc "''.'' @ ns @ ''.svc''" "''coraza-operator-grpc''"] by (simp add: grpcSvcName_def)
  obtain pair where "cr_X509KeyPair C cert key = Inr pair" "tc_Certificates cfg = [pair]"
    using b by (auto simp: BuildTLSConfig_def split: sum.splits option.splits)
  with c n show ?thesis
    by (intro exI [of _ cert] exI [of _ key] exI [of _ pair]) (simp add: serverTemplate_def)
qed

subsection \<open>The flags\<close>

definition boolText :: "bool \<Rightarrow> string" where
  "boolText b = (if b then ''true'' else ''false'')"

lemma parseBool_boolText [simp]: "parseBool (boolText b) = Some b"
  by (simp add: parseBool_def boolText_def)

definition settingsOf :: "serverOptions \<Rightarrow> (string \<times> string) list" where
  "settingsOf opt =
     [(''metrics-bind-address'', so_metricsAddr opt), (''health-probe-bind-address'', so_probeAddr opt),
      (''leader-elect'', boolText (so_enableLeaderElection opt)), (''metrics-secure'', boolText (so_secureMetrics opt)),
      (''enable-http2'', boolText (so_enableHTTP2 opt)), (''metrics-cert-path'', so_metricsCertPath opt),
      (''metrics-cert-name'', so_metricsCertName opt), (''metrics-cert-key'', so_metricsCertKey opt),
      (''webhook-cert-path'', so_webhookCertPath opt), (''webhook-cert-name'', so_webhookCertName opt),
      (''webhook-cert-key'', so_webhookCertKey opt)]"

text \<open>Every set of options can be given on the command line, one flag per option, whatever the texts contain.\<close>

theorem flags_round_trip: "parseFlags extra (map flagArg (settingsOf opt)) = Inr opt"
proof -
  have "parseArgs (operatorFlags extra) (map flagArg (settingsOf opt)) = Parsed (settingsOf opt)"
    by (rule parseArgs_settings)
      (simp add: settingsOf_def plainFlag_def dash_def equals_def operatorFlags_def stringFlags_def boolFlags_def
        stringFlag_def boolFlag_def)
  moreover have "serverOptionsOf (settingsOf opt) = opt"
    by (simp add: serverOptionsOf_def settingsOf_def stringValue_def boolValue_def flagValue_def)
  ultimately show ?thesis by (simp add: parseFlags_def)
qed

subsection \<open>The end of the operator\<close>









text \<open>
  The manager's endpoints: whatever the flags, the metrics are behind authentication and authorisation exactly
  when they are served securely, neither the metrics nor the webhook server offers HTTP/2 unless the flag asks for
  it, and a certificate directory is used exactly when it is given. Without flags the metrics server is off, secure,
  and restricted to HTTP/1.1.
\<close>

theorem manager_endpoints_guarded:
  "(let m = buildManagerOptions opts in
     (mo_FilterProvider (mg_Metrics m) = WithAuthenticationAndAuthorization \<longleftrightarrow> mo_SecureServing (mg_Metrics m)) \<and>
     (\<forall>ps. offeredProtos (mo_TLSOpts (mg_Metrics m)) ps = (if so_enableHTTP2 opts then ps else [''http/1.1'']) \<and>
       offeredProtos (wo_TLSOpts (mg_WebhookServer m)) ps = (if so_enableHTTP2 opts then ps else [''http/1.1''])) \<and>
     mo_CertDir (mg_Metrics m) = so_metricsCertPath opts \<and> wo_CertDir (mg_WebhookServer m) = so_webhookCertPath opts \<and>
     (mo_KeyName (mg_Metrics m) = (if so_metricsCertPath opts = '''' then '''' else so_metricsCertKey opts))) \<and>
   (let m = buildManagerOptions (projr (parseFlags extra [])) in
     mo_BindAddress (mg_Metrics m) = ''0'' \<and> mo_SecureServing (mg_Metrics m) \<and> \<not> mg_LeaderElection m \<and>
     offeredProtos (mo_TLSOpts (mg_Metrics m)) [''h2'', ''http/1.1''] = [''http/1.1''])"
  by (simp add: buildManagerOptions_def parseFlags_def serverOptionsOf_def stringValue_def boolValue_def flagValue_def
      offeredProtos_def Let_def)

subsection \<open>Witnesses\<close>

definition demoServerCert :: "string Certificate" where
  "demoServerCert =
     \<lparr>crt_Template = serverTemplate 1000 7
        [grpcSvcName ''sys'', grpcSvcName ''sys'' @ ''.cluster.local'', ''localhost''] [],
      crt_PublicKey = ''pub-k'', crt_SignerKey = ''pub-k''\<rparr>"

text \<open>The cryptography of the instance, with the server's certificate added.\<close>

definition operatorCrypto :: "(demoWorld, string, string) Crypto" where
  "operatorCrypto = demoCrypto\<lparr>
     cr_CreateCertificate := (\<lambda>tmpl parent pub key w.
       (let c = \<lparr>crt_Template = tmpl, crt_PublicKey = pub, crt_SignerKey = ''pub-'' @ key\<rparr> in
        if c = demoCACert then Inr ''CA'' else if c = demoLeaf then Inr ''LEAF''
        else if c = demoServerCert then Inr ''SRV'' else Inl ''refused'', w)),
     cr_ParseCertificate := (\<lambda>der.
       if der = ''CA'' then Inr demoCACert else if der = ''LEAF'' then Inr demoLeaf
       else if der = ''SRV'' then Inr demoServerCert else Inl ''asn1'')\<rparr>"

definition demoOperator :: "demoWorld OperatorDeps" where
  "demoOperator =
     \<lparr>od_Getenv = (\<lambda>v. if v = ''POD_NAMESPACE'' then ''sys'' else if v = ''OPERATOR_GRPC_ADDR'' then ''coraza-operator-grpc.sys.svc:9443'' else ''''), od_Args = [],
      od_ExtraFlags = (\<lambda>n. None), od_NewManager = (\<lambda>opts w. (None, w)),
      od_NewDirectClient = Inr \<lparr>sc_Get = (\<lambda>k w. (Inl (NotFound ''no secret''), w)), sc_Create = (\<lambda>s w. (Inr (), w))\<rparr>,
      od_NewForConfig = (\<lambda>w. (None, w)), od_Listen = (\<lambda>a w. (None, w)), od_Complete = (\<lambda>b w. (None, w)),
      od_AddHealthzCheck = (\<lambda>n w. (None, w)), od_AddReadyzCheck = (\<lambda>n w. (None, w)), od_Start = (\<lambda>w. (None, w)),
      od_OpenStreams = (\<lambda>w. 2)\<rparr>"

definition demoTLS :: "string TLSConfig" where
  "demoTLS = \<lparr>tc_Certificates = [demoEncode pemTypeCertificate ''SRV''], tc_ClientCAs = [demoCACert],
     tc_ClientAuth = VerifyClientCertIfGiven, tc_MinVersion = VersionTLS13\<rparr>"

lemma demo_server_cert_distinct: "demoServerCert \<noteq> demoCACert" "demoServerCert \<noteq> demoLeaf"
  by (simp_all add: demoServerCert_def demoCACert_def demoLeaf_def)
    (simp_all add: serverTemplate_def caTemplate_def clientTemplate_def)

lemma operator_crypto_laws: "crypto_laws operatorCrypto"
proof -
  show ?thesis
    using demo_server_cert_distinct demo_certs_distinct
    by (auto simp: crypto_laws_def operatorCrypto_def demoCrypto_def Let_def demoDecode_Encode demoEncode_nonempty
        split: if_splits)
qed

lemma demo_setupPKI: "setupPKI operatorCrypto demoOperator ''sys'' w = (Inr (demoCA, demoTLS), w)"
proof -
  have "generateCA operatorCrypto w = (Inr demoCA, w)"
    by (simp add: generateCA_def newSerial_def operatorCrypto_def demoCrypto_def demoCA_def Let_def demoCACert_def)
  moreover have "IssueServerCert operatorCrypto demoCA
      [grpcSvcName ''sys'', grpcSvcName ''sys'' @ ''.cluster.local'', ''localhost''] [] w =
      (Inr (demoEncode pemTypeCertificate ''SRV'', demoEncode pemTypeECPrivateKey ''k''), w)"
    using demo_server_cert_distinct
    by (simp add: IssueServerCert_def newSerial_def signCert_def marshalPrivKey_def operatorCrypto_def demoCrypto_def
        demoCA_def Let_def demoServerCert_def)
  ultimately show ?thesis
    by (simp add: setupPKI_def demoOperator_def LoadOrCreate_def BuildTLSConfig_def demoTLS_def)
      (simp add: operatorCrypto_def demoCrypto_def)
qed

lemma demo_operator:
  "\<exists>op. main_setup operatorCrypto demoKube demoOperator w = (Inr op, w) \<and>
     op_Server op = NewServer 0 (Some demoCA) (Some demoTLS) \<and> op_Stores op = [NewStore]"
  by (simp add: main_setup_def Let_def podNamespace_def startGRPCServer_def registerControllers_def
      addHealthChecks_def demo_setupPKI [unfolded demoOperator_def] demoOperator_def parseFlags_def)

text \<open>Connections are named by the certificate they present, if any.\<close>

definition demoPeer :: "('key, string) GrpcServer \<Rightarrow> string Certificate option \<Rightarrow> string AuthInfo option" where
  "demoPeer srv conn =
     (case gv_Creds srv of
        None \<Rightarrow> Some InsecureInfo
      | Some cfg \<Rightarrow>
          (case conn of
             Some leaf \<Rightarrow> if demoCACert \<in> set (tc_ClientCAs cfg) then Some (TLSInfo [[leaf, demoCACert]]) else Some (TLSInfo [])
           | None \<Rightarrow> Some (TLSInfo [])))"

lemma demo_peer_laws: "tls_peer_laws demoPeer"
  by (simp add: tls_peer_laws_def demoPeer_def split: option.splits)

theorem production_streams_authorised_witness:
  "\<exists>op. main_setup operatorCrypto demoKube demoOperator emptyWorld = (Inr op, emptyWorld) \<and>
     (\<exists>r. serveSubscribe (op_Server op) (demoPeer (op_Server op) (Some demoLeaf)) ''ns'' ''e'' NewStore [] = Inr r) \<and>
     \<not> (\<exists>r. serveSubscribe (op_Server op) (demoPeer (op_Server op) None) ''ns'' ''e'' NewStore [] = Inr r)"
proof -
  obtain op where op: "main_setup operatorCrypto demoKube demoOperator emptyWorld = (Inr op, emptyWorld)"
    and s: "op_Server op = NewServer 0 (Some demoCA) (Some demoTLS)"
    using demo_operator by blast
  note a = production_streams_authorised [OF op demo_peer_laws, of _ "''ns''" "''e''" NewStore "[]"]
  have "\<exists>r. serveSubscribe (op_Server op) (demoPeer (op_Server op) (Some demoLeaf)) ''ns'' ''e'' NewStore [] = Inr r"
    using a [of "Some demoLeaf"]
    by (simp add: s demoPeer_def demoTLS_def operatorCrypto_def demoCrypto_def demoLeaf_def clientTemplate_def clientCN_def
        validIdentity_def slash_def)
  moreover have "\<not> (\<exists>r. serveSubscribe (op_Server op) (demoPeer (op_Server op) None) ''ns'' ''e'' NewStore [] = Inr r)"
    using a [of None] by (simp add: s demoPeer_def demoTLS_def)
  ultimately show ?thesis using op by blast
qed

theorem operator_shares_one_store_witness:
  "\<exists>op. main_setup operatorCrypto demoKube demoOperator emptyWorld = (Inr op, emptyWorld) \<and>
     RuleSetReconciler (gv_Store (op_Server op)) \<in> set (op_Controllers op)"
proof -
  obtain op where op: "main_setup operatorCrypto demoKube demoOperator emptyWorld = (Inr op, emptyWorld)"
    using demo_operator by blast
  from operator_shares_one_store [OF op] op show ?thesis by auto
qed

theorem server_certificate_names_witness:
  "\<exists>c. certOf operatorCrypto (demoEncode pemTypeCertificate ''SRV'') = Some c \<and>
     ''waf-grpc.sys.svc'' \<notin> set (x_DNSNames (crt_Template c))"
proof -
  obtain certPEM keyPEM pair c where c: "cr_X509KeyPair operatorCrypto certPEM keyPEM = Inr pair"
    "tc_Certificates demoTLS = [pair]" "certOf operatorCrypto certPEM = Some c"
    "\<forall>svc. svc @ ''.'' @ ''sys'' @ ''.svc'' \<in> set (x_DNSNames (crt_Template c)) \<longleftrightarrow> svc = ''coraza-operator-grpc''"
    using server_certificate_names [OF operator_crypto_laws demo_setupPKI [of emptyWorld]]
    by (elim exE conjE) (rule that)
  from c(1,2) have "certPEM = demoEncode pemTypeCertificate ''SRV''"
    by (simp add: operatorCrypto_def demoCrypto_def demoTLS_def)
  moreover have "''waf-grpc'' @ ''.'' @ ''sys'' @ ''.svc'' \<notin> set (x_DNSNames (crt_Template c))"
    unfolding c(4) [rule_format] by simp
  ultimately show ?thesis using c(3) by (intro exI [of _ c]) simp
qed


end
