(* ===== verification/Coraza.thy ===== *)
theory Coraza
  imports Go_Prelude
begin

text \<open>
  The firewall library \<open>github.com/corazawaf/coraza/v3\<close>, which is not part of the repository, as the engine's two
  front ends use it: a record of the transaction operations over a transaction state \<open>'t\<close>. A body operation
  returns an error, or an interruption if a rule asked for one.
\<close>

record Interruption =
  it_RuleID :: int
  it_Action :: string
  it_Status :: int

record ('waf, 't) Coraza =
  cz_NewTransaction :: "'waf \<Rightarrow> 't"
  cz_ID :: "'t \<Rightarrow> string"
  cz_ProcessConnection :: "string \<Rightarrow> int \<Rightarrow> string \<Rightarrow> int \<Rightarrow> 't \<Rightarrow> 't"
  cz_ProcessURI :: "string \<Rightarrow> string \<Rightarrow> string \<Rightarrow> 't \<Rightarrow> 't"
  cz_AddRequestHeader :: "string \<Rightarrow> string \<Rightarrow> 't \<Rightarrow> 't"
  cz_ProcessRequestHeaders :: "'t \<Rightarrow> Interruption option \<times> 't"
  cz_WriteRequestBody :: "string \<Rightarrow> 't \<Rightarrow> Interruption option result \<times> 't"
  cz_ProcessRequestBody :: "'t \<Rightarrow> Interruption option result \<times> 't"
  cz_AddResponseHeader :: "string \<Rightarrow> string \<Rightarrow> 't \<Rightarrow> 't"
  cz_ProcessResponseHeaders :: "int \<Rightarrow> string \<Rightarrow> 't \<Rightarrow> Interruption option \<times> 't"
  cz_WriteResponseBody :: "string \<Rightarrow> 't \<Rightarrow> Interruption option result \<times> 't"
  cz_ProcessResponseBody :: "'t \<Rightarrow> Interruption option result \<times> 't"
  cz_MatchedRules :: "'t \<Rightarrow> int list"
  cz_ProcessLogging :: "'t \<Rightarrow> 't"
  cz_Close :: "'t \<Rightarrow> string option \<times> 't"

text \<open>The deferred end of a transaction; the error of \<open>Close\<close> is only logged.\<close>

definition endTransaction :: "('waf, 't) Coraza \<Rightarrow> 't \<Rightarrow> 't" where
  "endTransaction Z t = snd (cz_Close Z (cz_ProcessLogging Z t))"

text \<open>The loops over a header map, which is given in the order in which the range visits it.\<close>

definition addHeaders :: "(string \<Rightarrow> string \<Rightarrow> 't \<Rightarrow> 't) \<Rightarrow> (string \<times> string list) list \<Rightarrow> 't \<Rightarrow> 't" where
  "addHeaders add hs tx = fold (\<lambda>(k, vals). fold (add k) vals) hs tx"

subsection \<open>The phases of an inspection\<close>

text \<open>
  The specification both front ends implement: an inspection runs its phases in order on the transaction and stops at
  the first one that fails or interrupts. It is the reference for \<open>HandleSPOE\<close> and for the proxy in blocking mode.
\<close>

datatype Verdict = Failed string | Interrupted Interruption | Passed

type_synonym 't phase = "'t \<Rightarrow> Interruption option result \<times> 't"

fun runPhases :: "'t phase list \<Rightarrow> 't \<Rightarrow> Verdict \<times> 't" where
  "runPhases [] t = (Passed, t)"
| "runPhases (p # ps) t =
     (case p t of
        (Inl err, t1) \<Rightarrow> (Failed err, t1)
      | (Inr (Some it), t1) \<Rightarrow> (Interrupted it, t1)
      | (Inr None, t1) \<Rightarrow> runPhases ps t1)"

definition headerPhase :: "('waf, 't) Coraza \<Rightarrow> 't phase" where
  "headerPhase Z t = (case cz_ProcessRequestHeaders Z t of (it, t1) \<Rightarrow> (Inr it, t1))"

text \<open>The phases of a request with an optional body that is handed to the firewall.\<close>

definition requestPhases :: "('waf, 't) Coraza \<Rightarrow> string option \<Rightarrow> 't phase list" where
  "requestPhases Z body =
     headerPhase Z # (case body of None \<Rightarrow> [] | Some b \<Rightarrow> [cz_WriteRequestBody Z b]) @ [cz_ProcessRequestBody Z]"

lemma runPhases_append:
  "runPhases (ps @ qs) t = (case runPhases ps t of (Passed, t1) \<Rightarrow> runPhases qs t1 | r \<Rightarrow> r)"
  by (induction ps arbitrary: t) (auto split: prod.splits sum.splits option.splits)

subsection \<open>An instance\<close>

text \<open>
  A transaction that records the names of the calls made on it, and a firewall that interrupts with status 0 in the
  phases it is configured with, and fails when asked to write the body \<open>boom\<close>.
\<close>

record demoTx =
  dt_log :: "string list"
  dt_rules :: "string list"

definition demoNote :: "string \<Rightarrow> demoTx \<Rightarrow> demoTx" where
  "demoNote s t = t\<lparr>dt_log := dt_log t @ [s]\<rparr>"

definition demoHit :: "string \<Rightarrow> demoTx \<Rightarrow> Interruption option" where
  "demoHit phase t =
     (if phase \<in> set (dt_rules t) then Some \<lparr>it_RuleID = 7, it_Action = ''deny'', it_Status = 0\<rparr> else None)"

definition demoCoraza :: "(string list, demoTx) Coraza" where
  "demoCoraza =
     \<lparr>cz_NewTransaction = (\<lambda>w. \<lparr>dt_log = [], dt_rules = w\<rparr>),
      cz_ID = (\<lambda>t. ''tx''),
      cz_ProcessConnection = (\<lambda>a b c d. demoNote ''conn''),
      cz_ProcessURI = (\<lambda>a b c. demoNote ''uri''),
      cz_AddRequestHeader = (\<lambda>k v. demoNote ''header''),
      cz_ProcessRequestHeaders = (\<lambda>t. (demoHit ''headers'' t, demoNote ''headers'' t)),
      cz_WriteRequestBody = (\<lambda>b t.
        (if b = ''boom'' then Inl ''write failed'' else Inr (demoHit ''write'' t), demoNote ''write'' t)),
      cz_ProcessRequestBody = (\<lambda>t. (Inr (demoHit ''body'' t), demoNote ''body'' t)),
      cz_AddResponseHeader = (\<lambda>k v. demoNote ''response header''),
      cz_ProcessResponseHeaders = (\<lambda>s p t. (demoHit ''response'' t, demoNote ''response'' t)),
      cz_WriteResponseBody = (\<lambda>b t. (Inr None, demoNote ''write response'' t)),
      cz_ProcessResponseBody = (\<lambda>t. (Inr None, demoNote ''response body'' t)),
      cz_MatchedRules = (\<lambda>t. [7, 7]),
      cz_ProcessLogging = demoNote ''logging'',
      cz_Close = (\<lambda>t. (None, demoNote ''close'' t))\<rparr>"

end
