(* ===== verification/Engine_Config.thy ===== *)
theory Engine_Config
  imports Engine_Assets
begin

text \<open>
  The engine's configuration, \<open>internal/enginepkg/config.go\<close>: \<open>FromEnv\<close> over an environment in which an unset
  variable reads as the empty string. The lemmas connect it with the environment the operator writes into the
  pod template (\<open>engineassets.go\<close>).
\<close>

definition ModeDetection :: string where "ModeDetection = ''Detection''"
definition ModeBlocking :: string where "ModeBlocking = ''Blocking''"

record Config =
  cfg_ListenAddr :: string
  cfg_UpstreamURL :: string
  cfg_Mode :: string
  cfg_RuleFilePath :: string
  cfg_MetricsAddr :: string
  cfg_OperatorAddr :: string
  cfg_EngineNamespace :: string
  cfg_EngineName :: string
  cfg_CertDir :: string
  cfg_SATokenPath :: string
  cfg_SPOAListenAddr :: string
  cfg_BundleCachePath :: string

text \<open>\<open>if v == "" { v = d }\<close>\<close>

definition orElse :: "string \<Rightarrow> string \<Rightarrow> string" where
  "orElse v d = (if v = '''' then d else v)"

definition FromEnv :: "(string \<Rightarrow> string) \<Rightarrow> Config result" where
  "FromEnv getenv =
     (let upstream = getenv ''ENGINE_UPSTREAM_URL'' in
      if upstream = '''' then Inl ''ENGINE_UPSTREAM_URL is required but not set''
      else
        (let ruleFile = getenv ''ENGINE_RULE_FILE'' in
         if ruleFile = '''' then Inl ''ENGINE_RULE_FILE is required but not set''
         else
           (let listenAddr = orElse (getenv ''ENGINE_LISTEN_ADDR'') '':8080'';
                mode = orElse (getenv ''ENGINE_MODE'') ModeDetection in
            if mode \<noteq> ModeDetection \<and> mode \<noteq> ModeBlocking
            then Inl (''ENGINE_MODE must be '' @ Quote ModeDetection @ '' or '' @ Quote ModeBlocking
                   @ '', got '' @ Quote mode)
            else
              Inr \<lparr>cfg_ListenAddr = listenAddr,
                   cfg_UpstreamURL = upstream,
                   cfg_Mode = mode,
                   cfg_RuleFilePath = ruleFile,
                   cfg_MetricsAddr = orElse (getenv ''ENGINE_METRICS_ADDR'') '':9090'',
                   cfg_OperatorAddr = getenv ''ENGINE_OPERATOR_ADDR'',
                   cfg_EngineNamespace = orElse (getenv ''ENGINE_NAMESPACE'') (getenv ''POD_NAMESPACE''),
                   cfg_EngineName = orElse (getenv ''ENGINE_NAME'') (getenv ''POD_NAME''),
                   cfg_CertDir = orElse (getenv ''ENGINE_CERT_DIR'') ''/var/lib/coraza/certs'',
                   cfg_SATokenPath = orElse (getenv ''ENGINE_SA_TOKEN'') ''/var/run/secrets/coraza/token'',
                   cfg_SPOAListenAddr = getenv ''ENGINE_SPOA_ADDR'',
                   cfg_BundleCachePath =
                     orElse (getenv ''ENGINE_BUNDLE_CACHE'') ''/var/lib/coraza/cached-bundle.conf''\<rparr>)))"

lemma FromEnv_rule_file: "FromEnv env = Inr cfg \<Longrightarrow> cfg_RuleFilePath cfg = env ''ENGINE_RULE_FILE''"
  by (auto simp: FromEnv_def Let_def split: if_splits)

subsection \<open>The environment of a pod\<close>

text \<open>
  What a container sees of the variables of its spec, in a pod of namespace \<open>ns\<close>: literals, and the namespace for
  the one field reference; the last entry of a name counts. The rest of the environment is the image's, \<open>base\<close>.
\<close>

definition envValue :: "string \<Rightarrow> EnvValue \<Rightarrow> string" where
  "envValue ns v = (case v of EnvLit s \<Rightarrow> s | EnvFieldRef f \<Rightarrow> if f = ''metadata.namespace'' then ns else '''')"

definition podEnv :: "string \<Rightarrow> EnvVar list \<Rightarrow> (string \<Rightarrow> string) \<Rightarrow> string \<Rightarrow> string" where
  "podEnv ns vars base name =
     (case map_of (rev (map (\<lambda>v. (ev_Name v, envValue ns (ev_Value v))) vars)) name of
        Some s \<Rightarrow> s | None \<Rightarrow> base name)"

text \<open>The environment of the container of a Deployment, in an image that sets none of the engine's variables.\<close>

definition containerEnv :: "Deployment \<Rightarrow> string \<Rightarrow> string" where
  "containerEnv dep =
     podEnv (om_Namespace (dp_Meta dep)) (concat (map ct_Env (pt_Containers (dp_Template dep)))) (\<lambda>_. '''')"

lemma podEnv_append:
  "podEnv ns (xs @ ys) base = podEnv ns ys (podEnv ns xs base)"
  by (auto simp: podEnv_def fun_eq_iff map_add_def split: option.splits)

lemma podEnv_simps [simp]:
  "podEnv ns [] base name = base name"
  "podEnv ns (v # vs) base name =
     podEnv ns vs (base(ev_Name v := envValue ns (ev_Value v))) name"
  by (auto simp: podEnv_def map_add_def split: option.splits)

lemma envValue_lit [simp]: "ev_Name (litEnv n v) = n" "ev_Value (litEnv n v) = EnvLit v"
  "envValue ns (EnvLit v) = v" "envValue ns (EnvFieldRef ''metadata.namespace'') = ns"
  by (simp_all add: litEnv_def envValue_def)

text \<open>What the operator's variables evaluate to, one by one.\<close>

lemma containerEnv_eq:
  "containerEnv (BuildDeployment e h op img) =
     (\<lambda>name. podEnv (en_Namespace e) (engineEnvVars e h op) (\<lambda>_. '''') name)"
  by (simp add: containerEnv_def BuildDeployment_def engineContainer_def builtMeta_def fun_eq_iff)

lemma engine_env_values:
  fixes e h op
  defines "env \<equiv> podEnv (en_Namespace e) (engineEnvVars e h op) (\<lambda>_. '''')"
  shows "env ''ENGINE_UPSTREAM_URL'' = uc_URL (es_Upstream (en_Spec e))"
    and "env ''ENGINE_RULE_FILE'' = RulesFilePath"
    and "env ''ENGINE_LISTEN_ADDR'' = ''''"
    and "env ''ENGINE_MODE'' = es_Mode (en_Spec e)"
    and "env ''ENGINE_METRICS_ADDR'' = ''''"
    and "env ''ENGINE_OPERATOR_ADDR'' = op"
    and "env ''ENGINE_NAMESPACE'' = (if op = '''' then '''' else en_Namespace e)"
    and "env ''POD_NAMESPACE'' = ''''"
    and "env ''ENGINE_NAME'' = (if op = '''' then '''' else en_Name e)"
    and "env ''POD_NAME'' = ''''"
    and "env ''ENGINE_CERT_DIR'' = ''''"
    and "env ''ENGINE_SA_TOKEN'' = ''''"
    and "env ''ENGINE_SPOA_ADDR'' =
      (if lc_SPOAPort (es_Listener (en_Spec e)) = 0 then ''''
       else '':'' @ Itoa (sint (lc_SPOAPort (es_Listener (en_Spec e)))))"
    and "env ''ENGINE_BUNDLE_CACHE'' = ''''"
  by (simp_all add: env_def engineEnvVars_def podEnv_append)

lemma Itoa_int32_inject: "Itoa (sint p) = Itoa (sint q) \<longleftrightarrow> p = (q :: int32)"
  by (metis Itoa_inject signed_word_eqI)

lemma Itoa_8080: "Itoa 8080 = ''8080''"
  by (simp add: Itoa_def natDigits.simps digitChar_def char_of_def bit_Suc_0_iff)

text \<open>The configuration an engine reads from the environment of its Deployment.\<close>

definition deployedConfig :: "Engine \<Rightarrow> string \<Rightarrow> Config" where
  "deployedConfig e op =
     \<lparr>cfg_ListenAddr = '':8080'',
      cfg_UpstreamURL = uc_URL (es_Upstream (en_Spec e)),
      cfg_Mode = orElse (es_Mode (en_Spec e)) ModeDetection,
      cfg_RuleFilePath = RulesFilePath,
      cfg_MetricsAddr = '':9090'',
      cfg_OperatorAddr = op,
      cfg_EngineNamespace = (if op = '''' then '''' else en_Namespace e),
      cfg_EngineName = (if op = '''' then '''' else en_Name e),
      cfg_CertDir = ''/var/lib/coraza/certs'',
      cfg_SATokenPath = ''/var/run/secrets/coraza/token'',
      cfg_SPOAListenAddr =
        (if lc_SPOAPort (es_Listener (en_Spec e)) = 0 then ''''
         else '':'' @ Itoa (sint (lc_SPOAPort (es_Listener (en_Spec e))))),
      cfg_BundleCachePath = ''/var/lib/coraza/cached-bundle.conf''\<rparr>"

lemma FromEnv_deployment:
  assumes "uc_URL (es_Upstream (en_Spec e)) \<noteq> ''''"
    and "es_Mode (en_Spec e) \<in> {'''', EngineModeDetection, EngineModeBlocking}"
  shows "FromEnv (containerEnv (BuildDeployment e h op img)) = Inr (deployedConfig e op)"
proof -
  have "RulesFilePath \<noteq> ''''" by (simp add: RulesFilePath_def RulesConfigMapMountPath_def)
  moreover have "orElse (es_Mode (en_Spec e)) ModeDetection \<in> {ModeDetection, ModeBlocking}"
    using assms(2) by (auto simp: orElse_def EngineModeDetection_def EngineModeBlocking_def ModeDetection_def
        ModeBlocking_def)
  ultimately show ?thesis
    using assms(1) unfolding containerEnv_eq FromEnv_def Let_def engine_env_values
    by (auto simp: orElse_def deployedConfig_def)
qed

subsection \<open>Properties\<close>

text \<open>
  The operator configures the engine it deploys: when the spec has an upstream and a known mode, the engine
  started with the environment of its Deployment accepts it, and runs with that upstream, that mode (detection by
  default), the mounted rule file, the mounted token, a certificate directory on the writable volume, its own
  identity when an operator address is given, and the SPOA address of the spec.
\<close>

theorem deployment_configures_engine:
  assumes "uc_URL (es_Upstream (en_Spec e)) \<noteq> ''''"
    and "es_Mode (en_Spec e) \<in> {'''', EngineModeDetection, EngineModeBlocking}"
  shows "\<exists>cfg. FromEnv (containerEnv (BuildDeployment e h op img)) = Inr cfg \<and>
    cfg_UpstreamURL cfg = uc_URL (es_Upstream (en_Spec e)) \<and>
    cfg_Mode cfg = (if es_Mode (en_Spec e) = '''' then EngineModeDetection else es_Mode (en_Spec e)) \<and>
    cfg_RuleFilePath cfg = RulesConfigMapMountPath @ ''/'' @ RulesConfigMapKey \<and>
    cfg_SATokenPath cfg = SATokenFile \<and>
    cfg_CertDir cfg = CertStateMountPath @ ''/certs'' \<and>
    cfg_BundleCachePath cfg = CertStateMountPath @ ''/cached-bundle.conf'' \<and>
    cfg_OperatorAddr cfg = op \<and>
    (op = '''' \<or> cfg_EngineNamespace cfg = en_Namespace e \<and> cfg_EngineName cfg = en_Name e) \<and>
    cfg_SPOAListenAddr cfg =
      (if lc_SPOAPort (es_Listener (en_Spec e)) = 0 then ''''
       else '':'' @ Itoa (sint (lc_SPOAPort (es_Listener (en_Spec e)))))"
  unfolding FromEnv_deployment [OF assms]
  by (simp add: deployedConfig_def orElse_def ModeDetection_def EngineModeDetection_def RulesFilePath_def
      SATokenFile_def SATokenMountPath_def CertStateMountPath_def)

text \<open>
  The port of the spec does not reach the engine: its listener is always \<open>:8080\<close>, so the container port, the
  probes and the Service, which follow the spec, agree with it exactly when the spec's port is 0 or 8080.
\<close>

theorem listener_port_not_configured:
  assumes "FromEnv (containerEnv (BuildDeployment e h op img)) = Inr cfg"
  shows "cfg_ListenAddr cfg = '':8080'' \<and>
    ((\<forall>c \<in> set (pt_Containers (dp_Template (BuildDeployment e h op img))). \<forall>p.
        ct_ReadinessProbe c = Some p \<longrightarrow> '':'' @ Itoa (sint (pr_Port p)) = cfg_ListenAddr cfg) \<longleftrightarrow>
     lc_Port (es_Listener (en_Spec e)) \<in> {0, 8080})"
proof -
  have l: "cfg_ListenAddr cfg = '':8080''"
    using assms unfolding containerEnv_eq
    by (auto simp: FromEnv_def Let_def engine_env_values orElse_def split: if_splits)
  have "'':'' @ Itoa (sint (enginePort e)) = '':8080'' \<longleftrightarrow> enginePort e = 8080"
    using Itoa_int32_inject [of "enginePort e" 8080] by (simp add: Itoa_8080)
  then show ?thesis
    using l by (auto simp: BuildDeployment_def engineContainer_def enginePort_def defaultListenerPort_def)
qed

subsection \<open>Witnesses\<close>

definition demoSpecEngine :: "int32 \<Rightarrow> Engine" where
  "demoSpecEngine port =
     \<lparr>en_Meta = \<lparr>om_Name = ''e'', om_Namespace = ''ns'', om_Generation = 1, om_ResourceVersion = '''',
        om_Labels = Map.empty, om_Annotations = Map.empty, om_OwnerReferences = []\<rparr>,
      en_Spec =
        \<lparr>es_Type = EngineTypeCorazaHTTP, es_RuleSetRef = ''r'', es_Replicas = None, es_Image = None,
         es_Listener = \<lparr>lc_Port = port, lc_ProxyProtocol = False, lc_SPOAPort = 0\<rparr>,
         es_Upstream = \<lparr>uc_URL = ''http://backend''\<rparr>, es_Mode = EngineModeBlocking,
         es_Resources = \<lparr>rr_Limits = Map.empty, rr_Requests = Map.empty\<rparr>\<rparr>,
      en_Status = \<lparr>et_Conditions = [], et_ObservedGeneration = 0, et_ReadyReplicas = 0,
                   et_AppliedRuleSetHash = ''''\<rparr>\<rparr>"

theorem deployment_configures_engine_witness:
  "\<exists>cfg. FromEnv (containerEnv (BuildDeployment (demoSpecEngine 0) ''h'' ''operator:9443'' '''')) = Inr cfg \<and>
     cfg_UpstreamURL cfg = ''http://backend'' \<and> cfg_Mode cfg = ''Blocking'' \<and> cfg_EngineName cfg = ''e''"
  using deployment_configures_engine [of "demoSpecEngine 0" "''h''" "''operator:9443''" "''''"]
  by (auto simp: demoSpecEngine_def EngineModeBlocking_def)

theorem listener_port_not_configured_witness:
  "\<exists>cfg. FromEnv (containerEnv (BuildDeployment (demoSpecEngine 9000) ''h'' '''' '''')) = Inr cfg \<and>
     cfg_ListenAddr cfg = '':8080'' \<and>
     \<not> (\<forall>c \<in> set (pt_Containers (dp_Template (BuildDeployment (demoSpecEngine 9000) ''h'' '''' ''''))). \<forall>p.
        ct_ReadinessProbe c = Some p \<longrightarrow> '':'' @ Itoa (sint (pr_Port p)) = cfg_ListenAddr cfg)"
proof -
  obtain cfg where c: "FromEnv (containerEnv (BuildDeployment (demoSpecEngine 9000) ''h'' '''' '''')) = Inr cfg"
    using FromEnv_deployment [of "demoSpecEngine 9000"] by (simp add: demoSpecEngine_def)
  have "lc_Port (es_Listener (en_Spec (demoSpecEngine 9000))) \<notin> {0, 8080}" by (simp add: demoSpecEngine_def)
  with listener_port_not_configured [OF c] c show ?thesis by blast
qed

end
