(* ===== verification/Proxy.thy ===== *)
theory Proxy
  imports Coraza Engine_Config
begin

text \<open>
  The reverse proxy of the engine, \<open>internal/enginepkg/proxy.go\<close>: the inspection of a request and of the recorded
  response, the answers the engine gives itself, the recorder and the metrics. The server's \<open>ResponseWriter\<close> is
  modelled as \<open>net/http\<close> implements it (informational statuses are not final, an invalid status panics, a body write
  without a status sends 200). The reverse proxy of the standard library talks to the upstream over the network: it is
  the argument \<open>rp\<close>, which turns a request into the calls it makes on the recorder and whether it aborted by a panic.
  The lemmas show that the proxy implements the phases, answers every request once, relays the response of the upstream
  unchanged in detection mode, and replaces it in blocking mode exactly when its headers are interrupted.
\<close>

subsection \<open>Requests, the response writer and the recorder\<close>

type_synonym HttpHeader = "(string \<times> string list) list"

text \<open>A body: the bytes it yields, and the error a further read reports instead of the end of the stream.\<close>

type_synonym BodyReader = "string \<times> string option"

record HttpRequest =
  rq_RemoteAddr :: string
  rq_Host :: string
  rq_RequestURI :: string
  rq_Method :: string
  rq_Proto :: string
  rq_Header :: HttpHeader
  rq_ContentLength :: int
  rq_Body :: "BodyReader option"

definition requestBodyLimit :: nat where
  "requestBodyLimit = 1 * 1024 * 1024"

definition ReadAllLimited :: "nat \<Rightarrow> BodyReader \<Rightarrow> string result" where
  "ReadAllLimited limit b =
     (if length (fst b) \<ge> limit then Inr (take limit (fst b))
      else case snd b of Some err \<Rightarrow> Inl err | None \<Rightarrow> Inr (fst b))"

record ResponseWriter =
  rw_Header :: "(string \<times> string) list"
  rw_Info :: "int list"
  rw_Status :: "int option"
  rw_Body :: string
  rw_Panic :: bool

definition newResponseWriter :: ResponseWriter where
  "newResponseWriter = \<lparr>rw_Header = [], rw_Info = [], rw_Status = None, rw_Body = '''', rw_Panic = False\<rparr>"

definition WriteHeader :: "int \<Rightarrow> ResponseWriter \<Rightarrow> ResponseWriter" where
  "WriteHeader code w =
     (if rw_Status w \<noteq> None then w
      else if code < 100 \<or> code > 999 then w\<lparr>rw_Panic := True\<rparr>
      else if code \<le> 199 \<and> code \<noteq> 101 then w\<lparr>rw_Info := rw_Info w @ [code]\<rparr>
      else w\<lparr>rw_Status := Some code\<rparr>)"

definition bodyAllowedForStatus :: "int \<Rightarrow> bool" where
  "bodyAllowedForStatus status \<longleftrightarrow> \<not> (100 \<le> status \<and> status \<le> 199) \<and> status \<noteq> 204 \<and> status \<noteq> 304"

definition WriteBody :: "string \<Rightarrow> ResponseWriter \<Rightarrow> ResponseWriter" where
  "WriteBody b w =
     (let w1 = (if rw_Status w = None then WriteHeader 200 w else w) in
      case rw_Status w1 of
        Some s \<Rightarrow> if bodyAllowedForStatus s then w1\<lparr>rw_Body := rw_Body w1 @ b\<rparr> else w1
      | None \<Rightarrow> w1)"

definition headerSet :: "string \<Rightarrow> string \<Rightarrow> ResponseWriter \<Rightarrow> ResponseWriter" where
  "headerSet k v w = w\<lparr>rw_Header := filter (\<lambda>p. fst p \<noteq> k) (rw_Header w) @ [(k, v)]\<rparr>"

definition headerDel :: "string \<Rightarrow> ResponseWriter \<Rightarrow> ResponseWriter" where
  "headerDel k w = w\<lparr>rw_Header := filter (\<lambda>p. fst p \<noteq> k) (rw_Header w)\<rparr>"

definition headerAdd :: "string \<Rightarrow> string \<Rightarrow> ResponseWriter \<Rightarrow> ResponseWriter" where
  "headerAdd k v w = w\<lparr>rw_Header := rw_Header w @ [(k, v)]\<rparr>"

text \<open>\<open>http.Error\<close>: a panic in \<open>WriteHeader\<close> leaves the body unwritten.\<close>

definition HttpError :: "string \<Rightarrow> int \<Rightarrow> ResponseWriter \<Rightarrow> ResponseWriter" where
  "HttpError msg code w =
     (let w1 = WriteHeader code (headerSet ''X-Content-Type-Options'' ''nosniff''
                (headerSet ''Content-Type'' ''text/plain; charset=utf-8'' (headerDel ''Content-Length'' w)))
      in if rw_Panic w1 then w1 else WriteBody (msg @ [nl]) w1)"

record responseRecorder =
  rec_header :: HttpHeader
  rec_status :: int
  rec_body :: string

definition newResponseRecorder :: responseRecorder where
  "newResponseRecorder = \<lparr>rec_header = [], rec_status = 200, rec_body = ''''\<rparr>"

text \<open>The calls made on a recorder; \<open>RecHeader h\<close> stands for a change of the header map to \<open>h\<close>.\<close>

datatype RecorderCall = RecHeader HttpHeader | RecWriteHeader int | RecWrite string

fun recorderStep :: "RecorderCall \<Rightarrow> responseRecorder \<Rightarrow> responseRecorder" where
  "recorderStep (RecHeader h) r = r\<lparr>rec_header := h\<rparr>"
| "recorderStep (RecWriteHeader s) r = r\<lparr>rec_status := s\<rparr>"
| "recorderStep (RecWrite b) r = r\<lparr>rec_body := rec_body r @ b\<rparr>"

subsection \<open>The engine's own answers\<close>

record proxyEnv =
  px_w :: ResponseWriter
  px_outcomes :: "string list"
  px_latencies :: nat

definition countOutcome :: "string \<Rightarrow> proxyEnv \<Rightarrow> proxyEnv" where
  "countOutcome l e = e\<lparr>px_outcomes := px_outcomes e @ [l]\<rparr>"

definition observeLatency :: "proxyEnv \<Rightarrow> proxyEnv" where
  "observeLatency e = e\<lparr>px_latencies := px_latencies e + 1\<rparr>"

definition respond :: "(ResponseWriter \<Rightarrow> ResponseWriter) \<Rightarrow> proxyEnv \<Rightarrow> proxyEnv" where
  "respond f e = e\<lparr>px_w := f (px_w e)\<rparr>"

definition internalError :: "proxyEnv \<Rightarrow> bool \<times> proxyEnv" where
  "internalError e = (True, respond (HttpError ''internal server error'' 500) (countOutcome ''error'' e))"

definition blockOrDetect :: "string \<Rightarrow> Interruption \<Rightarrow> proxyEnv \<Rightarrow> proxyEnv" where
  "blockOrDetect mode it e =
     (let status = (if it_Status it = 0 then 403 else it_Status it) in
      if mode = ModeBlocking
      then respond (HttpError ''request blocked by WAF'' status) (observeLatency (countOutcome ''blocked'' e))
      else e)"

subsection \<open>The inspections\<close>

definition addRequestHeaders :: "('waf, 't) Coraza \<Rightarrow> HttpRequest \<Rightarrow> 't \<Rightarrow> 't" where
  "addRequestHeaders Z r tx =
     (let tx1 = addHeaders (cz_AddRequestHeader Z) (rq_Header r) tx in
      if rq_Host r \<noteq> '''' then cz_AddRequestHeader Z ''Host'' (rq_Host r) tx1 else tx1)"

record 't inspection =
  in_stop :: bool
  in_request :: HttpRequest
  in_tx :: 't
  in_env :: proxyEnv

definition stopRequest :: "HttpRequest \<Rightarrow> 't \<Rightarrow> bool \<times> proxyEnv \<Rightarrow> 't inspection" where
  "stopRequest r tx p = \<lparr>in_stop = fst p, in_request = r, in_tx = tx, in_env = snd p\<rparr>"

text \<open>From \<open>ProcessRequestBody\<close> to the end of \<open>inspectRequest\<close>.\<close>

definition inspectProcess :: "('waf, 't) Coraza \<Rightarrow> string \<Rightarrow> HttpRequest \<Rightarrow> 't \<Rightarrow> proxyEnv \<Rightarrow> 't inspection" where
  "inspectProcess Z mode r tx e =
     (case cz_ProcessRequestBody Z tx of
        (Inl err, tx1) \<Rightarrow> stopRequest r tx1 (internalError e)
      | (Inr (Some it), tx1) \<Rightarrow> stopRequest r tx1 (mode = ModeBlocking, blockOrDetect mode it e)
      | (Inr None, tx1) \<Rightarrow> stopRequest r tx1 (False, e))"

text \<open>Phase 2.\<close>

definition inspectBody :: "('waf, 't) Coraza \<Rightarrow> string \<Rightarrow> HttpRequest \<Rightarrow> 't \<Rightarrow> proxyEnv \<Rightarrow> 't inspection" where
  "inspectBody Z mode r tx e =
     (case rq_Body r of
        None \<Rightarrow> inspectProcess Z mode r tx e
      | Some rd \<Rightarrow>
          (case ReadAllLimited requestBodyLimit rd of
             Inl err \<Rightarrow> stopRequest r tx (internalError e)
           | Inr body \<Rightarrow>
               (let r1 = r\<lparr>rq_Body := Some (body, None)\<rparr> in
                case cz_WriteRequestBody Z body tx of
                  (Inl err, tx1) \<Rightarrow> stopRequest r1 tx1 (internalError e)
                | (Inr (Some it), tx1) \<Rightarrow>
                    (let e1 = blockOrDetect mode it e in
                     if mode = ModeBlocking then stopRequest r1 tx1 (True, e1) else inspectProcess Z mode r1 tx1 e1)
                | (Inr None, tx1) \<Rightarrow> inspectProcess Z mode r1 tx1 e)))"

definition inspectRequest :: "('waf, 't) Coraza \<Rightarrow> string \<Rightarrow> HttpRequest \<Rightarrow> 't \<Rightarrow> proxyEnv \<Rightarrow> 't inspection" where
  "inspectRequest Z mode r tx e =
     (let tx1 = addRequestHeaders Z r (cz_ProcessURI Z (rq_RequestURI r) (rq_Method r) (rq_Proto r)
                  (cz_ProcessConnection Z (rq_RemoteAddr r) 0 (rq_Host r) 0 tx))
      in case cz_ProcessRequestHeaders Z tx1 of
           (Some it, tx2) \<Rightarrow>
             (let e1 = blockOrDetect mode it e in
              if mode = ModeBlocking then stopRequest r tx2 (True, e1) else inspectBody Z mode r tx2 e1)
         | (None, tx2) \<Rightarrow> inspectBody Z mode r tx2 e)"

text \<open>The errors of phase 5 are logged; its interruptions are ignored.\<close>

definition inspectResponse :: "('waf, 't) Coraza \<Rightarrow> string \<Rightarrow> responseRecorder \<Rightarrow> 't \<Rightarrow> proxyEnv \<Rightarrow> bool \<times> 't \<times> proxyEnv" where
  "inspectResponse Z mode rcd tx e =
     (let tx1 = addHeaders (cz_AddResponseHeader Z) (rec_header rcd) tx in
      case cz_ProcessResponseHeaders Z (rec_status rcd) ''HTTP/1.1'' tx1 of
        (respIt, tx2) \<Rightarrow>
          if respIt \<noteq> None \<and> mode = ModeBlocking
          then (True, tx2, respond (HttpError ''response blocked by WAF'' 403) (observeLatency (countOutcome ''blocked'' e)))
          else (False, snd (cz_ProcessResponseBody Z (snd (cz_WriteResponseBody Z (rec_body rcd) tx2))), e))"

definition flushRecorded :: "responseRecorder \<Rightarrow> ResponseWriter \<Rightarrow> ResponseWriter" where
  "flushRecorded rcd w =
     (let w1 = WriteHeader (rec_status rcd) (fold (\<lambda>(k, vals). fold (headerAdd k) vals) (rec_header rcd) w)
      in if rw_Panic w1 then w1 else WriteBody (rec_body rcd) w1)"

record 't handled =
  ha_env :: proxyEnv
  ha_tx :: 't
  ha_forwarded :: "HttpRequest option"
  ha_aborted :: bool

type_synonym reverseProxy = "HttpRequest \<Rightarrow> RecorderCall list \<times> bool"

definition finishProxy :: "('waf, 't) Coraza \<Rightarrow> proxyEnv \<Rightarrow> 't \<Rightarrow> HttpRequest option \<Rightarrow> bool \<Rightarrow> 't handled" where
  "finishProxy Z e tx fwd ab = \<lparr>ha_env = e, ha_tx = endTransaction Z tx, ha_forwarded = fwd, ha_aborted = ab\<rparr>"

definition BuildHandler ::
  "('waf, 't) Coraza \<Rightarrow> 'waf \<Rightarrow> reverseProxy \<Rightarrow> string \<Rightarrow> HttpRequest \<Rightarrow> proxyEnv \<Rightarrow> 't handled" where
  "BuildHandler Z waf rp mode r e =
     (let i = inspectRequest Z mode r (cz_NewTransaction Z waf) e in
      if in_stop i then finishProxy Z (in_env i) (in_tx i) None False
      else
        (let (calls, aborted) = rp (in_request i);
             rcd = fold recorderStep calls newResponseRecorder
         in if aborted then finishProxy Z (in_env i) (in_tx i) (Some (in_request i)) True
            else
              (case inspectResponse Z mode rcd (in_tx i) (in_env i) of
                 (True, tx2, e2) \<Rightarrow> finishProxy Z e2 tx2 (Some (in_request i)) False
               | (False, tx2, e2) \<Rightarrow>
                   (let e3 = respond (flushRecorded rcd) e2 in
                    finishProxy Z (if rw_Panic (px_w e3) then e3 else observeLatency (countOutcome ''allowed'' e3)) tx2
                      (Some (in_request i)) False))))"

subsection \<open>The inspection of a request follows the phases\<close>

definition proxyStart :: "('waf, 't) Coraza \<Rightarrow> HttpRequest \<Rightarrow> 't \<Rightarrow> 't" where
  "proxyStart Z r tx = addRequestHeaders Z r (cz_ProcessURI Z (rq_RequestURI r) (rq_Method r) (rq_Proto r)
     (cz_ProcessConnection Z (rq_RemoteAddr r) 0 (rq_Host r) 0 tx))"

text \<open>A body that cannot be read is a phase that fails.\<close>

definition bodyPhases :: "('waf, 't) Coraza \<Rightarrow> HttpRequest \<Rightarrow> 't phase list" where
  "bodyPhases Z r =
     (case rq_Body r of
        None \<Rightarrow> []
      | Some rd \<Rightarrow> (case ReadAllLimited requestBodyLimit rd of
                      Inl err \<Rightarrow> [\<lambda>t. (Inl err, t)]
                    | Inr b \<Rightarrow> [cz_WriteRequestBody Z b]))"

definition proxyPhases :: "('waf, 't) Coraza \<Rightarrow> HttpRequest \<Rightarrow> 't phase list" where
  "proxyPhases Z r = headerPhase Z # bodyPhases Z r @ [cz_ProcessRequestBody Z]"

lemma proxyPhases_readable:
  "proxyPhases Z r = requestPhases Z (map_option (\<lambda>rd. projr (ReadAllLimited requestBodyLimit rd)) (rq_Body r))"
  if "\<And>rd. rq_Body r = Some rd \<Longrightarrow> \<exists>b. ReadAllLimited requestBodyLimit rd = Inr b"
  using that by (force simp: proxyPhases_def requestPhases_def bodyPhases_def split: option.splits)

text \<open>The request as it is forwarded.\<close>

definition limitedRequest :: "HttpRequest \<Rightarrow> HttpRequest" where
  "limitedRequest r =
     (case rq_Body r of
        None \<Rightarrow> r
      | Some rd \<Rightarrow> (case ReadAllLimited requestBodyLimit rd of Inl err \<Rightarrow> r | Inr b \<Rightarrow> r\<lparr>rq_Body := Some (b, None)\<rparr>))"

definition verdictEnv :: "string \<Rightarrow> Verdict \<Rightarrow> proxyEnv \<Rightarrow> proxyEnv" where
  "verdictEnv mode v e =
     (case v of Failed err \<Rightarrow> snd (internalError e) | Interrupted it \<Rightarrow> blockOrDetect mode it e | Passed \<Rightarrow> e)"

definition inspectionOf :: "HttpRequest \<Rightarrow> proxyEnv \<Rightarrow> Verdict \<times> 't \<Rightarrow> 't inspection \<Rightarrow> bool" where
  "inspectionOf r e res i \<longleftrightarrow>
     (case res of (v, t) \<Rightarrow>
        in_tx i = t \<and> in_stop i = (v \<noteq> Passed) \<and> in_env i = verdictEnv ModeBlocking v e
        \<and> (v = Passed \<longrightarrow> in_request i = limitedRequest r))"

lemmas inspection_defs = inspectionOf_def stopRequest_def verdictEnv_def internalError_def

lemma inspectProcess_blocking:
  assumes "limitedRequest r = r1"
  shows "inspectionOf r e (runPhases [cz_ProcessRequestBody Z] tx) (inspectProcess Z ModeBlocking r1 tx e)"
  using assms by (auto simp: inspectProcess_def inspection_defs split: prod.split sum.split option.split)

lemma inspectBody_blocking:
  "inspectionOf r e (runPhases (bodyPhases Z r @ [cz_ProcessRequestBody Z]) tx) (inspectBody Z ModeBlocking r tx e)"
proof (cases "rq_Body r")
  case None
  then show ?thesis
    using inspectProcess_blocking [of r r e Z tx] by (simp add: limitedRequest_def bodyPhases_def inspectBody_def)
next
  case (Some rd)
  show ?thesis
  proof (cases "ReadAllLimited requestBodyLimit rd" rule: result_cases)
    case (error err)
    with Some show ?thesis
      by (simp add: bodyPhases_def inspectBody_def inspection_defs)
  next
    case (ok b)
    define r1 where "r1 = r\<lparr>rq_Body := Some (b, None)\<rparr>"
    have l: "limitedRequest r = r1" by (simp add: limitedRequest_def Some ok r1_def)
    show ?thesis
    proof (cases "cz_WriteRequestBody Z b tx" rule: result_pair_cases)
      case (error err t)
      with Some ok show ?thesis
        by (simp add: bodyPhases_def inspectBody_def inspection_defs)
    next
      case (ok x t)
      with Some \<open>ReadAllLimited requestBodyLimit rd = Inr b\<close> l show ?thesis
        using inspectProcess_blocking [OF l, of e Z t]
        by (cases x) (simp_all add: bodyPhases_def inspectBody_def inspection_defs r1_def [symmetric])
    qed
  qed
qed

lemma inspectRequest_blocking:
  "inspectionOf r e (runPhases (proxyPhases Z r) (proxyStart Z r tx)) (inspectRequest Z ModeBlocking r tx e)"
proof (cases "cz_ProcessRequestHeaders Z (proxyStart Z r tx)")
  case (Pair it t)
  then show ?thesis
    using inspectBody_blocking [of r e Z t]
    by (cases it) (simp_all add: proxyPhases_def headerPhase_def inspectRequest_def proxyStart_def [symmetric] inspection_defs)
qed

subsection \<open>Detection mode runs through the interruptions\<close>

fun runThrough :: "'t phase list \<Rightarrow> 't \<Rightarrow> string option \<times> 't" where
  "runThrough [] t = (None, t)"
| "runThrough (p # ps) t =
     (case p t of (Inl err, t1) \<Rightarrow> (Some err, t1) | (Inr it, t1) \<Rightarrow> runThrough ps t1)"

lemma blockOrDetect_detection [simp]: "mode \<noteq> ModeBlocking \<Longrightarrow> blockOrDetect mode it e = e"
  by (simp add: blockOrDetect_def Let_def)

definition detectionOf :: "HttpRequest \<Rightarrow> proxyEnv \<Rightarrow> string option \<times> 't \<Rightarrow> 't inspection \<Rightarrow> bool" where
  "detectionOf r e res i \<longleftrightarrow>
     (case res of (err, t) \<Rightarrow>
        in_tx i = t \<and> in_stop i = (err \<noteq> None) \<and> in_env i = (if err = None then e else snd (internalError e))
        \<and> (err = None \<longrightarrow> in_request i = limitedRequest r))"

lemma inspectProcess_detection:
  assumes "limitedRequest r = r1" "mode \<noteq> ModeBlocking"
  shows "detectionOf r e (runThrough [cz_ProcessRequestBody Z] tx) (inspectProcess Z mode r1 tx e)"
  using assms
  by (auto simp: inspectProcess_def detectionOf_def stopRequest_def internalError_def split: prod.split sum.split option.split)

lemma inspectBody_detection:
  assumes "mode \<noteq> ModeBlocking"
  shows "detectionOf r e (runThrough (bodyPhases Z r @ [cz_ProcessRequestBody Z]) tx) (inspectBody Z mode r tx e)"
proof (cases "rq_Body r")
  case None
  then show ?thesis
    using inspectProcess_detection [of r r mode e Z tx] assms
    by (simp add: limitedRequest_def bodyPhases_def inspectBody_def)
next
  case (Some rd)
  show ?thesis
  proof (cases "ReadAllLimited requestBodyLimit rd" rule: result_cases)
    case (error err)
    with Some show ?thesis
      by (simp add: bodyPhases_def inspectBody_def detectionOf_def stopRequest_def internalError_def)
  next
    case (ok b)
    define r1 where "r1 = r\<lparr>rq_Body := Some (b, None)\<rparr>"
    have l: "limitedRequest r = r1" by (simp add: limitedRequest_def Some ok r1_def)
    show ?thesis
      using Some ok assms inspectProcess_detection [OF l assms, of e Z]
      by (cases "cz_WriteRequestBody Z b tx" rule: result_pair_cases)
        (auto simp: bodyPhases_def inspectBody_def detectionOf_def stopRequest_def internalError_def Let_def
          r1_def [symmetric] split: option.split)
  qed
qed

lemma inspectRequest_detection:
  assumes "mode \<noteq> ModeBlocking"
  shows "detectionOf r e (runThrough (proxyPhases Z r) (proxyStart Z r tx)) (inspectRequest Z mode r tx e)"
proof (cases "cz_ProcessRequestHeaders Z (proxyStart Z r tx)")
  case (Pair it t)
  then show ?thesis
    using inspectBody_detection [OF assms, of r e Z t] assms
    by (cases it) (simp_all add: proxyPhases_def headerPhase_def inspectRequest_def proxyStart_def [symmetric])
qed

subsection \<open>What the client receives\<close>

definition freshEnv :: proxyEnv where
  "freshEnv = \<lparr>px_w = newResponseWriter, px_outcomes = [], px_latencies = 0\<rparr>"

text \<open>The final status \<open>net/http\<close> sends for a \<open>WriteHeader\<close> with a code and a body; none if it panics.\<close>

definition finalStatus :: "int \<Rightarrow> int option" where
  "finalStatus code =
     (if code < 100 \<or> code > 999 then None else if code \<le> 199 \<and> code \<noteq> 101 then Some 200 else Some code)"

lemmas writer_defs = WriteHeader_def WriteBody_def headerSet_def headerDel_def HttpError_def finalStatus_def
  bodyAllowedForStatus_def Let_def

lemma HttpError_fresh:
  assumes "rw_Status w = None" "\<not> rw_Panic w"
  shows "rw_Status (HttpError msg code w) = finalStatus code"
    and "rw_Panic (HttpError msg code w) \<longleftrightarrow> finalStatus code = None"
    and "bodyAllowedForStatus (the (finalStatus code)) \<Longrightarrow> finalStatus code \<noteq> None \<Longrightarrow>
      rw_Body (HttpError msg code w) = rw_Body w @ msg @ [nl]"
  using assms by (auto simp: writer_defs)

lemmas env_defs = freshEnv_def newResponseWriter_def respond_def countOutcome_def observeLatency_def

lemma BuildHandler_stopped:
  assumes "in_stop (inspectRequest Z mode r (cz_NewTransaction Z waf) e)"
  shows "BuildHandler Z waf rp mode r e =
    finishProxy Z (in_env (inspectRequest Z mode r (cz_NewTransaction Z waf) e))
      (in_tx (inspectRequest Z mode r (cz_NewTransaction Z waf) e)) None False"
  using assms by (simp add: BuildHandler_def Let_def)

lemma BuildHandler_blocking:
  assumes "runPhases (proxyPhases Z r) (proxyStart Z r (cz_NewTransaction Z waf)) = (v, tx)" "v \<noteq> Passed"
  shows "BuildHandler Z waf rp ModeBlocking r e = finishProxy Z (verdictEnv ModeBlocking v e) tx None False"
  using inspectRequest_blocking [of r e Z "cz_NewTransaction Z waf"] assms
    BuildHandler_stopped [of Z ModeBlocking r waf e rp]
  by (simp add: inspectionOf_def)

lemma BuildHandler_passed:
  assumes "i = inspectRequest Z mode r (cz_NewTransaction Z waf) e" "\<not> in_stop i"
  shows "ha_forwarded (BuildHandler Z waf rp mode r e) = Some (in_request i)"
  using assms by (auto simp: BuildHandler_def finishProxy_def Let_def split: prod.splits bool.splits)

text \<open>
  C8. In blocking mode the proxy implements the phases. The request reaches the upstream exactly when every phase
  passed, and then with its body cut to the first MiB. An interruption is answered by the engine with the status the
  rule asked for, 403 if it asked for none, as \<open>net/http\<close> sends it; a phase that fails, like a body that cannot be
  read, is answered with 500: the proxy fails closed. One outcome is counted, and the transaction is logged and closed.
\<close>

theorem proxy_blocking_implements_phases:
  assumes "runPhases (proxyPhases Z r) (proxyStart Z r (cz_NewTransaction Z waf)) = (v, tx)"
  shows "ha_forwarded (BuildHandler Z waf rp ModeBlocking r freshEnv) =
      (if v = Passed then Some (limitedRequest r) else None)
    \<and> (v = Interrupted it \<longrightarrow>
      rw_Status (px_w (ha_env (BuildHandler Z waf rp ModeBlocking r freshEnv))) =
        finalStatus (if it_Status it = 0 then 403 else it_Status it)
      \<and> px_outcomes (ha_env (BuildHandler Z waf rp ModeBlocking r freshEnv)) = [''blocked''])
    \<and> (v = Failed err \<longrightarrow>
      rw_Status (px_w (ha_env (BuildHandler Z waf rp ModeBlocking r freshEnv))) = Some 500
      \<and> px_outcomes (ha_env (BuildHandler Z waf rp ModeBlocking r freshEnv)) = [''error''])
    \<and> (v \<noteq> Passed \<longrightarrow> ha_tx (BuildHandler Z waf rp ModeBlocking r freshEnv) = endTransaction Z tx)"
proof (intro conjI impI)
  note b = BuildHandler_blocking [OF assms, of rp freshEnv]
  show "ha_forwarded (BuildHandler Z waf rp ModeBlocking r freshEnv) =
      (if v = Passed then Some (limitedRequest r) else None)"
  proof (cases "v = Passed")
    case True
    then show ?thesis
      using inspectRequest_blocking [of r freshEnv Z "cz_NewTransaction Z waf"] assms
        BuildHandler_passed [OF refl, of Z ModeBlocking r waf freshEnv rp]
      by (simp add: inspectionOf_def)
  next
    case False
    with b show ?thesis by (simp add: finishProxy_def)
  qed
  show "rw_Status (px_w (ha_env (BuildHandler Z waf rp ModeBlocking r freshEnv))) =
        finalStatus (if it_Status it = 0 then 403 else it_Status it)"
    and "px_outcomes (ha_env (BuildHandler Z waf rp ModeBlocking r freshEnv)) = [''blocked'']" if "v = Interrupted it"
    using b that HttpError_fresh(1) [of newResponseWriter]
    by (simp_all add: finishProxy_def verdictEnv_def blockOrDetect_def env_defs Let_def)
  show "rw_Status (px_w (ha_env (BuildHandler Z waf rp ModeBlocking r freshEnv))) = Some 500"
    and "px_outcomes (ha_env (BuildHandler Z waf rp ModeBlocking r freshEnv)) = [''error'']" if "v = Failed err"
    using b that HttpError_fresh(1) [of newResponseWriter]
    by (simp_all add: finishProxy_def verdictEnv_def internalError_def env_defs finalStatus_def)
  show "ha_tx (BuildHandler Z waf rp ModeBlocking r freshEnv) = endTransaction Z tx" if "v \<noteq> Passed"
    using b that by (simp add: finishProxy_def)
qed

definition demoHttpRequest :: "string \<Rightarrow> HttpRequest" where
  "demoHttpRequest body = \<lparr>rq_RemoteAddr = ''1.2.3.4:5'', rq_Host = ''h'', rq_RequestURI = ''/'', rq_Method = ''POST'',
     rq_Proto = ''HTTP/1.1'', rq_Header = [(''A'', [''b''])], rq_ContentLength = 4, rq_Body = Some (body, None)\<rparr>"

lemma ReadAllLimited_demo: "ReadAllLimited requestBodyLimit (''boom'', None) = Inr ''boom''"
  "ReadAllLimited requestBodyLimit (''good'', None) = Inr ''good''"
  by (simp_all add: ReadAllLimited_def requestBodyLimit_def)

theorem proxy_blocking_implements_phases_witness:
  "rw_Status (px_w (ha_env (BuildHandler demoCoraza [''body''] (\<lambda>r. ([], False)) ModeBlocking (demoHttpRequest ''boom'') freshEnv))) =
     Some 500
   \<and> ha_forwarded (BuildHandler demoCoraza [''body''] (\<lambda>r. ([], False)) ModeBlocking (demoHttpRequest ''boom'') freshEnv) = None"
proof -
  have "\<exists>tx. runPhases (proxyPhases demoCoraza (demoHttpRequest ''boom''))
      (proxyStart demoCoraza (demoHttpRequest ''boom'') (cz_NewTransaction demoCoraza [''body''])) = (Failed ''write failed'', tx)"
    by (simp add: proxyPhases_def bodyPhases_def headerPhase_def proxyStart_def demoHttpRequest_def ReadAllLimited_demo
        addRequestHeaders_def addHeaders_def demoCoraza_def demoHit_def demoNote_def Let_def)
  then obtain tx where r: "runPhases (proxyPhases demoCoraza (demoHttpRequest ''boom''))
      (proxyStart demoCoraza (demoHttpRequest ''boom'') (cz_NewTransaction demoCoraza [''body''])) = (Failed ''write failed'', tx)" ..
  show ?thesis
    using proxy_blocking_implements_phases [OF r, where rp = "\<lambda>r. ([], False)" and err = "''write failed''"] by simp
qed

text \<open>
  What the client of a proxy without a firewall receives for a recorded response: every header line, and the status and
  the body as \<open>net/http\<close> treats them. An informational status is not final, the body is then sent with 200; a status that
  allows no body drops it; an invalid status panics before anything is sent.
\<close>

definition relayed :: "responseRecorder \<Rightarrow> ResponseWriter" where
  "relayed rcd =
     (let s = rec_status rcd; valid = (100 \<le> s \<and> s \<le> 999); info = (valid \<and> s \<le> 199 \<and> s \<noteq> 101) in
      \<lparr>rw_Header = concat (map (\<lambda>(k, vals). map (Pair k) vals) (rec_header rcd)),
       rw_Info = (if info then [s] else []),
       rw_Status = (if \<not> valid then None else if info then Some 200 else Some s),
       rw_Body = (if valid \<and> (info \<or> bodyAllowedForStatus s) then rec_body rcd else ''''),
       rw_Panic = (\<not> valid)\<rparr>)"

lemma fold_headerAdd:
  "fold (\<lambda>(k, vals). fold (headerAdd k) vals) hs w =
     w\<lparr>rw_Header := rw_Header w @ concat (map (\<lambda>(k, vals). map (Pair k) vals) hs)\<rparr>"
proof -
  have inner: "fold (headerAdd k) vals w = w\<lparr>rw_Header := rw_Header w @ map (Pair k) vals\<rparr>" for k vals w
    by (induction vals arbitrary: w) (simp_all add: headerAdd_def)
  show ?thesis
    by (induction hs arbitrary: w) (auto simp: inner)
qed

lemma flushRecorded_relayed: "flushRecorded rcd newResponseWriter = relayed rcd"
  by (auto simp: flushRecorded_def fold_headerAdd newResponseWriter_def relayed_def WriteHeader_def WriteBody_def
      bodyAllowedForStatus_def Let_def)

lemma inspectResponse_detection:
  "mode \<noteq> ModeBlocking \<Longrightarrow> \<exists>t. inspectResponse Z mode rcd tx e = (False, t, e)"
  by (auto simp: inspectResponse_def Let_def split: prod.split)

text \<open>The rest of a request whose inspection does not stop it and whose response is not replaced.\<close>

lemma BuildHandler_relays:
  assumes "i = inspectRequest Z mode r (cz_NewTransaction Z waf) freshEnv" "\<not> in_stop i" "in_env i = freshEnv"
    and "rp (in_request i) = (calls, aborted)" "rcd = fold recorderStep calls newResponseRecorder"
    and "\<not> aborted \<longrightarrow> (\<exists>t. inspectResponse Z mode rcd (in_tx i) freshEnv = (False, t, freshEnv))"
  shows "px_w (ha_env (BuildHandler Z waf rp mode r freshEnv)) = (if aborted then newResponseWriter else relayed rcd)
    \<and> ha_forwarded (BuildHandler Z waf rp mode r freshEnv) = Some (in_request i)
    \<and> ha_aborted (BuildHandler Z waf rp mode r freshEnv) = aborted
    \<and> px_outcomes (ha_env (BuildHandler Z waf rp mode r freshEnv)) =
        (if aborted \<or> rw_Panic (relayed rcd) then [] else [''allowed''])"
proof -
  have fresh: "px_w freshEnv = newResponseWriter" "px_outcomes freshEnv = []" by (simp_all add: freshEnv_def)
  show ?thesis
  proof (cases aborted)
    case True
    with assms(2-4) fresh show ?thesis
      by (simp add: BuildHandler_def assms(1) [symmetric] finishProxy_def Let_def)
  next
    case False
    then obtain t where "inspectResponse Z mode rcd (in_tx i) freshEnv = (False, t, freshEnv)" using assms(6) by blast
    with assms(2-5) False fresh show ?thesis
      by (simp add: BuildHandler_def assms(1) [symmetric] finishProxy_def respond_def observeLatency_def countOutcome_def
          flushRecorded_relayed Let_def)
  qed
qed

text \<open>
  C31. Detection mode is transparent: whatever the rules say about the request or the response, if no request phase fails
  the request is forwarded with its body cut to the first MiB and its declared length unchanged, and the client receives,
  header lines, status and body, exactly what a proxy without a firewall relays of the upstream's response, whatever its
  status is; nothing is sent if the reverse proxy aborts. The outcome counted is \<open>allowed\<close>, once, unless the reverse proxy
  aborts or the status is invalid. A failing phase is answered with 500 and the request is not forwarded.
\<close>

theorem proxy_detection_transparent:
  assumes "mode \<noteq> ModeBlocking"
    and "runThrough (proxyPhases Z r) (proxyStart Z r (cz_NewTransaction Z waf)) = (failure, tx)"
    and "rp (limitedRequest r) = (calls, aborted)"
    and "rcd = fold recorderStep calls newResponseRecorder"
  shows "(failure = None \<longrightarrow>
      px_w (ha_env (BuildHandler Z waf rp mode r freshEnv)) = (if aborted then newResponseWriter else relayed rcd)
      \<and> ha_forwarded (BuildHandler Z waf rp mode r freshEnv) = Some (limitedRequest r)
      \<and> ha_aborted (BuildHandler Z waf rp mode r freshEnv) = aborted
      \<and> px_outcomes (ha_env (BuildHandler Z waf rp mode r freshEnv)) =
          (if aborted \<or> rw_Panic (relayed rcd) then [] else [''allowed'']))
    \<and> rq_ContentLength (limitedRequest r) = rq_ContentLength r
    \<and> (rq_Body r = Some (body, None) \<longrightarrow> rq_Body (limitedRequest r) = Some (take requestBodyLimit body, None))
    \<and> (failure = Some err \<longrightarrow>
      rw_Status (px_w (ha_env (BuildHandler Z waf rp mode r freshEnv))) = Some 500
      \<and> ha_forwarded (BuildHandler Z waf rp mode r freshEnv) = None)"
proof -
  define i where "i = inspectRequest Z mode r (cz_NewTransaction Z waf) freshEnv"
  have d: "detectionOf r freshEnv (failure, tx) i"
    unfolding i_def assms(2) [symmetric] by (rule inspectRequest_detection [OF assms(1)])
  have ok: "px_w (ha_env (BuildHandler Z waf rp mode r freshEnv)) = (if aborted then newResponseWriter else relayed rcd)
      \<and> ha_forwarded (BuildHandler Z waf rp mode r freshEnv) = Some (limitedRequest r)
      \<and> ha_aborted (BuildHandler Z waf rp mode r freshEnv) = aborted
      \<and> px_outcomes (ha_env (BuildHandler Z waf rp mode r freshEnv)) =
          (if aborted \<or> rw_Panic (relayed rcd) then [] else [''allowed''])" if none: "failure = None"
  proof -
    have i: "\<not> in_stop i" "in_env i = freshEnv" "in_request i = limitedRequest r"
      using d none by (simp_all add: detectionOf_def)
    have "rp (in_request i) = (calls, aborted)" by (simp add: i(3) assms(3))
    from BuildHandler_relays [where rp = rp and calls = calls and aborted = aborted, OF i_def i(1,2) this assms(4)]
      inspectResponse_detection [OF assms(1), of Z rcd "in_tx i" freshEnv]
    show ?thesis
      unfolding i(3) by simp
  qed
  have len: "rq_ContentLength (limitedRequest r) = rq_ContentLength r"
    by (simp add: limitedRequest_def split: option.split sum.split)
  have cut: "rq_Body (limitedRequest r) = Some (take requestBodyLimit body, None)" if "rq_Body r = Some (body, None)"
    using that by (simp add: limitedRequest_def ReadAllLimited_def)
  have w: "rw_Status (px_w freshEnv) = None" "\<not> rw_Panic (px_w freshEnv)" by (simp_all add: env_defs)
  have bad: "rw_Status (px_w (ha_env (BuildHandler Z waf rp mode r freshEnv))) = Some 500
      \<and> ha_forwarded (BuildHandler Z waf rp mode r freshEnv) = None" if "failure = Some err"
    using d that BuildHandler_stopped [of Z mode r waf freshEnv rp] HttpError_fresh(1) [OF w]
    by (simp add: i_def [symmetric] detectionOf_def finishProxy_def internalError_def respond_def countOutcome_def
        finalStatus_def)
  show ?thesis
    using ok len cut bad by blast
qed

definition demoProxy :: reverseProxy where
  "demoProxy r = ([RecHeader [(''X'', [''y''])], RecWriteHeader 404, RecWrite ''no'', RecWrite ''pe''], False)"

theorem proxy_detection_transparent_witness:
  "rw_Status (px_w (ha_env (BuildHandler demoCoraza [''headers'', ''body'', ''response''] demoProxy ModeDetection
       (demoHttpRequest ''good'') freshEnv))) = Some 404
   \<and> rw_Body (px_w (ha_env (BuildHandler demoCoraza [''headers'', ''body'', ''response''] demoProxy ModeDetection
       (demoHttpRequest ''good'') freshEnv))) = ''nope''
   \<and> rw_Header (px_w (ha_env (BuildHandler demoCoraza [''headers'', ''body'', ''response''] demoProxy ModeDetection
       (demoHttpRequest ''good'') freshEnv))) = [(''X'', ''y'')]"
proof -
  have "\<exists>tx. runThrough (proxyPhases demoCoraza (demoHttpRequest ''good''))
      (proxyStart demoCoraza (demoHttpRequest ''good'') (cz_NewTransaction demoCoraza [''headers'', ''body'', ''response''])) =
      (None, tx)"
    by (simp add: proxyPhases_def bodyPhases_def headerPhase_def proxyStart_def demoHttpRequest_def ReadAllLimited_demo
        addRequestHeaders_def addHeaders_def demoCoraza_def demoHit_def demoNote_def Let_def)
  then obtain tx where r: "runThrough (proxyPhases demoCoraza (demoHttpRequest ''good''))
      (proxyStart demoCoraza (demoHttpRequest ''good'') (cz_NewTransaction demoCoraza [''headers'', ''body'', ''response''])) =
      (None, tx)" ..
  have m: "ModeDetection \<noteq> ModeBlocking" by (simp add: ModeDetection_def ModeBlocking_def)
  have p: "demoProxy (limitedRequest (demoHttpRequest ''good'')) =
      ([RecHeader [(''X'', [''y''])], RecWriteHeader 404, RecWrite ''no'', RecWrite ''pe''], False)"
    by (simp add: demoProxy_def)
  show ?thesis
    using proxy_detection_transparent [where rp = demoProxy, OF m r p refl]
    by (simp add: newResponseRecorder_def bodyAllowedForStatus_def relayed_def)
qed

text \<open>
  C32. In blocking mode a response is replaced exactly when the rules interrupt it in the phase of its headers: the client
  then receives status 403 with the engine's own text and only the headers of \<open>http.Error\<close>, the same for every upstream
  response. Otherwise the client receives the response as the upstream gave it, whatever \<open>WriteResponseBody\<close> and
  \<open>ProcessResponseBody\<close> answer: interruptions of the phase of the response body are ignored.
\<close>

theorem proxy_blocked_response_is_hidden:
  assumes "runPhases (proxyPhases Z r) (proxyStart Z r (cz_NewTransaction Z waf)) = (Passed, tx)"
    and "rp (limitedRequest r) = (calls, False)"
    and "rcd = fold recorderStep calls newResponseRecorder"
    and "cz_ProcessResponseHeaders Z (rec_status rcd) ''HTTP/1.1'' (addHeaders (cz_AddResponseHeader Z) (rec_header rcd) tx) =
      (respIt, tx2)"
  shows "px_w (ha_env (BuildHandler Z waf rp ModeBlocking r freshEnv)) =
      (if respIt = None then relayed rcd
       else \<lparr>rw_Header = [(''Content-Type'', ''text/plain; charset=utf-8''), (''X-Content-Type-Options'', ''nosniff'')],
         rw_Info = [], rw_Status = Some 403, rw_Body = ''response blocked by WAF'' @ [nl], rw_Panic = False\<rparr>)
    \<and> px_outcomes (ha_env (BuildHandler Z waf rp ModeBlocking r freshEnv)) =
      (if respIt \<noteq> None then [''blocked''] else if rw_Panic (relayed rcd) then [] else [''allowed''])
    \<and> ha_tx (BuildHandler Z waf rp ModeBlocking r freshEnv) = endTransaction Z
      (if respIt \<noteq> None then tx2 else snd (cz_ProcessResponseBody Z (snd (cz_WriteResponseBody Z (rec_body rcd) tx2))))"
proof -
  define i where "i = inspectRequest Z ModeBlocking r (cz_NewTransaction Z waf) freshEnv"
  have i: "\<not> in_stop i" "in_tx i = tx" "in_env i = freshEnv" "in_request i = limitedRequest r"
    using inspectRequest_blocking [of r freshEnv Z "cz_NewTransaction Z waf"] assms(1)
    by (simp_all add: i_def [symmetric] inspectionOf_def verdictEnv_def)
  show ?thesis
  proof (cases respIt)
    case None
    have resp: "inspectResponse Z ModeBlocking rcd (in_tx i) freshEnv =
        (False, snd (cz_ProcessResponseBody Z (snd (cz_WriteResponseBody Z (rec_body rcd) tx2))), freshEnv)"
      using assms(4) None by (simp add: inspectResponse_def i(2) Let_def)
    have fwd: "rp (in_request i) = (calls, False)" by (simp add: i(4) assms(2))
    have "ha_tx (BuildHandler Z waf rp ModeBlocking r freshEnv) =
        endTransaction Z (snd (cz_ProcessResponseBody Z (snd (cz_WriteResponseBody Z (rec_body rcd) tx2))))"
      using i(1,3) resp fwd by (simp add: BuildHandler_def i_def [symmetric] assms(3) [symmetric] finishProxy_def Let_def)
    with BuildHandler_relays [where rp = rp and calls = calls and aborted = False, OF i_def i(1,3) fwd assms(3)] resp None i(4)
    show ?thesis by simp
  next
    case (Some it)
    then have "inspectResponse Z ModeBlocking rcd tx freshEnv =
        (True, tx2, respond (HttpError ''response blocked by WAF'' 403) (observeLatency (countOutcome ''blocked'' freshEnv)))"
      using assms(4) by (simp add: inspectResponse_def Let_def)
    then have h: "BuildHandler Z waf rp ModeBlocking r freshEnv =
        finishProxy Z (respond (HttpError ''response blocked by WAF'' 403) (observeLatency (countOutcome ''blocked'' freshEnv)))
          tx2 (Some (limitedRequest r)) False"
      using i assms(2,3) by (simp add: BuildHandler_def i_def [symmetric] Let_def)
    show ?thesis
      unfolding h by (simp add: Some finishProxy_def env_defs writer_defs)
  qed
qed

theorem proxy_blocked_response_is_hidden_witness:
  "rw_Body (px_w (ha_env (BuildHandler demoCoraza [''response''] demoProxy ModeBlocking (demoHttpRequest ''good'') freshEnv))) =
     ''response blocked by WAF'' @ [nl]"
proof -
  have "\<exists>tx. runPhases (proxyPhases demoCoraza (demoHttpRequest ''good''))
      (proxyStart demoCoraza (demoHttpRequest ''good'') (cz_NewTransaction demoCoraza [''response''])) = (Passed, tx)
      \<and> dt_rules tx = [''response'']"
    by (simp add: proxyPhases_def bodyPhases_def headerPhase_def proxyStart_def demoHttpRequest_def ReadAllLimited_demo
        addRequestHeaders_def addHeaders_def demoCoraza_def demoHit_def demoNote_def Let_def)
  then obtain tx where r: "runPhases (proxyPhases demoCoraza (demoHttpRequest ''good''))
      (proxyStart demoCoraza (demoHttpRequest ''good'') (cz_NewTransaction demoCoraza [''response''])) = (Passed, tx)"
    and tx: "dt_rules tx = [''response'']" by blast
  have p: "demoProxy (limitedRequest (demoHttpRequest ''good'')) =
      ([RecHeader [(''X'', [''y''])], RecWriteHeader 404, RecWrite ''no'', RecWrite ''pe''], False)"
    by (simp add: demoProxy_def)
  show ?thesis
    using proxy_blocked_response_is_hidden [where rp = demoProxy, OF r p refl] tx
    by (simp add: newResponseRecorder_def addHeaders_def demoCoraza_def demoHit_def demoNote_def)
qed

subsection \<open>One outcome per request\<close>

definition countedBy :: "nat \<Rightarrow> proxyEnv \<Rightarrow> proxyEnv \<Rightarrow> bool" where
  "countedBy n e e' \<longleftrightarrow>
     (\<exists>ls. px_outcomes e' = px_outcomes e @ ls \<and> length ls = n \<and> set ls \<subseteq> {''allowed'', ''blocked'', ''error''})"

lemma inspectRequest_counts:
  "countedBy (if in_stop (inspectRequest Z mode r tx e) then 1 else 0) e (in_env (inspectRequest Z mode r tx e))"
proof (cases "mode = ModeBlocking")
  case True
  obtain v t where v: "runPhases (proxyPhases Z r) (proxyStart Z r tx) = (v, t)"
    by (cases "runPhases (proxyPhases Z r) (proxyStart Z r tx)")
  then show ?thesis
    using inspectRequest_blocking [of r e Z tx] True
    by (cases v) (simp_all add: inspectionOf_def verdictEnv_def internalError_def blockOrDetect_def countedBy_def env_defs
        Let_def)
next
  case False
  obtain f t where "runThrough (proxyPhases Z r) (proxyStart Z r tx) = (f, t)"
    by (cases "runThrough (proxyPhases Z r) (proxyStart Z r tx)")
  then show ?thesis
    using inspectRequest_detection [OF False, of r e Z tx]
    by (cases f) (simp_all add: detectionOf_def internalError_def countedBy_def env_defs)
qed

text \<open>
  Every request that is answered is counted exactly once, under one of the three labels registered for the
  metric; a request is not counted only if the reverse proxy aborted or the upstream's status made \<open>net/http\<close> panic.
\<close>

theorem proxy_counts_once:
  assumes "\<not> ha_aborted (BuildHandler Z waf rp mode r e)"
    and "\<not> rw_Panic (px_w (ha_env (BuildHandler Z waf rp mode r e)))"
  shows "\<exists>l \<in> {''allowed'', ''blocked'', ''error''}.
    px_outcomes (ha_env (BuildHandler Z waf rp mode r e)) = px_outcomes e @ [l]"
proof -
  define i where "i = inspectRequest Z mode r (cz_NewTransaction Z waf) e"
  have c: "countedBy (if in_stop i then 1 else 0) e (in_env i)"
    unfolding i_def by (rule inspectRequest_counts)
  show ?thesis
  proof (cases "in_stop i")
    case True
    with c show ?thesis
      by (auto simp: BuildHandler_def i_def [symmetric] finishProxy_def countedBy_def length_Suc_conv)
  next
    case False
    with c have "px_outcomes (in_env i) = px_outcomes e" by (simp add: countedBy_def)
    with False assms show ?thesis
      by (auto simp: BuildHandler_def i_def [symmetric] finishProxy_def inspectResponse_def env_defs Let_def
          split: prod.splits if_splits)
  qed
qed

theorem proxy_counts_once_witness:
  "\<exists>l. px_outcomes (ha_env (BuildHandler demoCoraza [''response''] demoProxy ModeBlocking (demoHttpRequest ''good'') freshEnv)) = [l]"
proof -
  have "\<not> ha_aborted (BuildHandler demoCoraza [''response''] demoProxy ModeBlocking (demoHttpRequest ''good'') freshEnv)"
    and "\<not> rw_Panic (px_w (ha_env
      (BuildHandler demoCoraza [''response''] demoProxy ModeBlocking (demoHttpRequest ''good'') freshEnv)))"
    by (simp_all add: BuildHandler_def inspectRequest_def inspectBody_def inspectProcess_def inspectResponse_def
        stopRequest_def finishProxy_def demoProxy_def demoHttpRequest_def ReadAllLimited_demo addRequestHeaders_def
        addHeaders_def demoCoraza_def demoHit_def demoNote_def env_defs writer_defs newResponseRecorder_def)
  from proxy_counts_once [OF this] show ?thesis
    by (auto simp: freshEnv_def)
qed

end
