(* ===== verification/Spoa.thy ===== *)
theory Spoa
  imports Coraza Engine_Config "HOL-Library.Multiset"
begin

text \<open>
  The HAProxy agent of the engine, \<open>internal/enginepkg/spoa.go\<close>: the decoding of a message, the firewall phases,
  the variables written back and the helpers. The SPOP frame decoder of the library delivers a message as its list
  of name and value pairs and a scan error; \<open>textproto.Reader.ReadMIMEHeader\<close> is the argument \<open>readMIME\<close>. The
  lemmas show that a message has the same meaning in its named and positional form, that exactly one action is
  written, when it is a denial, and that every transaction is logged and closed.
\<close>

subsection \<open>Decoding a message\<close>

record spoeRequest =
  sq_method :: string
  sq_path :: string
  sq_query :: string
  sq_reqVer :: string
  sq_hdrsBin :: string
  sq_bodyBytes :: string

definition emptySpoeRequest :: spoeRequest where
  "emptySpoeRequest = \<lparr>sq_method = '''', sq_path = '''', sq_query = '''', sq_reqVer = '''', sq_hdrsBin = '''',
     sq_bodyBytes = ''''\<rparr>"

definition fullURI :: "spoeRequest \<Rightarrow> string" where
  "fullURI r = (if sq_query r = '''' then sq_path r else sq_path r @ ''?'' @ sq_query r)"

definition spoeFields :: "(string \<times> nat \<times> (string \<Rightarrow> spoeRequest \<Rightarrow> spoeRequest)) list" where
  "spoeFields =
     [(''method'', 1, \<lambda>v r. r\<lparr>sq_method := v\<rparr>),
      (''path'', 2, \<lambda>v r. r\<lparr>sq_path := v\<rparr>),
      (''query'', 3, \<lambda>v r. r\<lparr>sq_query := v\<rparr>),
      (''req.ver'', 4, \<lambda>v r. r\<lparr>sq_reqVer := v\<rparr>),
      (''req.hdrs_bin'', 5, \<lambda>v r. r\<lparr>sq_hdrsBin := v\<rparr>),
      (''req.body'', 7, \<lambda>v r. r\<lparr>sq_bodyBytes := v\<rparr>)]"

fun assignField :: "(string \<times> nat \<times> (string \<Rightarrow> spoeRequest \<Rightarrow> spoeRequest)) list \<Rightarrow> string \<Rightarrow> nat \<Rightarrow> string
    \<Rightarrow> spoeRequest \<Rightarrow> spoeRequest" where
  "assignField [] name idx v r = r"
| "assignField ((fname, position, assign) # rest) name idx v r =
     (if name = fname \<or> (name = '''' \<and> idx = position) then assign v r
      else assignField rest name idx v r)"

fun scanKV :: "(string \<times> string) list \<Rightarrow> nat \<Rightarrow> spoeRequest \<Rightarrow> spoeRequest" where
  "scanKV [] idx r = r"
| "scanKV ((name, v) # kvs) idx r = scanKV kvs (idx + 1) (assignField spoeFields name idx v r)"

definition parseSPOERequest :: "(string \<times> string) list \<Rightarrow> string option \<Rightarrow> spoeRequest result" where
  "parseSPOERequest kvs kvError =
     (let req = scanKV kvs 0 emptySpoeRequest in
      case kvError of
        Some err \<Rightarrow> Inl err
      | None \<Rightarrow> Inr (if sq_reqVer req = '''' then req\<lparr>sq_reqVer := ''1.1''\<rparr> else req))"

subsection \<open>Writing the variables\<close>

datatype ActionValue = VStr string | VInt32 int32

type_synonym Actions = "(string \<times> ActionValue) list"

definition clampInt32 :: "int \<Rightarrow> int32" where
  "clampInt32 n =
     (if n > 2147483647 then 2147483647
      else if n < - 2147483648 then - 2147483648
      else word_of_int n)"

fun dedupIDs :: "int list \<Rightarrow> int set \<Rightarrow> string list" where
  "dedupIDs [] seen = []"
| "dedupIDs (rid # rules) seen =
     (if rid \<in> seen then dedupIDs rules seen else Itoa rid # dedupIDs rules (insert rid seen))"

definition buildRuleIDs :: "int list \<Rightarrow> string" where
  "buildRuleIDs rules = (if length rules = 0 then '''' else joinWith '','' (dedupIDs rules {}))"

text \<open>
  The variables of an answer, in the order they are written. The code discards the errors of the writes; here every write
  succeeds.
\<close>

definition applyAllow :: "('waf, 't) Coraza \<Rightarrow> 't \<Rightarrow> Actions" where
  "applyAllow Z tx =
     (let matched = cz_MatchedRules Z tx in
      [(''action'', VStr ''allow''), (''id'', VStr (cz_ID Z tx)), (''status'', VInt32 200),
       (''rules_hit'', VInt32 (clampInt32 (int (length matched)))), (''rule_ids'', VStr (buildRuleIDs matched))])"

definition applyInterruption :: "('waf, 't) Coraza \<Rightarrow> string \<Rightarrow> 't \<Rightarrow> Interruption \<Rightarrow> Actions \<times> string" where
  "applyInterruption Z mode tx it =
     (let matched = cz_MatchedRules Z tx;
          st = clampInt32 (it_Status it);
          status = (if st = 0 then 403 else st);
          vars = [(''id'', VStr (cz_ID Z tx)), (''rules_hit'', VInt32 (clampInt32 (int (length matched)))),
                  (''rule_ids'', VStr (buildRuleIDs matched))]
      in if mode = ModeBlocking
         then (vars @ [(''action'', VStr ''deny''), (''status'', VInt32 status)], ''denied'')
         else (vars @ [(''action'', VStr ''allow''), (''status'', VInt32 status)], ''allowed''))"

definition setErrorVars :: "string \<Rightarrow> Actions" where
  "setErrorVars msg = [(''action'', VStr ''allow''), (''error'', VStr msg)]"

subsection \<open>Headers\<close>

datatype mimeError = MimeEOF | MimeFailure string

definition crlf :: string where
  "crlf = [CHR 0x0D, CHR 0x0A]"

definition normalizeBlock :: "string \<Rightarrow> string" where
  "normalizeBlock hdrsBin =
     (if \<not> HasSuffix hdrsBin (crlf @ crlf)
      then (if HasSuffix hdrsBin crlf then hdrsBin @ crlf else hdrsBin @ crlf @ crlf)
      else hdrsBin)"

text \<open>\<open>ReadMIMEHeader\<close> returns the headers in the order in which the range over the map visits them.\<close>

type_synonym mimeReader = "string \<Rightarrow> (string \<times> string list) list \<times> mimeError option"

definition feedHeaders :: "('waf, 't) Coraza \<Rightarrow> mimeReader \<Rightarrow> string \<Rightarrow> 't \<Rightarrow> string option \<times> 't" where
  "feedHeaders Z readMIME hdrsBin tx =
     (case readMIME (normalizeBlock hdrsBin) of
        (mh, Some (MimeFailure err)) \<Rightarrow> (Some (''parse MIME headers: '' @ err), tx)
      | (mh, _) \<Rightarrow> (None, addHeaders (cz_AddRequestHeader Z) mh tx))"

subsection \<open>HandleSPOE\<close>

record 't spoaResult =
  sx_actions :: Actions
  sx_outcome :: string
  sx_tx :: "'t option"

text \<open>The return after a transaction was opened: the deferred function logs and closes it.\<close>

definition finishSPOE :: "('waf, 't) Coraza \<Rightarrow> 't \<Rightarrow> Actions \<times> string \<Rightarrow> 't spoaResult" where
  "finishSPOE Z tx r = \<lparr>sx_actions = fst r, sx_outcome = snd r, sx_tx = Some (endTransaction Z tx)\<rparr>"

definition spoaFail :: "string \<Rightarrow> Actions \<times> string" where
  "spoaFail err = (setErrorVars err, ''error'')"

text \<open>Phase 2, from \<open>WriteRequestBody\<close> on.\<close>

definition spoaProcessBody :: "('waf, 't) Coraza \<Rightarrow> string \<Rightarrow> 't \<Rightarrow> 't spoaResult" where
  "spoaProcessBody Z mode tx =
     (case cz_ProcessRequestBody Z tx of
        (Inl err, tx1) \<Rightarrow> finishSPOE Z tx1 (spoaFail err)
      | (Inr (Some it), tx1) \<Rightarrow> finishSPOE Z tx1 (applyInterruption Z mode tx1 it)
      | (Inr None, tx1) \<Rightarrow> finishSPOE Z tx1 (applyAllow Z tx1, ''allowed''))"

definition spoaBody :: "('waf, 't) Coraza \<Rightarrow> string \<Rightarrow> string \<Rightarrow> 't \<Rightarrow> 't spoaResult" where
  "spoaBody Z mode body tx =
     (if length body > 0
      then
        (case cz_WriteRequestBody Z body tx of
           (Inl err, tx1) \<Rightarrow> finishSPOE Z tx1 (spoaFail err)
         | (Inr (Some it), tx1) \<Rightarrow> finishSPOE Z tx1 (applyInterruption Z mode tx1 it)
         | (Inr None, tx1) \<Rightarrow> spoaProcessBody Z mode tx1)
      else spoaProcessBody Z mode tx)"

definition HandleSPOE ::
  "('waf, 't) Coraza \<Rightarrow> mimeReader \<Rightarrow> 'waf \<Rightarrow> string \<Rightarrow> (string \<times> string) list \<Rightarrow> string option \<Rightarrow> 't spoaResult" where
  "HandleSPOE Z readMIME waf mode kvs kvError =
     (case parseSPOERequest kvs kvError of
        Inl err \<Rightarrow> \<lparr>sx_actions = fst (spoaFail err), sx_outcome = snd (spoaFail err), sx_tx = None\<rparr>
      | Inr req \<Rightarrow>
          (let tx1 = cz_ProcessURI Z (fullURI req) (sq_method req) (''HTTP/'' @ sq_reqVer req)
                       (cz_ProcessConnection Z '''' 0 '''' 0 (cz_NewTransaction Z waf));
               tx2 = (if length (sq_hdrsBin req) > 0 then snd (feedHeaders Z readMIME (sq_hdrsBin req) tx1)
                      else tx1)
           in case cz_ProcessRequestHeaders Z tx2 of
                (Some it, tx3) \<Rightarrow> finishSPOE Z tx3 (applyInterruption Z mode tx3 it)
              | (None, tx3) \<Rightarrow> spoaBody Z mode (sq_bodyBytes req) tx3))"

subsection \<open>The helpers\<close>

lemma clampInt32_saturates: "sint (clampInt32 n) = max (- 2147483648) (min 2147483647 n)"
proof -
  have "sint (word_of_int n :: int32) = n" if "- 2147483648 \<le> n" "n \<le> 2147483647"
    using that by (simp add: sint_sbintrunc' signed_take_bit_int_eq_self_iff)
  then show ?thesis
    by (auto simp: clampInt32_def)
qed

lemma clampInt32_eq_0: "clampInt32 n = 0 \<longleftrightarrow> n = 0"
proof -
  have "clampInt32 n = 0 \<longleftrightarrow> sint (clampInt32 n) = 0"
    by (metis signed_word_eqI sint_0)
  then show ?thesis
    by (auto simp: clampInt32_saturates)
qed

lemma normalizeBlock_ends: "HasSuffix (normalizeBlock b) (crlf @ crlf)"
  by (auto simp: normalizeBlock_def HasSuffix_iff)

lemma Itoa_no_comma: "CHR '','' \<notin> set (Itoa i)"
  using natDigits_digits [of "CHR '',''"] by (auto simp: Itoa_def isDigitChar_def)

lemma splitOn_joinWith:
  "ps \<noteq> [] \<Longrightarrow> (\<And>p. p \<in> set ps \<Longrightarrow> c \<notin> set p) \<Longrightarrow> splitOn c (joinWith [c] ps) = ps"
proof (induction ps)
  case (Cons p ps)
  show ?case
  proof (cases "ps = []")
    case True
    with Cons.prems show ?thesis by (simp add: splitOn_no_sep)
  next
    case False
    with Cons show ?thesis
      by (simp add: joinWith_Cons splitOn_append_sep splitOn_no_sep)
  qed
qed simp

lemma dedupIDs_spec:
  "\<exists>ids. dedupIDs rules seen = map Itoa ids \<and> distinct ids \<and> set ids = set rules - seen"
proof (induction rules arbitrary: seen)
  case (Cons r rules)
  obtain ids where ids: "dedupIDs rules (insert r seen) = map Itoa ids" "distinct ids"
      "set ids = set rules - insert r seen"
    using Cons.IH by blast
  show ?case
  proof (cases "r \<in> seen")
    case True
    with Cons.IH [of seen] show ?thesis by (auto simp: insert_Diff_if)
  next
    case False
    with ids show ?thesis
      by (intro exI [of _ "r # ids"]) auto
  qed
qed simp

lemma buildRuleIDs_readable:
  assumes "rules \<noteq> []"
  obtains ids where "splitOn (CHR '','') (buildRuleIDs rules) = map Itoa ids" "distinct ids" "set ids = set rules"
proof -
  obtain ids where ids: "dedupIDs rules {} = map Itoa ids" "distinct ids" "set ids = set rules"
    using dedupIDs_spec [of rules "{}"] by auto
  moreover have "splitOn (CHR '','') (buildRuleIDs rules) = map Itoa ids"
  proof -
    have "ids \<noteq> []" using assms ids(3) by auto
    then have "splitOn (CHR '','') (joinWith '','' (map Itoa ids)) = map Itoa ids"
      by (intro splitOn_joinWith) (auto simp: Itoa_no_comma)
    then show ?thesis
      using assms ids(1) by (simp add: buildRuleIDs_def)
  qed
  ultimately show ?thesis
    using that by blast
qed

subsection \<open>The two forms of a message\<close>

lemma assignField_named:
  assumes "n \<noteq> ''''"
  shows "assignField spoeFields n i v r =
     \<lparr>sq_method = if n = ''method'' then v else sq_method r, sq_path = if n = ''path'' then v else sq_path r,
      sq_query = if n = ''query'' then v else sq_query r, sq_reqVer = if n = ''req.ver'' then v else sq_reqVer r,
      sq_hdrsBin = if n = ''req.hdrs_bin'' then v else sq_hdrsBin r,
      sq_bodyBytes = if n = ''req.body'' then v else sq_bodyBytes r\<rparr>"
  using assms by (simp add: spoeFields_def)

lemma scanKV_named:
  "'''' \<notin> fst ` set kvs \<Longrightarrow>
     scanKV kvs i r =
       (let get = (\<lambda>n old. case map_of (rev kvs) n of None \<Rightarrow> old | Some v \<Rightarrow> v) in
        \<lparr>sq_method = get ''method'' (sq_method r), sq_path = get ''path'' (sq_path r),
         sq_query = get ''query'' (sq_query r), sq_reqVer = get ''req.ver'' (sq_reqVer r),
         sq_hdrsBin = get ''req.hdrs_bin'' (sq_hdrsBin r), sq_bodyBytes = get ''req.body'' (sq_bodyBytes r)\<rparr>)"
proof (induction kvs arbitrary: i r)
  case Nil
  show ?case by simp
next
  case (Cons kv kvs)
  obtain n v where kv: "kv = (n, v)" by (cases kv)
  with Cons.prems have "'''' \<notin> fst ` set kvs" "n \<noteq> ''''" by auto
  then show ?case
    using Cons.IH [of "i + 1" "assignField spoeFields n i v r"]
    by (simp add: kv assignField_named Let_def map_add_def cong: option.case_cong) (intro conjI; simp split: option.split)
qed

definition spoeNames :: "string list" where
  "spoeNames = [''unique-id'', ''method'', ''path'', ''query'', ''req.ver'', ''req.hdrs_bin'', ''req.body_size'',
     ''req.body'']"

lemma map_of_rev_zip_perm:
  assumes "mset kvs = mset (zip ns vs)" and "length ns = length vs" and "distinct ns"
  shows "map_of (rev kvs) = map_of (zip ns vs)" and "fst ` set kvs = set ns"
proof -
  have m: "map fst (zip ns vs) = ns" using assms(2) by simp
  have "mset (map fst kvs) = mset ns"
    using assms(1) m by (metis mset_map)
  then have d: "distinct (map fst (rev kvs))"
    using assms(3) by (metis distinct_rev mset_eq_imp_distinct_iff rev_map)
  have s: "set (rev kvs) = set (zip ns vs)"
    using assms(1) by (metis set_mset_mset set_rev)
  show "map_of (rev kvs) = map_of (zip ns vs)"
    using d s assms(2,3) by (simp add: map_of_inject_set)
  show "fst ` set kvs = set ns"
    using assms(1) m by (metis list.set_map set_mset_mset)
qed

text \<open>
  A message means the same in both forms the agent accepts: whether HAProxy sends the eight arguments
  positionally with empty names, or named in any order, the decoded request is the one with these values, with the
  protocol version defaulting to 1.1; and a scan error of the frame yields that error whatever was decoded before it.
\<close>

theorem spoe_message_forms_agree:
  assumes "length vals = 8"
    and "mset kvs = mset (zip spoeNames vals)"
  shows "parseSPOERequest kvs None = parseSPOERequest (map (Pair '''') vals) None
    \<and> parseSPOERequest kvs None =
      Inr \<lparr>sq_method = vals ! 1, sq_path = vals ! 2, sq_query = vals ! 3,
           sq_reqVer = (if vals ! 4 = '''' then ''1.1'' else vals ! 4), sq_hdrsBin = vals ! 5, sq_bodyBytes = vals ! 7\<rparr>
    \<and> parseSPOERequest kvs (Some err) = Inl err"
proof (intro conjI)
  obtain a b c d e f g h where v: "vals = [a, b, c, d, e, f, g, h]"
    using assms(1) by (auto simp: length_Suc_conv numeral_eq_Suc)
  note perm = map_of_rev_zip_perm [OF assms(2)]
  have p: "map_of (rev kvs) = map_of (zip spoeNames vals)" "'''' \<notin> fst ` set kvs"
    using perm by (simp_all add: spoeNames_def v)
  have "scanKV kvs 0 emptySpoeRequest =
      \<lparr>sq_method = b, sq_path = c, sq_query = d, sq_reqVer = e, sq_hdrsBin = f, sq_bodyBytes = h\<rparr>"
    unfolding scanKV_named [OF p(2)] p(1) by (simp add: spoeNames_def v Let_def)
  moreover have "scanKV (map (Pair '''') vals) 0 emptySpoeRequest =
      \<lparr>sq_method = b, sq_path = c, sq_query = d, sq_reqVer = e, sq_hdrsBin = f, sq_bodyBytes = h\<rparr>"
    by (simp add: v spoeFields_def emptySpoeRequest_def)
  ultimately show "parseSPOERequest kvs None = parseSPOERequest (map (Pair '''') vals) None"
    and "parseSPOERequest kvs None =
      Inr \<lparr>sq_method = vals ! 1, sq_path = vals ! 2, sq_query = vals ! 3,
           sq_reqVer = (if vals ! 4 = '''' then ''1.1'' else vals ! 4), sq_hdrsBin = vals ! 5, sq_bodyBytes = vals ! 7\<rparr>"
    by (simp_all add: parseSPOERequest_def v)
  show "parseSPOERequest kvs (Some err) = Inl err"
    by (simp add: parseSPOERequest_def)
qed

theorem spoe_message_forms_agree_witness:
  "parseSPOERequest [(''path'', ''/a''), (''method'', ''GET''), (''unique-id'', ''u''), (''query'', ''q=1''),
       (''req.ver'', ''''), (''req.body'', ''x''), (''req.hdrs_bin'', ''H''), (''req.body_size'', ''1'')] None =
     Inr \<lparr>sq_method = ''GET'', sq_path = ''/a'', sq_query = ''q=1'', sq_reqVer = ''1.1'', sq_hdrsBin = ''H'',
          sq_bodyBytes = ''x''\<rparr>"
  using spoe_message_forms_agree [of "[''u'', ''GET'', ''/a'', ''q=1'', '''', ''H'', ''1'', ''x'']"
      "[(''path'', ''/a''), (''method'', ''GET''), (''unique-id'', ''u''), (''query'', ''q=1''),
       (''req.ver'', ''''), (''req.body'', ''x''), (''req.hdrs_bin'', ''H''), (''req.body_size'', ''1'')]" "''e''",
      THEN conjunct2, THEN conjunct1]
  by (simp add: spoeNames_def)

subsection \<open>The verdict written back\<close>

definition spoaRender :: "('waf, 't) Coraza \<Rightarrow> string \<Rightarrow> 't \<Rightarrow> Verdict \<Rightarrow> Actions \<times> string" where
  "spoaRender Z mode tx v =
     (case v of
        Failed err \<Rightarrow> spoaFail err
      | Interrupted it \<Rightarrow> applyInterruption Z mode tx it
      | Passed \<Rightarrow> (applyAllow Z tx, ''allowed''))"

text \<open>The transaction when its phases start.\<close>

definition spoaStart :: "('waf, 't) Coraza \<Rightarrow> mimeReader \<Rightarrow> 'waf \<Rightarrow> spoeRequest \<Rightarrow> 't" where
  "spoaStart Z readMIME waf req =
     (let tx1 = cz_ProcessURI Z (fullURI req) (sq_method req) (''HTTP/'' @ sq_reqVer req)
                  (cz_ProcessConnection Z '''' 0 '''' 0 (cz_NewTransaction Z waf))
      in if length (sq_hdrsBin req) > 0 then snd (feedHeaders Z readMIME (sq_hdrsBin req) tx1) else tx1)"

definition spoaBodyArg :: "spoeRequest \<Rightarrow> string option" where
  "spoaBodyArg req = (if length (sq_bodyBytes req) > 0 then Some (sq_bodyBytes req) else None)"

lemma spoaProcessBody_phases:
  "spoaProcessBody Z mode tx =
     (case runPhases [cz_ProcessRequestBody Z] tx of (v, t) \<Rightarrow> finishSPOE Z t (spoaRender Z mode t v))"
  by (simp add: spoaProcessBody_def spoaRender_def split: prod.split sum.split option.split)

lemma spoaBody_phases:
  "spoaBody Z mode body tx =
     (case runPhases ((case spoaBodyArg req of None \<Rightarrow> [] | Some b \<Rightarrow> [cz_WriteRequestBody Z b])
          @ [cz_ProcessRequestBody Z]) tx of (v, t) \<Rightarrow> finishSPOE Z t (spoaRender Z mode t v))"
  if "body = sq_bodyBytes req"
  unfolding that spoaBody_def spoaBodyArg_def spoaProcessBody_phases
  by (cases "cz_WriteRequestBody Z (sq_bodyBytes req) tx") (simp add: spoaRender_def split: sum.split option.split)

lemma HandleSPOE_phases:
  assumes "parseSPOERequest kvs kvError = Inr req"
    and "runPhases (requestPhases Z (spoaBodyArg req)) (spoaStart Z readMIME waf req) = (v, tx)"
  shows "HandleSPOE Z readMIME waf mode kvs kvError = finishSPOE Z tx (spoaRender Z mode tx v)"
proof -
  have "HandleSPOE Z readMIME waf mode kvs kvError =
      (case cz_ProcessRequestHeaders Z (spoaStart Z readMIME waf req) of
         (Some it, tx3) \<Rightarrow> finishSPOE Z tx3 (applyInterruption Z mode tx3 it)
       | (None, tx3) \<Rightarrow> spoaBody Z mode (sq_bodyBytes req) tx3)"
    using assms(1) by (simp add: HandleSPOE_def spoaStart_def Let_def)
  also have "\<dots> = (case runPhases (requestPhases Z (spoaBodyArg req)) (spoaStart Z readMIME waf req) of
      (v, t) \<Rightarrow> finishSPOE Z t (spoaRender Z mode t v))"
    unfolding requestPhases_def spoaBody_phases [OF refl]
    by (simp add: headerPhase_def spoaRender_def split: prod.split option.split)
  finally show ?thesis
    using assms(2) by simp
qed

definition varValues :: "string \<Rightarrow> Actions \<Rightarrow> ActionValue list" where
  "varValues n acts = map snd (filter (\<lambda>p. fst p = n) acts)"

lemmas spoa_defs = finishSPOE_def spoaRender_def spoaFail_def setErrorVars_def applyInterruption_def applyAllow_def
  varValues_def Let_def

text \<open>
  C18. The agent implements the phases: for a decoded message it writes the variable \<open>action\<close> exactly once, and
  denies exactly when the mode is blocking and the first phase that stopped the inspection asked for an interruption.
  A phase that fails, and a frame that cannot be decoded, let the request through with the error in the variable
  \<open>error\<close> and the outcome \<open>error\<close>. A request that is interrupted carries the status the rule asked for, saturated to
  32 bits, and 403 if it asked for none. The transaction is logged and closed on every path.
\<close>

theorem spoa_implements_phases:
  assumes "parseSPOERequest kvs None = Inr req"
    and "runPhases (requestPhases Z (spoaBodyArg req)) (spoaStart Z readMIME waf req) = (v, tx)"
  shows "varValues ''action'' (sx_actions (HandleSPOE Z readMIME waf mode kvs None)) =
      [VStr (if mode = ModeBlocking \<and> (\<exists>it. v = Interrupted it) then ''deny'' else ''allow'')]
    \<and> sx_outcome (HandleSPOE Z readMIME waf mode kvs None) =
      (case v of Failed err \<Rightarrow> ''error'' | Passed \<Rightarrow> ''allowed''
       | Interrupted it \<Rightarrow> if mode = ModeBlocking then ''denied'' else ''allowed'')
    \<and> varValues ''error'' (sx_actions (HandleSPOE Z readMIME waf mode kvs None)) =
      (case v of Failed err \<Rightarrow> [VStr err] | _ \<Rightarrow> [])
    \<and> (v = Interrupted it \<longrightarrow> (\<exists>s. varValues ''status'' (sx_actions (HandleSPOE Z readMIME waf mode kvs None)) = [VInt32 s]
      \<and> sint s = (if it_Status it = 0 then 403 else max (- 2147483648) (min 2147483647 (it_Status it))) \<and> s \<noteq> 0))
    \<and> sx_tx (HandleSPOE Z readMIME waf mode kvs None) = Some (endTransaction Z tx)
    \<and> HandleSPOE Z readMIME waf mode kvs (Some e) =
      \<lparr>sx_actions = [(''action'', VStr ''allow''), (''error'', VStr e)], sx_outcome = ''error'', sx_tx = None\<rparr>"
proof (intro conjI impI)
  note h = HandleSPOE_phases [OF assms, of mode]
  show "varValues ''action'' (sx_actions (HandleSPOE Z readMIME waf mode kvs None)) =
      [VStr (if mode = ModeBlocking \<and> (\<exists>it. v = Interrupted it) then ''deny'' else ''allow'')]"
    and "sx_outcome (HandleSPOE Z readMIME waf mode kvs None) =
      (case v of Failed err \<Rightarrow> ''error'' | Passed \<Rightarrow> ''allowed''
       | Interrupted it \<Rightarrow> if mode = ModeBlocking then ''denied'' else ''allowed'')"
    and "varValues ''error'' (sx_actions (HandleSPOE Z readMIME waf mode kvs None)) =
      (case v of Failed err \<Rightarrow> [VStr err] | _ \<Rightarrow> [])"
    and "sx_tx (HandleSPOE Z readMIME waf mode kvs None) = Some (endTransaction Z tx)"
    unfolding h by (cases v; simp add: spoa_defs)+
  show "\<exists>s. varValues ''status'' (sx_actions (HandleSPOE Z readMIME waf mode kvs None)) = [VInt32 s]
      \<and> sint s = (if it_Status it = 0 then 403 else max (- 2147483648) (min 2147483647 (it_Status it))) \<and> s \<noteq> 0"
    if "v = Interrupted it"
    unfolding h that
    by (simp add: spoa_defs clampInt32_eq_0 clampInt32_saturates)
  show "HandleSPOE Z readMIME waf mode kvs (Some e) =
      \<lparr>sx_actions = [(''action'', VStr ''allow''), (''error'', VStr e)], sx_outcome = ''error'', sx_tx = None\<rparr>"
    by (simp add: HandleSPOE_def parseSPOERequest_def spoa_defs)
qed

theorem spoa_implements_phases_witness:
  "varValues ''action'' (sx_actions (HandleSPOE demoCoraza (\<lambda>b. ([], None)) [''body''] ModeBlocking [] None)) =
     [VStr ''deny'']
   \<and> (\<exists>s. varValues ''status'' (sx_actions (HandleSPOE demoCoraza (\<lambda>b. ([], None)) [''body''] ModeBlocking [] None)) =
        [VInt32 s] \<and> sint s = 403)"
proof -
  have p: "parseSPOERequest [] None = Inr (emptySpoeRequest\<lparr>sq_reqVer := ''1.1''\<rparr>)"
    by (simp add: parseSPOERequest_def emptySpoeRequest_def)
  have "\<exists>tx. runPhases (requestPhases demoCoraza (spoaBodyArg (emptySpoeRequest\<lparr>sq_reqVer := ''1.1''\<rparr>)))
      (spoaStart demoCoraza (\<lambda>b. ([], None)) [''body''] (emptySpoeRequest\<lparr>sq_reqVer := ''1.1''\<rparr>)) =
      (Interrupted \<lparr>it_RuleID = 7, it_Action = ''deny'', it_Status = 0\<rparr>, tx)"
    by (simp add: requestPhases_def headerPhase_def spoaBodyArg_def spoaStart_def emptySpoeRequest_def demoCoraza_def
        demoHit_def demoNote_def)
  then obtain tx where r: "runPhases (requestPhases demoCoraza (spoaBodyArg (emptySpoeRequest\<lparr>sq_reqVer := ''1.1''\<rparr>)))
      (spoaStart demoCoraza (\<lambda>b. ([], None)) [''body''] (emptySpoeRequest\<lparr>sq_reqVer := ''1.1''\<rparr>)) =
      (Interrupted \<lparr>it_RuleID = 7, it_Action = ''deny'', it_Status = 0\<rparr>, tx)" ..
  show ?thesis
    using spoa_implements_phases [OF p r, of ModeBlocking "\<lparr>it_RuleID = 7, it_Action = ''deny'', it_Status = 0\<rparr>"]
    by auto
qed

end
