(* ===== verification/Waf_Provider.thy ===== *)
theory Waf_Provider
  imports Compiler
begin

text \<open>
  The active firewall of an engine: \<open>BuildWAF\<close> (\<open>internal/enginepkg/waf.go\<close>), the provider that swaps it
  (\<open>provider.go\<close>), and the parts of \<open>server.go\<close> that load the first one, apply received bundles, persist them and
  answer the probes. \<open>coraza.NewWAF\<close> is the parameter \<open>newWAF\<close>; the outcome of every system call of the file writer
  is a parameter too. The locale \<open>reloadable\<close> states what a reload promises and is interpreted on \<open>Swap\<close> and on
  the bundle handler.
\<close>

subsection \<open>BuildWAF\<close>

record WAFConfig =
  wc_RequestBodyAccess :: bool
  wc_RequestBodyLimit :: int
  wc_RequestBodyInMemoryLimit :: int
  wc_ResponseBodyAccess :: bool
  wc_ResponseBodyLimit :: int
  wc_Directives :: string

definition BuildWAF :: "(WAFConfig \<Rightarrow> 'waf result) \<Rightarrow> string \<Rightarrow> ('waf \<times> nat) result" where
  "BuildWAF newWAF seclang =
     (case newWAF \<lparr>wc_RequestBodyAccess = True, wc_RequestBodyLimit = 1 * 1024 * 1024,
                   wc_RequestBodyInMemoryLimit = 1 * 1024 * 1024, wc_ResponseBodyAccess = True,
                   wc_ResponseBodyLimit = 1 * 1024 * 1024, wc_Directives = seclang\<rparr> of
        Inl err \<Rightarrow> Inl (''build WAF from SecLang: '' @ err)
      | Inr waf \<Rightarrow> Inr (waf, CountRules seclang))"

subsection \<open>The atomic provider\<close>

text \<open>A zero \<open>time.Time\<close> is \<open>None\<close>; a nil interface is \<open>None\<close> as well.\<close>

record ProviderState =
  ps_SHA256 :: string
  ps_RuleSetName :: string
  ps_RuleCount :: nat
  ps_ReloadedAt :: "time option"
  ps_LastError :: string
  ps_LastErrorAt :: "time option"

record 'waf AtomicProvider =
  ap_waf :: "'waf option"
  ap_state :: ProviderState

definition NewAtomicProvider :: "time \<Rightarrow> 'waf option \<Rightarrow> string \<Rightarrow> 'waf AtomicProvider" where
  "NewAtomicProvider now initial sha =
     \<lparr>ap_waf = initial,
      ap_state = \<lparr>ps_SHA256 = sha, ps_RuleSetName = '''', ps_RuleCount = 0, ps_ReloadedAt = Some now,
                  ps_LastError = '''', ps_LastErrorAt = None\<rparr>\<rparr>"

definition Current :: "'waf AtomicProvider \<Rightarrow> 'waf option" where
  "Current p = ap_waf p"

definition State :: "'waf AtomicProvider \<Rightarrow> ProviderState" where
  "State p = ap_state p"

text \<open>The stores a \<open>Swap\<close> performs, in order, and the error it returns.\<close>

datatype 'waf pstore = StoreWAF 'waf | StoreState ProviderState

fun doStore :: "'waf pstore \<Rightarrow> 'waf AtomicProvider \<Rightarrow> 'waf AtomicProvider" where
  "doStore (StoreWAF w) p = p\<lparr>ap_waf := Some w\<rparr>"
| "doStore (StoreState st) p = p\<lparr>ap_state := st\<rparr>"

definition failedState :: "time \<Rightarrow> string \<Rightarrow> ProviderState \<Rightarrow> ProviderState" where
  "failedState now err prev =
     \<lparr>ps_SHA256 = ps_SHA256 prev, ps_RuleSetName = ps_RuleSetName prev, ps_RuleCount = ps_RuleCount prev,
      ps_ReloadedAt = ps_ReloadedAt prev, ps_LastError = ''parse failed: '' @ err, ps_LastErrorAt = Some now\<rparr>"

definition swappedState :: "time \<Rightarrow> string \<Rightarrow> string \<Rightarrow> nat \<Rightarrow> ProviderState" where
  "swappedState now rulesetName sha ruleCount =
     \<lparr>ps_SHA256 = sha, ps_RuleSetName = rulesetName, ps_RuleCount = ruleCount, ps_ReloadedAt = Some now,
      ps_LastError = '''', ps_LastErrorAt = None\<rparr>"

definition swapStores ::
  "(WAFConfig \<Rightarrow> 'waf result) \<Rightarrow> time \<Rightarrow> string \<Rightarrow> string \<Rightarrow> string \<Rightarrow> 'waf AtomicProvider
    \<Rightarrow> 'waf pstore list \<times> unit result" where
  "swapStores newWAF now rulesetName sha seclang p =
     (case BuildWAF newWAF seclang of
        Inl err \<Rightarrow> ([StoreState (failedState now err (ap_state p))], Inl (''swap WAF: '' @ err))
      | Inr (waf, ruleCount) \<Rightarrow>
          ([StoreWAF waf, StoreState (swappedState now rulesetName sha ruleCount)], Inr ()))"

definition Swap ::
  "(WAFConfig \<Rightarrow> 'waf result) \<Rightarrow> time \<Rightarrow> string \<Rightarrow> string \<Rightarrow> string \<Rightarrow> 'waf AtomicProvider
    \<Rightarrow> unit result \<times> 'waf AtomicProvider" where
  "Swap newWAF now rulesetName sha seclang p =
     (case swapStores newWAF now rulesetName sha seclang p of
        (stores, r) \<Rightarrow> (r, fold doStore stores p))"

subsection \<open>Files\<close>

text \<open>
  The outcome of the system calls of one file write, \<open>None\<close> for success; a failing write may have written a
  prefix. \<open>files\<close> maps a path to its content.
\<close>

record fsOutcome =
  fo_create :: "string option"
  fo_write :: "(nat \<times> string) option"
  fo_sync :: "string option"
  fo_close :: "string option"
  fo_rename :: "string option"

type_synonym files = "string \<rightharpoonup> string"

definition atomicWriteFile :: "fsOutcome \<Rightarrow> string \<Rightarrow> string \<Rightarrow> files \<Rightarrow> unit result \<times> files" where
  "atomicWriteFile oc path data fs =
     (let tmp = path @ ''.tmp'' in
      case fo_create oc of
        Some err \<Rightarrow> (Inl (''create temp file: '' @ err), fs)
      | None \<Rightarrow>
          (case fo_write oc of
             Some (n, err) \<Rightarrow> (Inl (''write temp file: '' @ err), fs(tmp \<mapsto> take n data))
           | None \<Rightarrow>
               (let fs1 = fs(tmp \<mapsto> data) in
                case fo_sync oc of
                  Some err \<Rightarrow> (Inl (''sync temp file: '' @ err), fs1)
                | None \<Rightarrow>
                    (case fo_close oc of
                       Some err \<Rightarrow> (Inl (''close temp file: '' @ err), fs1)
                     | None \<Rightarrow>
                         (case fo_rename oc of
                            Some err \<Rightarrow> (Inl (''rename temp to '' @ path @ '': '' @ err), fs1)
                          | None \<Rightarrow> (Inr (), (fs1(tmp := None))(path \<mapsto> data)))))))"

definition short :: "string \<Rightarrow> string" where
  "short hex = (if length hex > 12 then take 12 hex else hex)"

definition sha256Hex :: "string \<Rightarrow> string" where
  "sha256Hex data = sha256hex data"

subsection \<open>Loading and reloading\<close>

text \<open>\<open>os.ReadFile\<close> is the argument \<open>readFile\<close>.\<close>

definition loadInitialWAF ::
  "(WAFConfig \<Rightarrow> 'waf result) \<Rightarrow> (string \<Rightarrow> string result) \<Rightarrow> time \<Rightarrow> string
    \<Rightarrow> ('waf AtomicProvider \<times> nat) result" where
  "loadInitialWAF newWAF readFile now rulePath =
     (case readFile rulePath of
        Inl err \<Rightarrow> Inl (''read rule file '' @ rulePath @ '': '' @ err)
      | Inr ruleBytes \<Rightarrow>
          (case BuildWAF newWAF ruleBytes of
             Inl err \<Rightarrow> Inl (''build WAF: '' @ err)
           | Inr (waf, ruleCount) \<Rightarrow> Inr (NewAtomicProvider now (Some waf) (sha256Hex ruleBytes), ruleCount)))"

record EBundle =
  eb_RuleSetName :: string
  eb_SHA256 :: string
  eb_Compiled :: string

text \<open>What the bundle handler works on: the provider, the reload metrics and the files.\<close>

record 'waf EngineState =
  eg_provider :: "'waf AtomicProvider"
  eg_reloadSuccess :: nat
  eg_reloadFailure :: nat
  eg_currentRules :: nat
  eg_files :: files

definition newBundleHandler ::
  "(WAFConfig \<Rightarrow> 'waf result) \<Rightarrow> string \<Rightarrow> time \<Rightarrow> fsOutcome \<Rightarrow> EBundle \<Rightarrow> 'waf EngineState \<Rightarrow> 'waf EngineState" where
  "newBundleHandler newWAF cachePath now oc b e =
     (case Swap newWAF now (eb_RuleSetName b) (eb_SHA256 b) (eb_Compiled b) (eg_provider e) of
        (Inl err, p) \<Rightarrow> e\<lparr>eg_provider := p, eg_reloadFailure := eg_reloadFailure e + 1\<rparr>
      | (Inr _, p) \<Rightarrow>
          (let e1 = e\<lparr>eg_provider := p, eg_reloadSuccess := eg_reloadSuccess e + 1,
                      eg_currentRules := ps_RuleCount (State p)\<rparr>
           in if cachePath = '''' then e1
              else e1\<lparr>eg_files := snd (atomicWriteFile oc cachePath (eb_Compiled b) (eg_files e1))\<rparr>))"

subsection \<open>Probes\<close>

text \<open>A response is its status code and body; \<open>http.Error\<close> ends the text with a newline.\<close>

definition healthz :: "'waf AtomicProvider \<Rightarrow> int \<times> string" where
  "healthz p = (if Current p \<noteq> None then (200, ''ok'') else (503, ''WAF not initialised'' @ [nl]))"

definition readyz :: "'waf AtomicProvider \<Rightarrow> int \<times> string" where
  "readyz p = (if ps_SHA256 (State p) \<noteq> '''' then (200, ''ready'') else (503, ''WAF not ready'' @ [nl]))"

subsection \<open>The contract of a reload\<close>

definition parsable :: "('src \<Rightarrow> 'err + 'waf) \<Rightarrow> 'src \<Rightarrow> bool" where
  "parsable parse src \<longleftrightarrow> (\<exists>w. parse src = Inr w)"

text \<open>
  A reload of a source that parses activates it and its tag; one that does not parse keeps what is active. Clients
  apply a list of sources.
\<close>

locale reloadable =
  fixes parse :: "'src \<Rightarrow> 'err + 'waf" and active :: "'s \<Rightarrow> 'waf option" and tag :: "'s \<Rightarrow> 'd"
    and srcTag :: "'src \<Rightarrow> 'd" and reload :: "'src \<Rightarrow> 's \<Rightarrow> 's"
  assumes reload_ok: "parse src = Inr w \<Longrightarrow> active (reload src s) = Some w \<and> tag (reload src s) = srcTag src"
    and reload_bad: "parse src = Inl e \<Longrightarrow> active (reload src s) = active s \<and> tag (reload src s) = tag s"
begin

lemma reload_run:
  "(case filter (parsable parse) srcs of
      [] \<Rightarrow> active (fold reload srcs s) = active s \<and> tag (fold reload srcs s) = tag s
    | _ \<Rightarrow> (\<exists>w. parse (last (filter (parsable parse) srcs)) = Inr w \<and> active (fold reload srcs s) = Some w \<and>
        tag (fold reload srcs s) = srcTag (last (filter (parsable parse) srcs))))"
proof (induction srcs arbitrary: s rule: rev_induct)
  case Nil
  show ?case by simp
next
  case (snoc src srcs)
  show ?case
  proof (cases "parse src")
    case (Inl e)
    then have "\<not> parsable parse src" by (simp add: parsable_def)
    with snoc.IH [of s] reload_bad [OF Inl] show ?thesis
      by (cases "filter (parsable parse) srcs") auto
  next
    case (Inr w)
    then have "parsable parse src" by (simp add: parsable_def)
    with reload_ok [OF Inr] Inr show ?thesis
      by (cases "filter (parsable parse) srcs") auto
  qed
qed

text \<open>In particular something stays active.\<close>

lemma reload_never_empty: "active s \<noteq> None \<Longrightarrow> active (fold reload srcs s) \<noteq> None"
  using reload_run [of srcs s] by (auto split: list.splits)

end

abbreviation parseText :: "(WAFConfig \<Rightarrow> 'waf result) \<Rightarrow> string \<Rightarrow> 'waf result" where
  "parseText newWAF seclang \<equiv> map_sum id fst (BuildWAF newWAF seclang)"

lemma Swap_cases:
  obtains (failed) err where "BuildWAF newWAF seclang = Inl err"
      "\<And>now n sha p. Swap newWAF now n sha seclang p =
        (Inl (''swap WAF: '' @ err), p\<lparr>ap_state := failedState now err (ap_state p)\<rparr>)"
    | (swapped) waf where "BuildWAF newWAF seclang = Inr (waf, CountRules seclang)"
      "\<And>now n sha p. Swap newWAF now n sha seclang p =
        (Inr (), \<lparr>ap_waf = Some waf, ap_state = swappedState now n sha (CountRules seclang)\<rparr>)"
proof (cases "BuildWAF newWAF seclang")
  case (Inl err)
  then show thesis by (intro failed) (simp_all add: Swap_def swapStores_def)
next
  case (Inr r)
  moreover from this have "snd r = CountRules seclang"
    by (auto simp: BuildWAF_def split: sum.splits)
  ultimately show thesis
    by (cases r) (auto intro!: swapped simp: Swap_def swapStores_def)
qed

text \<open>The provider alone, fed with the time and a bundle, and the handler, which also gets the file outcome.\<close>

definition swapStep :: "(WAFConfig \<Rightarrow> 'waf result) \<Rightarrow> time \<times> EBundle \<Rightarrow> 'waf AtomicProvider \<Rightarrow> 'waf AtomicProvider" where
  "swapStep newWAF x p =
     snd (Swap newWAF (fst x) (eb_RuleSetName (snd x)) (eb_SHA256 (snd x)) (eb_Compiled (snd x)) p)"

definition handlerStep ::
  "(WAFConfig \<Rightarrow> 'waf result) \<Rightarrow> string \<Rightarrow> time \<times> fsOutcome \<times> EBundle \<Rightarrow> 'waf EngineState \<Rightarrow> 'waf EngineState" where
  "handlerStep newWAF cachePath x e =
     newBundleHandler newWAF cachePath (fst x) (fst (snd x)) (snd (snd x)) e"

abbreviation stateTag :: "ProviderState \<Rightarrow> string \<times> string \<times> nat" where
  "stateTag st \<equiv> (ps_SHA256 st, ps_RuleSetName st, ps_RuleCount st)"

abbreviation bundleTag :: "EBundle \<Rightarrow> string \<times> string \<times> nat" where
  "bundleTag b \<equiv> (eb_SHA256 b, eb_RuleSetName b, CountRules (eb_Compiled b))"

interpretation provider_reload: reloadable "\<lambda>x. parseText newWAF (eb_Compiled (snd x))" ap_waf
  "\<lambda>p. stateTag (ap_state p)" "\<lambda>x. bundleTag (snd x)" "swapStep newWAF" for newWAF :: "WAFConfig \<Rightarrow> 'waf result"
proof unfold_locales
  fix src :: "time \<times> EBundle" and w s e
  show "ap_waf (swapStep newWAF src s) = Some w \<and> stateTag (ap_state (swapStep newWAF src s)) = bundleTag (snd src)"
    if "parseText newWAF (eb_Compiled (snd src)) = Inr w"
    using that by (cases rule: Swap_cases [of newWAF "eb_Compiled (snd src)"])
      (simp_all add: swapStep_def swappedState_def)
  show "ap_waf (swapStep newWAF src s) = ap_waf s \<and> stateTag (ap_state (swapStep newWAF src s)) = stateTag (ap_state s)"
    if "parseText newWAF (eb_Compiled (snd src)) = Inl e"
    using that by (cases rule: Swap_cases [of newWAF "eb_Compiled (snd src)"])
      (simp_all add: swapStep_def failedState_def)
qed

lemma handler_provider:
  "eg_provider (handlerStep newWAF cachePath x e) = swapStep newWAF (fst x, snd (snd x)) (eg_provider e)"
  by (simp add: handlerStep_def newBundleHandler_def swapStep_def Let_def split: prod.splits sum.splits)

interpretation bundle_handler: reloadable "\<lambda>x. parseText newWAF (eb_Compiled (snd (snd x)))"
  "\<lambda>e. ap_waf (eg_provider e)" "\<lambda>e. stateTag (ap_state (eg_provider e))" "\<lambda>x. bundleTag (snd (snd x))"
  "handlerStep newWAF cachePath" for newWAF :: "WAFConfig \<Rightarrow> 'waf result" and cachePath
proof unfold_locales
  fix src :: "time \<times> fsOutcome \<times> EBundle" and w s e
  show "ap_waf (eg_provider (handlerStep newWAF cachePath src s)) = Some w \<and>
      stateTag (ap_state (eg_provider (handlerStep newWAF cachePath src s))) = bundleTag (snd (snd src))"
    if "parseText newWAF (eb_Compiled (snd (snd src))) = Inr w"
    using provider_reload.reload_ok [of newWAF "(fst src, snd (snd src))"] that by (simp add: handler_provider)
  show "ap_waf (eg_provider (handlerStep newWAF cachePath src s)) = ap_waf (eg_provider s) \<and>
      stateTag (ap_state (eg_provider (handlerStep newWAF cachePath src s))) = stateTag (ap_state (eg_provider s))"
    if "parseText newWAF (eb_Compiled (snd (snd src))) = Inl e"
    using provider_reload.reload_bad [of newWAF "(fst src, snd (snd src))"] that by (simp add: handler_provider)
qed

definition parses :: "(WAFConfig \<Rightarrow> 'waf result) \<Rightarrow> EBundle \<Rightarrow> bool" where
  "parses newWAF b \<longleftrightarrow> (\<exists>r. BuildWAF newWAF (eb_Compiled b) = Inr r)"

lemma good_iff_parses:
  "parsable (\<lambda>x. parseText newWAF (eb_Compiled (snd (snd x)))) x \<longleftrightarrow> parses newWAF (snd (snd x))"
  unfolding parsable_def parses_def by (cases "BuildWAF newWAF (eb_Compiled (snd (snd x)))") auto

text \<open>The two outcomes of one bundle.\<close>

lemma handlerStep_failed:
  assumes "\<not> parses newWAF (snd (snd x))"
  shows "\<exists>p. ps_RuleCount (ap_state p) = ps_RuleCount (ap_state (eg_provider e)) \<and>
    handlerStep newWAF cachePath x e = e\<lparr>eg_provider := p, eg_reloadFailure := eg_reloadFailure e + 1\<rparr>"
proof (cases rule: Swap_cases [of newWAF "eb_Compiled (snd (snd x))"])
  case (failed err)
  then show ?thesis
    by (intro exI [of _ "(eg_provider e)\<lparr>ap_state := failedState (fst x) err (ap_state (eg_provider e))\<rparr>"])
      (simp add: handlerStep_def newBundleHandler_def failedState_def)
next
  case (swapped waf)
  with assms show ?thesis by (simp add: parses_def)
qed

lemma handlerStep_swapped:
  assumes "parses newWAF (snd (snd x))"
  shows "\<exists>p fs. handlerStep newWAF cachePath x e = e\<lparr>eg_provider := p, eg_reloadSuccess := eg_reloadSuccess e + 1,
    eg_currentRules := ps_RuleCount (ap_state p), eg_files := fs\<rparr>"
proof (cases rule: Swap_cases [of newWAF "eb_Compiled (snd (snd x))"])
  case (failed err)
  with assms show ?thesis by (simp add: parses_def)
next
  case (swapped waf)
  let ?b = "snd (snd x)"
  let ?p = "\<lparr>ap_waf = Some waf, ap_state = swappedState (fst x) (eb_RuleSetName ?b) (eb_SHA256 ?b)
    (CountRules (eb_Compiled ?b))\<rparr>"
  let ?fs = "if cachePath = '''' then eg_files e
    else snd (atomicWriteFile (fst (snd x)) cachePath (eb_Compiled ?b) (eg_files e))"
  show ?thesis
    by (intro exI [of _ ?p] exI [of _ ?fs])
      (simp add: handlerStep_def newBundleHandler_def swapped Let_def State_def)
qed

text \<open>The metrics count every bundle once, and the gauge follows the provider once it did.\<close>

lemma handler_counts:
  "eg_reloadSuccess (handlerStep newWAF cachePath x e) =
     eg_reloadSuccess e + (if parses newWAF (snd (snd x)) then 1 else 0)"
  "eg_reloadFailure (handlerStep newWAF cachePath x e) =
     eg_reloadFailure e + (if parses newWAF (snd (snd x)) then 0 else 1)"
  using handlerStep_failed [of newWAF x e cachePath] handlerStep_swapped [of newWAF x cachePath e]
  by (cases "parses newWAF (snd (snd x))"; fastforce)+

lemma handler_gauge:
  "eg_currentRules e = ps_RuleCount (ap_state (eg_provider e)) \<Longrightarrow>
   eg_currentRules (handlerStep newWAF cachePath x e) =
     ps_RuleCount (ap_state (eg_provider (handlerStep newWAF cachePath x e)))"
  using handlerStep_failed [of newWAF x e cachePath] handlerStep_swapped [of newWAF x cachePath e]
  by (cases "parses newWAF (snd (snd x))"; fastforce)

lemma handler_run_counts:
  fixes newWAF :: "WAFConfig \<Rightarrow> 'waf result" and e :: "'waf EngineState"
  shows "eg_reloadSuccess (fold (handlerStep newWAF cachePath) xs e) =
      eg_reloadSuccess e + length (filter (\<lambda>x. parses newWAF (snd (snd x))) xs)"
    and "eg_reloadFailure (fold (handlerStep newWAF cachePath) xs e) =
      eg_reloadFailure e + length (filter (\<lambda>x. \<not> parses newWAF (snd (snd x))) xs)"
    and "eg_currentRules e = ps_RuleCount (ap_state (eg_provider e)) \<Longrightarrow>
      eg_currentRules (fold (handlerStep newWAF cachePath) xs e) =
        ps_RuleCount (ap_state (eg_provider (fold (handlerStep newWAF cachePath) xs e)))"
  by (induction xs arbitrary: e) (simp_all add: handler_counts handler_gauge)

lemma atomicWriteFile_result:
  "fst (atomicWriteFile oc path data fs) = Inr () \<longleftrightarrow> snd (atomicWriteFile oc path data fs) path = Some data \<and>
     snd (atomicWriteFile oc path data fs) (path @ ''.tmp'') = None \<and>
     fo_create oc = None \<and> fo_write oc = None \<and> fo_sync oc = None \<and> fo_close oc = None \<and> fo_rename oc = None"
  by (auto simp: atomicWriteFile_def Let_def split: option.splits)

subsection \<open>Readers during a swap\<close>

text \<open>A reader's loads interleaved with the stores of one swap; the log keeps what was loaded, in order.\<close>

datatype 'waf pevent = DoStore "'waf pstore" | LoadWAF | LoadState

datatype 'waf loaded = GotWAF "'waf option" | GotState ProviderState

fun runEvents :: "'waf pevent list \<Rightarrow> 'waf AtomicProvider \<Rightarrow> 'waf loaded list" where
  "runEvents [] p = []"
| "runEvents (DoStore s # evs) p = runEvents evs (doStore s p)"
| "runEvents (LoadWAF # evs) p = GotWAF (Current p) # runEvents evs p"
| "runEvents (LoadState # evs) p = GotState (State p) # runEvents evs p"

lemma shuffles_2_2:
  "shuffles [a, b] [c, d] =
    {[a, b, c, d], [a, c, b, d], [a, c, d, b], [c, a, b, d], [c, a, d, b], [c, d, a, b]}"
  by (auto simp: Cons_in_shuffles_iff)

subsection \<open>Properties\<close>

text \<open>
  C19. An engine never loses its rules: after any sequence of bundles, whatever the file writes did, the active
  firewall is the one of the last bundle that parsed, or the initial one if none did, and the state names exactly
  that bundle's digest, rule set and rule count. Every bundle is counted once, as a success or as a failure.
\<close>

theorem reload_keeps_last_good:
  fixes newWAF :: "WAFConfig \<Rightarrow> 'waf result" and e :: "'waf EngineState"
  shows "(let e' = fold (handlerStep newWAF cachePath) xs e;
        good = filter (\<lambda>b. parses newWAF b) (map (\<lambda>x. snd (snd x)) xs) in
    (case good of
       [] \<Rightarrow> ap_waf (eg_provider e') = ap_waf (eg_provider e) \<and>
         stateTag (ap_state (eg_provider e')) = stateTag (ap_state (eg_provider e))
     | _ \<Rightarrow> (\<exists>w. BuildWAF newWAF (eb_Compiled (last good)) = Inr (w, CountRules (eb_Compiled (last good))) \<and>
         ap_waf (eg_provider e') = Some w) \<and>
         stateTag (ap_state (eg_provider e')) = bundleTag (last good)) \<and>
    eg_reloadSuccess e' + eg_reloadFailure e' = eg_reloadSuccess e + eg_reloadFailure e + length xs \<and>
    eg_reloadSuccess e' = eg_reloadSuccess e + length good)"
proof -
  let ?e = "fold (handlerStep newWAF cachePath) xs e"
  let ?gx = "filter (\<lambda>x. parses newWAF (snd (snd x))) xs"
  let ?good = "filter (\<lambda>b. parses newWAF b) (map (\<lambda>x. snd (snd x)) xs)"
  have good: "?good = map (\<lambda>x. snd (snd x)) ?gx"
    by (simp add: filter_map o_def)
  have run: "(case ?gx of
      [] \<Rightarrow> ap_waf (eg_provider ?e) = ap_waf (eg_provider e) \<and>
        stateTag (ap_state (eg_provider ?e)) = stateTag (ap_state (eg_provider e))
    | _ \<Rightarrow> (\<exists>w. parseText newWAF (eb_Compiled (snd (snd (last ?gx)))) = Inr w \<and>
        ap_waf (eg_provider ?e) = Some w \<and>
        stateTag (ap_state (eg_provider ?e)) = bundleTag (snd (snd (last ?gx)))))"
    using bundle_handler.reload_run [of newWAF cachePath xs e] unfolding good_iff_parses .
  have count: "parseText newWAF t = Inr w \<longleftrightarrow> BuildWAF newWAF t = Inr (w, CountRules t)" for t w
    by (cases rule: Swap_cases [of newWAF t]) auto
  have "length ?gx + length (filter (\<lambda>x. \<not> parses newWAF (snd (snd x))) xs) = length xs"
    by (rule sum_length_filter_compl)
  with run show ?thesis
    unfolding Let_def good
    by (cases ?gx) (auto simp: handler_run_counts count last_map)
qed

text \<open>
  C36. The cache is never torn: whichever system call of \<open>atomicWriteFile\<close> fails, and however much of the data
  reached the temporary file, the file at the path has its old content, and it has the new content when no error
  is reported; no other file is touched but the temporary one.
\<close>

theorem atomic_write_never_partial:
  "snd (atomicWriteFile oc path data fs) path =
     (if fst (atomicWriteFile oc path data fs) = Inr () then Some data else fs path) \<and>
   (\<forall>q. q = path \<or> q = path @ ''.tmp'' \<or> snd (atomicWriteFile oc path data fs) q = fs q)"
  by (auto simp: atomicWriteFile_def Let_def split: option.splits)

text \<open>
  What a concurrent reader can see during a successful swap depends on the order of its loads: one that loads
  the state before the firewall never pairs the new state with the old firewall; one that loads the firewall first
  can, so the order of the two stores alone does not exclude it.
\<close>

theorem swap_reader_order:
  fixes newWAF :: "WAFConfig \<Rightarrow> 'waf result"
  assumes "BuildWAF newWAF seclang = Inr (w, n)" and "ap_state p \<noteq> swappedState now name sha n"
    and "writer = map DoStore (fst (swapStores newWAF now name sha seclang p))"
  shows "(\<forall>evs \<in> shuffles writer [LoadState, LoadWAF].
      runEvents evs p \<in> {[GotState (ap_state p), GotWAF (ap_waf p)], [GotState (ap_state p), GotWAF (Some w)],
        [GotState (swappedState now name sha n), GotWAF (Some w)]}) \<and>
    (\<exists>evs \<in> shuffles writer [LoadWAF, LoadState].
      runEvents evs p = [GotWAF (ap_waf p), GotState (swappedState now name sha n)])"
proof -
  have "writer = [DoStore (StoreWAF w), DoStore (StoreState (swappedState now name sha n))]"
    using assms(1,3) by (simp add: swapStores_def)
  then show ?thesis
    by (simp add: shuffles_2_2 Current_def State_def)
qed

text \<open>
  The first load makes the engine ready with the right digest: when the rule file can be read and parses, the
  probes answer 200 at once, the reported digest is the digest of the file and the rule count handed to the gauge is
  that of the file; but the state reports zero rules and no rule set until the first bundle arrives.
\<close>

theorem initial_load_ready:
  assumes "loadInitialWAF newWAF readFile now path = Inr (p, n)"
  shows "\<exists>body. readFile path = Inr body \<and> fst (readyz p) = 200 \<and> fst (healthz p) = 200 \<and>
    ps_SHA256 (State p) = sha256hex body \<and> n = CountRules body \<and>
    ps_RuleCount (State p) = 0 \<and> ps_RuleSetName (State p) = ''''"
proof -
  obtain body w where t: "readFile path = Inr body" "BuildWAF newWAF body = Inr (w, n)"
    "p = NewAtomicProvider now (Some w) (sha256Hex body)"
    using assms by (auto simp: loadInitialWAF_def split: sum.splits)
  moreover have "n = CountRules body"
    using t(2) by (auto simp: BuildWAF_def split: sum.splits)
  ultimately show ?thesis
    by (simp add: readyz_def healthz_def NewAtomicProvider_def State_def Current_def
        sha256Hex_def Let_def)
qed

subsection \<open>Witnesses\<close>

text \<open>A parser that accepts every text but \<open>bad\<close>.\<close>

definition demoNewWAF :: "WAFConfig \<Rightarrow> string result" where
  "demoNewWAF c = (if wc_Directives c = ''bad'' then Inl ''syntax'' else Inr (wc_Directives c))"

lemma demo_BuildWAF: "BuildWAF demoNewWAF ''SecAction'' = Inr (''SecAction'', CountRules ''SecAction'')"
  by (simp add: BuildWAF_def demoNewWAF_def)

theorem swap_reader_order_witness:
  "\<exists>evs p. runEvents evs p = [GotWAF (Some ''old''),
     GotState (swappedState 5 ''r'' ''h'' (CountRules ''SecAction''))]"
proof -
  let ?p = "NewAtomicProvider 1 (Some ''old'') '''' :: string AtomicProvider"
  have "ap_state ?p \<noteq> swappedState 5 ''r'' ''h'' (CountRules ''SecAction'')" "ap_waf ?p = Some ''old''"
    by (simp_all add: NewAtomicProvider_def swappedState_def)
  with swap_reader_order [OF demo_BuildWAF, of ?p 5 "''r''" "''h''"] show ?thesis
    by (metis (no_types, lifting))
qed

theorem initial_load_ready_witness:
  "\<exists>p n. loadInitialWAF demoNewWAF (\<lambda>path. Inr ''SecAction'') 1 ''/etc/coraza/rules.conf'' = Inr (p, n) \<and>
     fst (readyz p) = 200 \<and> ps_SHA256 (State p) = sha256hex ''SecAction''"
proof -
  obtain p n where l: "loadInitialWAF demoNewWAF (\<lambda>path. Inr ''SecAction'') 1 ''/etc/coraza/rules.conf'' = Inr (p, n)"
    by (simp add: loadInitialWAF_def demo_BuildWAF)
  from initial_load_ready [OF l] l show ?thesis by auto
qed

end
