(* ===== verification/Front_Ends.thy ===== *)
theory Front_Ends
  imports Proxy Spoa Waf_Provider
begin

text \<open>
  What the two front ends of the engine share: the interface \<open>WAFProvider\<close> with its two implementations
  (\<open>internal/enginepkg/proxy.go\<close>, \<open>provider.go\<close>), the state of the HAProxy agent with its optional metrics (\<open>spoa.go\<close>),
  and the engine under traffic. A request reads the provider once, at its start, so a request and a reload in any
  interleaving are a sequence of requests, messages and reloads. The locale \<open>waf_provider\<close> states what the front ends
  rely on, and its lemma says that no request of such a sequence finds the provider empty; it is interpreted on the
  provider the engine uses and on the static one.
\<close>

subsection \<open>Providers\<close>

text \<open>\<open>StaticProvider\<close>; the interface value may be nil.\<close>

record 'waf StaticProvider =
  st_W :: "'waf option"

definition StaticProvider_Current :: "'waf StaticProvider \<Rightarrow> 'waf option" where
  "StaticProvider_Current s = st_W s"

subsection \<open>The agent and its metrics\<close>

text \<open>The counter by its label, and the number of observations of the histogram.\<close>

record spoaMetrics =
  sm_messagesTotal :: "string \<Rightarrow> nat"
  sm_messageDuration :: nat

record 'p SPOAHandler =
  sh_Provider :: 'p
  sh_Mode :: string
  sh_Metrics :: "spoaMetrics option"

definition observe :: "string \<Rightarrow> spoaMetrics option \<Rightarrow> spoaMetrics option" where
  "observe outcome m =
     (case m of
        None \<Rightarrow> None
      | Some mt \<Rightarrow>
          Some (mt\<lparr>sm_messagesTotal := (sm_messagesTotal mt)(outcome := sm_messagesTotal mt outcome + 1),
                   sm_messageDuration := sm_messageDuration mt + 1\<rparr>))"

text \<open>
  One message on the shared handler: the message is decoded before the provider is asked, and a provider without a
  firewall is a nil dereference, \<open>None\<close>. Every return observes its outcome once.
\<close>

definition SPOAHandler_HandleSPOE ::
  "('waf, 't) Coraza \<Rightarrow> mimeReader \<Rightarrow> ('p \<Rightarrow> 'waf option) \<Rightarrow> 'p SPOAHandler \<Rightarrow> (string \<times> string) list \<Rightarrow> string option
    \<Rightarrow> ('t spoaResult \<times> 'p SPOAHandler) option" where
  "SPOAHandler_HandleSPOE Z readMIME current h kvs kvError =
     map_option (\<lambda>r. (r, h\<lparr>sh_Metrics := observe (sx_outcome r) (sh_Metrics h)\<rparr>))
       (case parseSPOERequest kvs kvError of
          Inl err \<Rightarrow> Some \<lparr>sx_actions = fst (spoaFail err), sx_outcome = snd (spoaFail err), sx_tx = None\<rparr>
        | Inr req \<Rightarrow> map_option (\<lambda>waf. HandleSPOE Z readMIME waf (sh_Mode h) kvs kvError) (current (sh_Provider h)))"

text \<open>One request on the handler \<open>BuildHandler\<close> returns, with a fresh response writer.\<close>

definition ServeRequest ::
  "('waf, 't) Coraza \<Rightarrow> ('p \<Rightarrow> 'waf option) \<Rightarrow> reverseProxy \<Rightarrow> string \<Rightarrow> 'p \<Rightarrow> HttpRequest \<Rightarrow> 't handled option" where
  "ServeRequest Z current rp mode p r =
     map_option (\<lambda>waf. BuildHandler Z waf rp mode r freshEnv) (current p)"

subsection \<open>Traffic\<close>

datatype 'u trafficEvent = Reload 'u | Request HttpRequest | Message "(string \<times> string) list" "string option"

datatype 't answer = HTTPAnswer "'t handled" | SPOEAnswer "'t spoaResult"

fun serveTraffic ::
  "('waf, 't) Coraza \<Rightarrow> mimeReader \<Rightarrow> reverseProxy \<Rightarrow> ('p \<Rightarrow> 'waf option) \<Rightarrow> ('u \<Rightarrow> 'p \<Rightarrow> 'p) \<Rightarrow> 'u trafficEvent list
    \<Rightarrow> 'p SPOAHandler \<Rightarrow> ('t answer list \<times> 'p SPOAHandler) option" where
  "serveTraffic Z readMIME rp current update [] h = Some ([], h)"
| "serveTraffic Z readMIME rp current update (Reload u # evs) h =
     serveTraffic Z readMIME rp current update evs (h\<lparr>sh_Provider := update u (sh_Provider h)\<rparr>)"
| "serveTraffic Z readMIME rp current update (Request r # evs) h =
     (case ServeRequest Z current rp (sh_Mode h) (sh_Provider h) r of
        None \<Rightarrow> None
      | Some a \<Rightarrow> map_option (apfst ((#) (HTTPAnswer a))) (serveTraffic Z readMIME rp current update evs h))"
| "serveTraffic Z readMIME rp current update (Message kvs kvError # evs) h =
     (case SPOAHandler_HandleSPOE Z readMIME current h kvs kvError of
        None \<Rightarrow> None
      | Some (a, h') \<Rightarrow> map_option (apfst ((#) (SPOEAnswer a))) (serveTraffic Z readMIME rp current update evs h'))"

text \<open>The reference: what each event is answered with when \<open>p\<close> is the provider, and the provider moves with the reloads.\<close>

fun answers ::
  "('waf, 't) Coraza \<Rightarrow> mimeReader \<Rightarrow> reverseProxy \<Rightarrow> string \<Rightarrow> ('p \<Rightarrow> 'waf option) \<Rightarrow> ('u \<Rightarrow> 'p \<Rightarrow> 'p) \<Rightarrow> 'u trafficEvent list
    \<Rightarrow> 'p \<Rightarrow> 't answer list" where
  "answers Z readMIME rp mode current update [] p = []"
| "answers Z readMIME rp mode current update (Reload u # evs) p = answers Z readMIME rp mode current update evs (update u p)"
| "answers Z readMIME rp mode current update (Request r # evs) p =
     HTTPAnswer (BuildHandler Z (the (current p)) rp mode r freshEnv) # answers Z readMIME rp mode current update evs p"
| "answers Z readMIME rp mode current update (Message kvs kvError # evs) p =
     SPOEAnswer (HandleSPOE Z readMIME (the (current p)) mode kvs kvError) # answers Z readMIME rp mode current update evs p"

fun spoeOutcomes :: "'t answer list \<Rightarrow> string list" where
  "spoeOutcomes [] = []"
| "spoeOutcomes (SPOEAnswer a # as) = sx_outcome a # spoeOutcomes as"
| "spoeOutcomes (HTTPAnswer a # as) = spoeOutcomes as"

lemma HandleSPOE_undecoded:
  "parseSPOERequest kvs kvError = Inl err \<Longrightarrow> HandleSPOE Z readMIME waf mode kvs kvError =
     \<lparr>sx_actions = fst (spoaFail err), sx_outcome = snd (spoaFail err), sx_tx = None\<rparr>"
  by (simp add: HandleSPOE_def)

lemma HandleSPOE_handler:
  assumes "current (sh_Provider h) = Some waf"
  shows "SPOAHandler_HandleSPOE Z readMIME current h kvs kvError =
    Some (HandleSPOE Z readMIME waf (sh_Mode h) kvs kvError,
      h\<lparr>sh_Metrics := observe (sx_outcome (HandleSPOE Z readMIME waf (sh_Mode h) kvs kvError)) (sh_Metrics h)\<rparr>)"
  using assms by (auto simp: SPOAHandler_HandleSPOE_def HandleSPOE_undecoded split: sum.split)

text \<open>What the front ends rely on: a provider that has a firewall still has one after an update.\<close>

locale waf_provider =
  fixes current :: "'p \<Rightarrow> 'waf option" and update :: "'u \<Rightarrow> 'p \<Rightarrow> 'p"
  assumes current_kept: "current p \<noteq> None \<Longrightarrow> current (update u p) \<noteq> None"
begin

lemma traffic_served:
  assumes "current (sh_Provider h) \<noteq> None"
  shows "\<exists>h'. serveTraffic Z readMIME rp current update evs h =
      Some (answers Z readMIME rp (sh_Mode h) current update evs (sh_Provider h), h') \<and>
    sh_Metrics h' = fold observe (spoeOutcomes (answers Z readMIME rp (sh_Mode h) current update evs (sh_Provider h))) (sh_Metrics h)"
  using assms
proof (induction evs arbitrary: h)
  case Nil
  then show ?case by simp
next
  case (Cons ev evs)
  from Cons.prems obtain waf where waf: "current (sh_Provider h) = Some waf" by blast
  show ?case
  proof (cases ev)
    case (Reload u)
    with Cons.IH [of "h\<lparr>sh_Provider := update u (sh_Provider h)\<rparr>"] current_kept [OF Cons.prems] show ?thesis by simp
  next
    case (Request r)
    with Cons.IH [OF Cons.prems] waf show ?thesis by (auto simp: ServeRequest_def)
  next
    case (Message kvs kvError)
    let ?a = "HandleSPOE Z readMIME waf (sh_Mode h) kvs kvError"
    from Cons.IH [of "h\<lparr>sh_Metrics := observe (sx_outcome ?a) (sh_Metrics h)\<rparr>"] Cons.prems
      HandleSPOE_handler [where current = current, OF waf, of Z readMIME kvs kvError] waf Message
    show ?thesis by auto
  qed
qed

end

interpretation atomic_provider: waf_provider Current "swapStep newWAF" for newWAF :: "WAFConfig \<Rightarrow> 'waf result"
proof unfold_locales
  fix p :: "'waf AtomicProvider" and u
  show "Current p \<noteq> None \<Longrightarrow> Current (swapStep newWAF u p) \<noteq> None"
    using provider_reload.reload_never_empty [of p newWAF "[u]"] by (simp add: Current_def)
qed

interpretation static_provider: waf_provider StaticProvider_Current "\<lambda>(u :: unit) p. p"
  by unfold_locales

text \<open>The metrics of the agent after a run: each message is counted under its outcome, and timed.\<close>

lemma fold_observe:
  "fold observe ls m =
     map_option (\<lambda>mt. \<lparr>sm_messagesTotal = (\<lambda>l. sm_messagesTotal mt l + count_list ls l),
        sm_messageDuration = sm_messageDuration mt + length ls\<rparr>) m"
proof (induction ls arbitrary: m)
  case Nil
  then show ?case by (cases m) simp_all
next
  case (Cons l ls)
  then show ?case by (cases m) (simp_all add: observe_def fun_eq_iff)
qed

lemma HandleSPOE_outcome: "sx_outcome (HandleSPOE Z readMIME waf mode kvs kvError) \<in> {''allowed'', ''denied'', ''error''}"
proof (cases "parseSPOERequest kvs kvError")
  case (Inl err)
  then show ?thesis by (simp add: HandleSPOE_undecoded spoaFail_def)
next
  case (Inr req)
  obtain v tx where "runPhases (requestPhases Z (spoaBodyArg req)) (spoaStart Z readMIME waf req) = (v, tx)" by fastforce
  from HandleSPOE_phases [OF Inr this] show ?thesis by (cases v) (auto simp: spoa_defs)
qed

abbreviation isMessage :: "'u trafficEvent \<Rightarrow> bool" where
  "isMessage ev \<equiv> (case ev of Message kvs err \<Rightarrow> True | _ \<Rightarrow> False)"

abbreviation isReload :: "'u trafficEvent \<Rightarrow> bool" where
  "isReload ev \<equiv> (case ev of Reload u \<Rightarrow> True | _ \<Rightarrow> False)"

lemma answers_counts:
  "length (answers Z readMIME rp mode current update evs p) = length (filter (\<lambda>ev. \<not> isReload ev) evs)"
  "length (spoeOutcomes (answers Z readMIME rp mode current update evs p)) = length (filter isMessage evs)"
  "set (spoeOutcomes (answers Z readMIME rp mode current update evs p)) \<subseteq> {''allowed'', ''denied'', ''error''}"
proof -
  show "length (answers Z readMIME rp mode current update evs p) = length (filter (\<lambda>ev. \<not> isReload ev) evs)"
    "length (spoeOutcomes (answers Z readMIME rp mode current update evs p)) = length (filter isMessage evs)"
    by (induction evs arbitrary: p; simp split: trafficEvent.split)+
  show "set (spoeOutcomes (answers Z readMIME rp mode current update evs p)) \<subseteq> {''allowed'', ''denied'', ''error''}"
  proof (induction evs arbitrary: p)
    case (Cons ev evs)
    then show ?case
      using HandleSPOE_outcome [of Z readMIME "the (current p)" mode] by (cases ev) simp_all
  qed simp
qed

lemma count_three:
  assumes "set ls \<subseteq> {a, b, c}" and "distinct [a, b, c]"
  shows "count_list ls a + count_list ls b + count_list ls c = length ls"
  using assms by (induction ls) auto

subsection \<open>Properties\<close>

text \<open>
  C9. The engine answers everything while it reloads: once the provider has a firewall, then for every sequence of bundles,
  parsable or not, requests and HAProxy messages, each request and each message gets exactly the answer that one firewall
  gives, the one that is active when it starts; none ends in a nil dereference. The agent counts every message once, under
  one of its three registered outcomes, and times it; without metrics it counts nothing and answers the same.
\<close>

theorem engine_answers_under_reloads:
  assumes "Current (sh_Provider h) \<noteq> None"
  shows "\<exists>as h'. serveTraffic Z readMIME rp Current (swapStep newWAF) evs h = Some (as, h') \<and>
    as = answers Z readMIME rp (sh_Mode h) Current (swapStep newWAF) evs (sh_Provider h) \<and>
    length as = length (filter (\<lambda>ev. \<not> isReload ev) evs) \<and>
    (case sh_Metrics h of
       None \<Rightarrow> sh_Metrics h' = None
     | Some m \<Rightarrow> (\<exists>m'. sh_Metrics h' = Some m' \<and>
         sm_messageDuration m' = sm_messageDuration m + length (filter isMessage evs) \<and>
         (\<Sum>l \<leftarrow> [''allowed'', ''denied'', ''error'']. sm_messagesTotal m' l) =
           (\<Sum>l \<leftarrow> [''allowed'', ''denied'', ''error'']. sm_messagesTotal m l) + length (filter isMessage evs)))"
proof -
  let ?as = "answers Z readMIME rp (sh_Mode h) Current (swapStep newWAF) evs (sh_Provider h)"
  obtain h' where run: "serveTraffic Z readMIME rp Current (swapStep newWAF) evs h = Some (?as, h')"
    and m: "sh_Metrics h' = fold observe (spoeOutcomes ?as) (sh_Metrics h)"
    using atomic_provider.traffic_served [OF assms] by blast
  note n = answers_counts [of Z readMIME rp "sh_Mode h" Current "swapStep newWAF" evs "sh_Provider h"]
  have "count_list (spoeOutcomes ?as) ''allowed'' + count_list (spoeOutcomes ?as) ''denied'' + count_list (spoeOutcomes ?as) ''error''
      = length (filter isMessage evs)"
    unfolding n(2) [symmetric] by (rule count_three [OF n(3)]) simp
  then show ?thesis
    using run m n(1) by (intro exI [of _ ?as] exI [of _ h']) (simp add: fold_observe n(2) split: option.split)
qed

subsection \<open>Witnesses\<close>

definition reloadWAF :: "WAFConfig \<Rightarrow> string list result" where
  "reloadWAF c = (if wc_Directives c = ''bad'' then Inl ''syntax'' else Inr [''headers''])"

definition trafficHandler :: "string list AtomicProvider SPOAHandler" where
  "trafficHandler = \<lparr>sh_Provider = NewAtomicProvider 1 (Some []) ''h'', sh_Mode = ModeBlocking,
     sh_Metrics = Some \<lparr>sm_messagesTotal = (\<lambda>l. 0), sm_messageDuration = 0\<rparr>\<rparr>"

definition trafficEvents :: "(time \<times> EBundle) trafficEvent list" where
  "trafficEvents =
     [Message [(''path'', ''/a'')] None,
      Reload (2, \<lparr>eb_RuleSetName = ''r'', eb_SHA256 = ''x'', eb_Compiled = ''bad''\<rparr>), Request (demoHttpRequest ''good''),
      Reload (3, \<lparr>eb_RuleSetName = ''r'', eb_SHA256 = ''y'', eb_Compiled = ''SecAction''\<rparr>), Message [] (Some ''truncated frame'')]"

theorem engine_answers_under_reloads_witness:
  "\<exists>as h' m. serveTraffic demoCoraza (\<lambda>b. ([], None)) demoProxy Current (swapStep reloadWAF) trafficEvents trafficHandler = Some (as, h') \<and>
     length as = 3 \<and> sh_Metrics h' = Some m \<and> sm_messageDuration m = 2"
proof -
  have "Current (sh_Provider trafficHandler) \<noteq> None"
    by (simp add: trafficHandler_def NewAtomicProvider_def Current_def)
  from engine_answers_under_reloads [OF this, of demoCoraza "\<lambda>b. ([], None)" demoProxy reloadWAF trafficEvents]
  show ?thesis
    by (auto simp: trafficHandler_def trafficEvents_def numeral_2_eq_2 numeral_3_eq_3)
qed

end
