(* ===== verification/Grpc_Client.thy ===== *)
theory Grpc_Client
  imports Grpc_Server Waf_Provider
begin

text \<open>
  The engine's side of the configuration service, \<open>internal/enginepkg/grpcclient.go\<close>: enrolment, the files that keep
  its result, the TLS configuration, the stream and the reconnect loop. The gRPC library, the network and the clock
  are the record \<open>ClientDeps\<close>, over a world \<open>'w\<close>; the files are explicit, with the outcomes of the system calls that
  write them drawn from the world. The loop takes a number of attempts as fuel: running out of it means that the
  call has not returned. The lemmas give the delays, when the loop ends, what an enrolment leaves on disk and
  for which key, and that neither a truncated authority file is repaired nor an expired certificate renewed.
\<close>

subsection \<open>Paths\<close>

text \<open>\<open>filepath.Clean\<close> and \<open>filepath.Join\<close> of two elements; the stack holds the elements of the path, last first.\<close>

definition cleanStep :: "bool \<Rightarrow> string \<Rightarrow> string list \<Rightarrow> string list" where
  "cleanStep rooted e st =
     (if e = '''' \<or> e = ''.'' then st
      else if e = ''..'' then
        (case st of
           [] \<Rightarrow> if rooted then [] else [''..'']
         | x # rest \<Rightarrow> if x = ''..'' then ''..'' # st else rest)
      else e # st)"

definition Clean :: "string \<Rightarrow> string" where
  "Clean p =
     (let rooted = (p \<noteq> '''' \<and> hd p = slash);
          out = (if rooted then ''/'' else '''') @ joinWith ''/'' (rev (fold (cleanStep rooted) (splitOn slash p) []))
      in if out = '''' then ''.'' else out)"

definition JoinPath :: "string \<Rightarrow> string \<Rightarrow> string" where
  "JoinPath dir f = (if dir \<noteq> '''' then Clean (dir @ ''/'' @ f) else if f \<noteq> '''' then Clean f else '''')"

subsection \<open>Configuration and dependencies\<close>

record GRPCClientConfig =
  gc_OperatorAddr :: string
  gc_EngineNamespace :: string
  gc_EngineName :: string
  gc_CertDir :: string
  gc_SATokenPath :: string

definition clientCertFile :: string where "clientCertFile = ''client.crt''"
definition clientKeyFile :: string where "clientKeyFile = ''client.key''"
definition caCertFile :: string where "caCertFile = ''ca.crt''"

text \<open>A file is its content and its permission bits, which \<open>open\<close> sets only when it creates the file.\<close>

type_synonym disk = "string \<rightharpoonup> string \<times> nat"

text \<open>The outcome of one write: errors, with the number of bytes that reached the file.\<close>

record writeOutcome =
  wo_open :: "string option"
  wo_write :: "(nat \<times> string) option"
  wo_close :: "(nat \<times> string) option"

record 'pub clientTLS =
  ct_Certificate :: string
  ct_RootCAs :: "'pub Certificate list"
  ct_MinVersion :: TLSVersion

text \<open>
  The credentials of a connection: TLS without verification of the server for \<open>Enroll\<close>, the enrolled certificate and
  the authority's pool, or no TLS.
\<close>

datatype 'pub dialCreds = SkipVerifyTLS | MutualTLS "'pub clientTLS" | InsecureCreds

text \<open>
  A stream: the messages received so far, and the error that ended it, if one did. \<open>cd_CtxErr\<close> tells whether the
  context is cancelled, \<open>cd_Select\<close> whether it was cancelled before the given delay in seconds had passed.
\<close>

record ('w, 'key, 'pub) ClientDeps =
  cd_MkdirAll :: "string \<Rightarrow> 'w \<Rightarrow> string option \<times> 'w"
  cd_CreateCertificateRequest :: "string \<Rightarrow> 'key \<Rightarrow> 'w \<Rightarrow> string result \<times> 'w"
  cd_NewClient :: "string \<Rightarrow> 'pub dialCreds \<Rightarrow> 'w \<Rightarrow> string option \<times> 'w"
  cd_Enroll :: "string \<Rightarrow> 'pub dialCreds \<Rightarrow> EnrollRequest \<Rightarrow> 'w \<Rightarrow> EnrollResponse result \<times> 'w"
  cd_WriteOutcome :: "string \<Rightarrow> 'w \<Rightarrow> writeOutcome \<times> 'w"
  cd_Subscribe :: "string \<Rightarrow> 'pub dialCreds \<Rightarrow> string \<Rightarrow> string \<Rightarrow> 'w \<Rightarrow> (RuleSetBundle list \<times> string option) result \<times> 'w"
  cd_CtxErr :: "'w \<Rightarrow> bool"
  cd_Select :: "nat \<Rightarrow> 'w \<Rightarrow> bool \<times> 'w"

subsection \<open>Files\<close>

definition fileExists :: "disk \<Rightarrow> string \<Rightarrow> bool" where
  "fileExists fs path \<longleftrightarrow> fs path \<noteq> None"

definition readDisk :: "disk \<Rightarrow> string \<Rightarrow> string result" where
  "readDisk fs path =
     (case fs path of None \<Rightarrow> Inl (''open '' @ path @ '': no such file or directory'') | Some (c, _) \<Rightarrow> Inr c)"

definition putFile :: "disk \<Rightarrow> string \<Rightarrow> string \<Rightarrow> nat \<Rightarrow> disk" where
  "putFile fs path data mode =
     fs(path \<mapsto> (data, case fs path of None \<Rightarrow> mode | Some (_, m) \<Rightarrow> m))"

definition writeFile :: "writeOutcome \<Rightarrow> string \<Rightarrow> string \<Rightarrow> nat \<Rightarrow> disk \<Rightarrow> string option \<times> disk" where
  "writeFile oc path data mode fs =
     (case wo_open oc of
        Some err \<Rightarrow> (Some err, fs)
      | None \<Rightarrow>
          (case wo_write oc of
             Some (n, err) \<Rightarrow> (Some err, putFile fs path (take n data) mode)
           | None \<Rightarrow>
               (case wo_close oc of
                  Some (n, err) \<Rightarrow> (Some err, putFile fs path (take n data) mode)
                | None \<Rightarrow> (None, putFile fs path data mode))))"

subsection \<open>Enrolment\<close>

definition certPath :: "GRPCClientConfig \<Rightarrow> string" where
  "certPath cfg = JoinPath (gc_CertDir cfg) clientCertFile"

definition keyPath :: "GRPCClientConfig \<Rightarrow> string" where
  "keyPath cfg = JoinPath (gc_CertDir cfg) clientKeyFile"

definition caPath :: "GRPCClientConfig \<Rightarrow> string" where
  "caPath cfg = JoinPath (gc_CertDir cfg) caCertFile"

text \<open>The three writes at the end of \<open>ensureEnrolled\<close>: 384 is 0600, 420 is 0644.\<close>

definition persist ::
  "('w, 'key, 'pub) ClientDeps \<Rightarrow> GRPCClientConfig \<Rightarrow> EnrollResponse \<Rightarrow> string \<Rightarrow> disk \<Rightarrow> 'w \<Rightarrow> string option \<times> disk \<times> 'w" where
  "persist D cfg resp keyPEM fs w =
     (let (oc1, w1) = cd_WriteOutcome D (certPath cfg) w in
      case writeFile oc1 (certPath cfg) (ep_ClientCertPem resp) 384 fs of
        (Some err, fs1) \<Rightarrow> (Some (''write client cert: '' @ err), fs1, w1)
      | (None, fs1) \<Rightarrow>
          (let (oc2, w2) = cd_WriteOutcome D (keyPath cfg) w1 in
           case writeFile oc2 (keyPath cfg) keyPEM 384 fs1 of
             (Some err, fs2) \<Rightarrow> (Some (''write client key: '' @ err), fs2, w2)
           | (None, fs2) \<Rightarrow>
               (let (oc3, w3) = cd_WriteOutcome D (caPath cfg) w2 in
                case writeFile oc3 (caPath cfg) (ep_CaCertPem resp) 420 fs2 of
                  (Some err, fs3) \<Rightarrow> (Some (''write CA cert: '' @ err), fs3, w3)
                | (None, fs3) \<Rightarrow> (None, fs3, w3))))"

text \<open>From the dialling of the operator on.\<close>

definition enrollAndPersist ::
  "('w, 'key, 'pub) Crypto \<Rightarrow> ('w, 'key, 'pub) ClientDeps \<Rightarrow> GRPCClientConfig \<Rightarrow> 'key \<Rightarrow> string \<Rightarrow> string \<Rightarrow> disk \<Rightarrow> 'w
    \<Rightarrow> string option \<times> disk \<times> 'w" where
  "enrollAndPersist C D cfg priv csrDER token fs w =
     (case cd_NewClient D (gc_OperatorAddr cfg) SkipVerifyTLS w of
        (Some err, w1) \<Rightarrow> (Some (''dial operator for enroll '' @ gc_OperatorAddr cfg @ '': '' @ err), fs, w1)
      | (None, w1) \<Rightarrow>
          (case cd_Enroll D (gc_OperatorAddr cfg) SkipVerifyTLS
                  \<lparr>eq_EngineNamespace = gc_EngineNamespace cfg, eq_EngineName = gc_EngineName cfg, eq_SaToken = token,
                   eq_CsrDer = csrDER\<rparr> w1 of
             (Inl err, w2) \<Rightarrow> (Some (''enroll RPC: '' @ err), fs, w2)
           | (Inr resp, w2) \<Rightarrow>
               (case cr_MarshalECPrivateKey C priv of
                  Inl err \<Rightarrow> (Some (''marshal enrollment key: '' @ err), fs, w2)
                | Inr keyDER \<Rightarrow> persist D cfg resp (cr_EncodePEM C pemTypeECPrivateKey keyDER) fs w2)))"

definition ensureEnrolled ::
  "('w, 'key, 'pub) Crypto \<Rightarrow> ('w, 'key, 'pub) ClientDeps \<Rightarrow> GRPCClientConfig \<Rightarrow> disk \<Rightarrow> 'w
    \<Rightarrow> string option \<times> disk \<times> 'w" where
  "ensureEnrolled C D cfg fs w =
     (if fileExists fs (certPath cfg) \<and> fileExists fs (keyPath cfg) \<and> fileExists fs (caPath cfg)
      then (None, fs, w)
      else
        (case cd_MkdirAll D (gc_CertDir cfg) w of
           (Some err, w1) \<Rightarrow> (Some (''create cert dir '' @ gc_CertDir cfg @ '': '' @ err), fs, w1)
         | (None, w1) \<Rightarrow>
             (case cr_GenerateKey C w1 of
                (Inl err, w2) \<Rightarrow> (Some (''generate enrollment key: '' @ err), fs, w2)
              | (Inr priv, w2) \<Rightarrow>
                  (case cd_CreateCertificateRequest D (gc_EngineNamespace cfg @ ''/'' @ gc_EngineName cfg) priv w2 of
                     (Inl err, w3) \<Rightarrow> (Some (''create CSR: '' @ err), fs, w3)
                   | (Inr csrDER, w3) \<Rightarrow>
                       (case readDisk fs (gc_SATokenPath cfg) of
                          Inl err \<Rightarrow> (Some (''read SA token from '' @ gc_SATokenPath cfg @ '': '' @ err), fs, w3)
                        | Inr token \<Rightarrow> enrollAndPersist C D cfg priv csrDER token fs w3)))))"

subsection \<open>The stream\<close>

text \<open>\<open>tls.LoadX509KeyPair\<close> reads both files and calls \<open>X509KeyPair\<close>.\<close>

definition LoadX509KeyPair :: "('w, 'key, 'pub) Crypto \<Rightarrow> disk \<Rightarrow> string \<Rightarrow> string \<Rightarrow> string result" where
  "LoadX509KeyPair C fs cp kp =
     (case readDisk fs cp of
        Inl err \<Rightarrow> Inl err
      | Inr certPEM \<Rightarrow> (case readDisk fs kp of Inl err \<Rightarrow> Inl err | Inr keyPEM \<Rightarrow> cr_X509KeyPair C certPEM keyPEM))"

definition buildClientTLS :: "('w, 'key, 'pub) Crypto \<Rightarrow> GRPCClientConfig \<Rightarrow> disk \<Rightarrow> 'pub clientTLS result" where
  "buildClientTLS C cfg fs =
     (case LoadX509KeyPair C fs (certPath cfg) (keyPath cfg) of
        Inl err \<Rightarrow> Inl (''load client key pair: '' @ err)
      | Inr cert \<Rightarrow>
          (case readDisk fs (caPath cfg) of
             Inl err \<Rightarrow> Inl (''read CA cert '' @ caPath cfg @ '': '' @ err)
           | Inr caPEM \<Rightarrow>
               (case cr_AppendCertsFromPEM C caPEM of
                  None \<Rightarrow> Inl (''parse CA cert from '' @ caPath cfg @ '': no PEM block found'')
                | Some pool \<Rightarrow> Inr \<lparr>ct_Certificate = cert, ct_RootCAs = pool, ct_MinVersion = VersionTLS13\<rparr>)))"

text \<open>A call that is still receiving, or its result: \<open>Ended None\<close> is nil.\<close>

datatype callState = Receiving | Ended "string option"

definition ofPB :: "RuleSetBundle \<Rightarrow> EBundle" where
  "ofPB msg = \<lparr>eb_RuleSetName = pb_RulesetName msg, eb_SHA256 = pb_Sha256 msg, eb_Compiled = pb_CompiledSeclang msg\<rparr>"

definition runStream ::
  "('w, 'key, 'pub) ClientDeps \<Rightarrow> GRPCClientConfig \<Rightarrow> (EBundle \<Rightarrow> 's \<Rightarrow> 's) \<Rightarrow> 'pub clientTLS option \<Rightarrow> 's \<Rightarrow> 'w
    \<Rightarrow> callState \<times> 's \<times> 'w" where
  "runStream D cfg onBundle tlsCfg s w =
     (let dialOpt = (case tlsCfg of Some t \<Rightarrow> MutualTLS t | None \<Rightarrow> InsecureCreds) in
      case cd_NewClient D (gc_OperatorAddr cfg) dialOpt w of
        (Some err, w1) \<Rightarrow> (Ended (Some (''dial '' @ gc_OperatorAddr cfg @ '': '' @ err)), s, w1)
      | (None, w1) \<Rightarrow>
          (case cd_Subscribe D (gc_OperatorAddr cfg) dialOpt (gc_EngineNamespace cfg) (gc_EngineName cfg) w1 of
             (Inl err, w2) \<Rightarrow> (Ended (Some (''subscribe: '' @ err)), s, w2)
           | (Inr (msgs, recvErr), w2) \<Rightarrow>
               (let s1 = fold (\<lambda>msg. onBundle (ofPB msg)) msgs s in
                case recvErr of
                  None \<Rightarrow> (Receiving, s1, w2)
                | Some err \<Rightarrow>
                    if cd_CtxErr D w2 then (Ended None, s1, w2) else (Ended (Some (''recv: '' @ err)), s1, w2))))"

definition runSubscribeLoop ::
  "('w, 'key, 'pub) Crypto \<Rightarrow> ('w, 'key, 'pub) ClientDeps \<Rightarrow> GRPCClientConfig \<Rightarrow> (EBundle \<Rightarrow> 's \<Rightarrow> 's)
    \<Rightarrow> 's \<times> disk \<times> 'w \<Rightarrow> callState \<times> 's \<times> disk \<times> 'w" where
  "runSubscribeLoop C D cfg onBundle st =
     (case st of (s, fs, w) \<Rightarrow>
        (case ensureEnrolled C D cfg fs w of
           (Some err, fs1, w1) \<Rightarrow> (Ended (Some (''enrollment: '' @ err)), s, fs1, w1)
         | (None, fs1, w1) \<Rightarrow>
             (case buildClientTLS C cfg fs1 of
                Inl err \<Rightarrow> (Ended (Some (''build client TLS: '' @ err)), s, fs1, w1)
              | Inr tlsCfg \<Rightarrow>
                  (case runStream D cfg onBundle (Some tlsCfg) s w1 of (r, s1, w2) \<Rightarrow> (r, s1, fs1, w2)))))"

subsection \<open>The reconnect loop\<close>

definition initialBackoff :: nat where "initialBackoff = 1"
definition maxBackoff :: nat where "maxBackoff = 30"

definition nextBackoff :: "nat \<Rightarrow> nat" where
  "nextBackoff backoff = (let b = backoff * 2 in if b > maxBackoff then maxBackoff else b)"

text \<open>The result is whether the call returned, the delays it selected on, in order, and the state.\<close>

fun subscribeLoop ::
  "nat \<Rightarrow> ('w, 'key, 'pub) Crypto \<Rightarrow> ('w, 'key, 'pub) ClientDeps \<Rightarrow> GRPCClientConfig \<Rightarrow> (EBundle \<Rightarrow> 's \<Rightarrow> 's) \<Rightarrow> nat
    \<Rightarrow> 's \<times> disk \<times> 'w \<Rightarrow> bool \<times> nat list \<times> 's \<times> disk \<times> 'w" where
  "subscribeLoop 0 C D cfg onBundle backoff st = (False, [], st)"
| "subscribeLoop (Suc n) C D cfg onBundle backoff st =
     (if cd_CtxErr D (snd (snd st)) then (True, [], st)
      else
        (case runSubscribeLoop C D cfg onBundle st of
           (Receiving, st1) \<Rightarrow> (False, [], st1)
         | (Ended err, s1, fs1, w1) \<Rightarrow>
             if err = None \<or> cd_CtxErr D w1 then (True, [], s1, fs1, w1)
             else
               (case cd_Select D backoff w1 of
                  (True, w2) \<Rightarrow> (True, [backoff], s1, fs1, w2)
                | (False, w2) \<Rightarrow>
                    (case subscribeLoop n C D cfg onBundle (nextBackoff backoff) (s1, fs1, w2) of
                       (ret, delays, st3) \<Rightarrow> (ret, backoff # delays, st3)))))"

definition SubscribeConfig ::
  "nat \<Rightarrow> ('w, 'key, 'pub) Crypto \<Rightarrow> ('w, 'key, 'pub) ClientDeps \<Rightarrow> GRPCClientConfig \<Rightarrow> (EBundle \<Rightarrow> 's \<Rightarrow> 's)
    \<Rightarrow> 's \<times> disk \<times> 'w \<Rightarrow> bool \<times> nat list \<times> 's \<times> disk \<times> 'w" where
  "SubscribeConfig fuel C D cfg onBundle st = subscribeLoop fuel C D cfg onBundle initialBackoff st"

subsection \<open>The three files are different\<close>

definition plainName :: "string \<Rightarrow> bool" where
  "plainName f \<longleftrightarrow> f \<notin> {'''', ''.'', ''..''} \<and> slash \<notin> set f"

lemma joinWith_snoc: "joinWith sep (xs @ [f]) = (if xs = [] then f else joinWith sep xs @ sep @ f)"
proof (induction xs)
  case (Cons x xs)
  then show ?case by (cases xs) simp_all
qed simp

lemma JoinPath_plain:
  assumes "plainName f"
  shows "\<exists>pre. \<forall>g. plainName g \<longrightarrow> JoinPath dir g = pre @ g"
proof (cases "dir = ''''")
  case True
  have "JoinPath dir g = [] @ g" if "plainName g" for g
  proof -
    have "hd g \<noteq> slash" "g \<noteq> []" using that by (cases g; auto simp: plainName_def)+
    with that True show ?thesis
      by (simp add: JoinPath_def Clean_def splitOn_no_sep cleanStep_def plainName_def)
  qed
  then show ?thesis by blast
next
  case False
  define st where "st = fold (cleanStep (hd dir = slash)) (splitOn slash dir) []"
  define pre where "pre = (if hd dir = slash then ''/'' else '''') @ (if rev st = [] then [] else joinWith ''/'' (rev st) @ ''/'')"
  have "JoinPath dir g = pre @ g" if "plainName g" for g
  proof -
    have "dir @ ''/'' @ g = dir @ slash # g" by (simp add: slash_def)
    then have "splitOn slash (dir @ ''/'' @ g) = splitOn slash dir @ [g]"
      using that by (simp only: splitOn_append_sep) (simp add: splitOn_no_sep plainName_def)
    then have "fold (cleanStep (hd dir = slash)) (splitOn slash (dir @ ''/'' @ g)) [] = g # st"
      using that by (simp add: st_def cleanStep_def plainName_def)
    moreover have "g \<noteq> []" using that by (auto simp: plainName_def)
    ultimately show ?thesis
      using False by (simp add: JoinPath_def Clean_def Let_def pre_def joinWith_snoc)
  qed
  then show ?thesis by blast
qed

lemma paths_distinct [simp]:
  "certPath cfg \<noteq> keyPath cfg" "certPath cfg \<noteq> caPath cfg" "keyPath cfg \<noteq> caPath cfg"
  "keyPath cfg \<noteq> certPath cfg" "caPath cfg \<noteq> certPath cfg" "caPath cfg \<noteq> keyPath cfg"
proof -
  have n: "plainName clientCertFile" "plainName clientKeyFile" "plainName caCertFile"
    by (simp_all add: plainName_def clientCertFile_def clientKeyFile_def caCertFile_def slash_def)
  obtain pre where pre: "\<And>g. plainName g \<Longrightarrow> JoinPath (gc_CertDir cfg) g = pre @ g"
    using JoinPath_plain [OF n(1)] by blast
  show "certPath cfg \<noteq> keyPath cfg" "certPath cfg \<noteq> caPath cfg" "keyPath cfg \<noteq> caPath cfg"
    "keyPath cfg \<noteq> certPath cfg" "caPath cfg \<noteq> certPath cfg" "caPath cfg \<noteq> keyPath cfg"
    unfolding certPath_def keyPath_def caPath_def pre [OF n(1)] pre [OF n(2)] pre [OF n(3)]
    by (simp_all add: clientCertFile_def clientKeyFile_def caCertFile_def)
qed

subsection \<open>Enrolment\<close>

definition enrolled :: "GRPCClientConfig \<Rightarrow> disk \<Rightarrow> bool" where
  "enrolled cfg fs \<longleftrightarrow> fileExists fs (certPath cfg) \<and> fileExists fs (keyPath cfg) \<and> fileExists fs (caPath cfg)"

lemma ensureEnrolled_enrolled: "enrolled cfg fs \<Longrightarrow> ensureEnrolled C D cfg fs w = (None, fs, w)"
  by (simp add: ensureEnrolled_def enrolled_def)

lemma writeFile_None: "writeFile oc path data mode fs = (None, fs') \<Longrightarrow> fs' = putFile fs path data mode"
  by (auto simp: writeFile_def split: option.splits)

lemma persist_None:
  assumes "persist D cfg resp keyPEM fs w = (None, fs', w')"
  shows "fs' = putFile (putFile (putFile fs (certPath cfg) (ep_ClientCertPem resp) 384) (keyPath cfg) keyPEM 384)
    (caPath cfg) (ep_CaCertPem resp) 420"
  using assms by (auto simp: persist_def Let_def split: prod.splits option.splits dest!: writeFile_None)


lemma ensureEnrolled_None:
  assumes "ensureEnrolled C D cfg fs w = (None, fs', w')" "\<not> enrolled cfg fs"
  obtains priv csrDER token v1 v2 w1 where "cr_GenerateKey C v1 = (Inr priv, v2)"
    "cd_CreateCertificateRequest D (gc_EngineNamespace cfg @ ''/'' @ gc_EngineName cfg) priv v2 = (Inr csrDER, w1)"
    "readDisk fs (gc_SATokenPath cfg) = Inr token"
    "enrollAndPersist C D cfg priv csrDER token fs w1 = (None, fs', w')"
  using assms unfolding ensureEnrolled_def enrolled_def [symmetric]
  by (auto split: prod.splits option.splits sum.splits)

text \<open>What a first enrolment leaves on disk.\<close>

lemma enrolment_on_disk:
  assumes "ensureEnrolled C D cfg fs w = (None, fs', w')" and "\<not> enrolled cfg fs"
  obtains token csrDER resp keyPEM w1 w2 where
    "cd_Enroll D (gc_OperatorAddr cfg) SkipVerifyTLS
       \<lparr>eq_EngineNamespace = gc_EngineNamespace cfg, eq_EngineName = gc_EngineName cfg, eq_SaToken = token,
        eq_CsrDer = csrDER\<rparr> w1 = (Inr resp, w2)"
    "readDisk fs' (certPath cfg) = Inr (ep_ClientCertPem resp)" "persist D cfg resp keyPEM fs w2 = (None, fs', w')"
proof -
  obtain priv csrDER token w1 where p: "enrollAndPersist C D cfg priv csrDER token fs w1 = (None, fs', w')"
    using ensureEnrolled_None [OF assms] by metis
  then obtain resp keyPEM w2 w3 where e: "cd_Enroll D (gc_OperatorAddr cfg) SkipVerifyTLS
       \<lparr>eq_EngineNamespace = gc_EngineNamespace cfg, eq_EngineName = gc_EngineName cfg, eq_SaToken = token,
        eq_CsrDer = csrDER\<rparr> w2 = (Inr resp, w3)"
    and q: "persist D cfg resp keyPEM fs w3 = (None, fs', w')"
    by (auto simp: enrollAndPersist_def split: prod.splits option.splits sum.splits)
  show thesis by (rule that [OF e _ q]) (simp add: persist_None [OF q] readDisk_def putFile_def)
qed

text \<open>The answer the client gets to \<open>Enroll\<close> is one the service gave.\<close>

definition enrols_at ::
  "('w, 'key, 'pub) Crypto \<Rightarrow> ('w, 'pub) EnrollDeps \<Rightarrow> ('key, 'pub) Server \<Rightarrow> ('w, 'key, 'pub) ClientDeps \<Rightarrow> bool" where
  "enrols_at C d srv D \<longleftrightarrow>
     (\<forall>addr creds req w resp w'. cd_Enroll D addr creds req w = (Inr resp, w') \<longrightarrow> Enroll C d srv req w = (Inr resp, w'))"




subsection \<open>The delays\<close>

lemma nextBackoff_pow: "(nextBackoff ^^ k) initialBackoff = min 30 (2 ^ k)"
proof (induction k)
  case 0
  show ?case by (simp add: initialBackoff_def)
next
  case (Suc k)
  then show ?case by (simp add: nextBackoff_def maxBackoff_def Let_def)
qed

lemma runSubscribeLoop_nil:
  "runSubscribeLoop C D cfg onBundle st = (Ended None, s1, fs1, w1) \<Longrightarrow> cd_CtxErr D w1"
  by (auto simp: runSubscribeLoop_def runStream_def Let_def split: prod.splits option.splits sum.splits if_splits)

definition select_law :: "('w, 'key, 'pub) ClientDeps \<Rightarrow> bool" where
  "select_law D \<longleftrightarrow> (\<forall>d w w'. cd_Select D d w = (True, w') \<longrightarrow> cd_CtxErr D w')"

lemma map_pow_shift: "map (\<lambda>k. (f ^^ k) b) [0..<Suc n] = b # map (\<lambda>k. (f ^^ k) (f b)) [0..<n]"
proof -
  have "map (\<lambda>k. (f ^^ k) b) (map Suc [0..<n]) = map (\<lambda>k. (f ^^ k) (f b)) [0..<n]"
    by (simp add: funpow_swap1)
  then show ?thesis
    by (simp add: upt_conv_Cons map_Suc_upt [symmetric] del: upt_Suc)
qed

definition neverReceiving ::
  "('w, 'key, 'pub) Crypto \<Rightarrow> ('w, 'key, 'pub) ClientDeps \<Rightarrow> GRPCClientConfig \<Rightarrow> (EBundle \<Rightarrow> 's \<Rightarrow> 's) \<Rightarrow> bool" where
  "neverReceiving C D cfg onBundle \<longleftrightarrow> (\<forall>st. fst (runSubscribeLoop C D cfg onBundle st) \<noteq> Receiving)"

lemma subscribeLoop_round:
  assumes "select_law D"
    and "subscribeLoop (Suc n) C D cfg onBundle b st = (ret, delays, s', fs', w')"
  obtains (returned) "ret" "delays = [] \<or> delays = [b]" "cd_CtxErr D w'"
  | (receiving) "\<not> ret" "delays = []" "\<not> neverReceiving C D cfg onBundle"
  | (again) ds st2 where "subscribeLoop n C D cfg onBundle (nextBackoff b) st2 = (ret, ds, s', fs', w')" "delays = b # ds"
proof -
  obtain c s1 fs1 w1 where r: "runSubscribeLoop C D cfg onBundle st = (c, s1, fs1, w1)"
    by (metis prod_cases4)
  consider "cd_CtxErr D (snd (snd st))" | "\<not> cd_CtxErr D (snd (snd st))" "c = Receiving"
    | err where "\<not> cd_CtxErr D (snd (snd st))" "c = Ended err" by (cases c) auto
  then show thesis
  proof cases
    case 1
    with assms(2) returned show thesis by auto
  next
    case 2
    with r have "\<not> neverReceiving C D cfg onBundle"
      unfolding neverReceiving_def by (metis fst_conv)
    with assms(2) r 2 receiving show thesis by auto
  next
    case (3 err)
    obtain d w2 where sel: "cd_Select D b w1 = (d, w2)" by (cases "cd_Select D b w1")
    consider "err = None \<or> cd_CtxErr D w1" | "err \<noteq> None" "\<not> cd_CtxErr D w1" "d" | "err \<noteq> None" "\<not> cd_CtxErr D w1" "\<not> d"
      by blast
    then show thesis
    proof cases
      case 1
      with assms(2) 3 r runSubscribeLoop_nil [of C D cfg onBundle st s1 fs1 w1] returned show thesis by auto
    next
      case 2
      with assms 3 r sel returned show thesis by (auto simp: select_law_def)
    next
      case go: 3
      with assms(2) 3 r sel again show thesis by (auto split: prod.splits)
    qed
  qed
qed

lemma subscribeLoop_run:
  assumes "select_law D"
    and "subscribeLoop fuel C D cfg onBundle b st = (ret, delays, s', fs', w')"
  shows "delays = map (\<lambda>k. (nextBackoff ^^ k) b) [0..<length delays] \<and> (ret \<longrightarrow> cd_CtxErr D w') \<and>
    (\<not> ret \<longrightarrow> neverReceiving C D cfg onBundle \<longrightarrow> length delays = fuel)"
  using assms(2)
proof (induction fuel arbitrary: b st ret delays)
  case (Suc n)
  from assms(1) Suc.prems show ?case
  proof (cases rule: subscribeLoop_round)
    case (again ds st2)
    then show ?thesis
      using Suc.IH [OF again(1)] map_pow_shift [of nextBackoff b "length ds"] by (auto simp del: upt_Suc)
  qed auto
qed simp

text \<open>
  C33. The reconnect loop waits 1, 2, 4, 8, 16 and then always 30 seconds between its attempts: the delays double up to
  the maximum and are never reset, whatever the attempts in between achieved. It returns only once the context is
  cancelled; as long as it is not and no stream stays open, the loop goes on to the next attempt.
\<close>

theorem reconnect_schedule:
  assumes "select_law D"
    and "SubscribeConfig fuel C D cfg onBundle st = (ret, delays, s', fs', w')"
  shows "delays = map (\<lambda>k. min 30 (2 ^ k)) [0..<length delays]
    \<and> (ret \<longrightarrow> cd_CtxErr D w')
    \<and> (\<not> ret \<longrightarrow> neverReceiving C D cfg onBundle \<longrightarrow> length delays = fuel)"
  using subscribeLoop_run [OF assms(1) assms(2) [unfolded SubscribeConfig_def]]
  by (simp add: nextBackoff_pow)

subsection \<open>A truncated authority file\<close>

lemma buildClientTLS_bad_ca:
  assumes "fs (caPath cfg) = Some (ca, m)" "cr_AppendCertsFromPEM C ca = None"
  shows "\<exists>err. buildClientTLS C cfg fs = Inl err"
  using assms by (auto simp: buildClientTLS_def readDisk_def split: sum.split)

lemma runSubscribeLoop_bad_ca:
  assumes "enrolled cfg fs" "fs (caPath cfg) = Some (ca, m)" "cr_AppendCertsFromPEM C ca = None"
  shows "\<exists>err. runSubscribeLoop C D cfg onBundle (s, fs, w) = (Ended (Some err), s, fs, w)"
  using buildClientTLS_bad_ca [of fs, OF assms(2,3)] ensureEnrolled_enrolled [OF assms(1), of C D w]
  by (auto simp: runSubscribeLoop_def)

text \<open>
  A loop whose attempts all fail without handling a bundle or changing a file, in the worlds of \<open>stuck\<close>, which neither
  an attempt nor a wait leaves: it goes on for ever, until its context ends.
\<close>

lemma subscribeLoop_stuck:
  assumes fails: "\<And>w. stuck w \<Longrightarrow> \<exists>err w1. runSubscribeLoop C D cfg onBundle (s, fs, w) = (Ended err, s, fs, w1) \<and> stuck w1"
    and waits: "\<And>d w. stuck w \<Longrightarrow> stuck (snd (cd_Select D d w))"
    and "stuck w" "subscribeLoop fuel C D cfg onBundle b (s, fs, w) = (ret, delays, s', fs', w')"
  shows "s' = s \<and> fs' = fs \<and> (\<not> ret \<longrightarrow> length delays = fuel)"
  using assms(3,4)
proof (induction fuel arbitrary: b w ret delays)
  case (Suc n)
  obtain err w1 where r: "runSubscribeLoop C D cfg onBundle (s, fs, w) = (Ended err, s, fs, w1)" and w1: "stuck w1"
    using fails [OF Suc.prems(1)] by blast
  obtain d w2 where sel: "cd_Select D b w1 = (d, w2)" by (cases "cd_Select D b w1")
  with waits [OF w1, of b] have "stuck w2" by simp
  from Suc.prems(2) r sel Suc.IH [OF this] show ?case
    by (auto split: if_splits prod.splits bool.splits)
qed simp

text \<open>
  A write of the authority file that fails after the file was opened leaves the engine unable to recover: once the
  certificate and the key are on disk, the truncated authority file counts as a finished enrolment, so every later
  attempt fails before it contacts the operator. For any number of attempts no bundle is handled and no file changes.
\<close>

theorem truncated_authority_is_never_repaired:
  assumes "wo_open oc = None" and "wo_write oc = Some (n, err)"
    and "fs1 = snd (writeFile oc (caPath cfg) ca mode fs)"
    and "fileExists fs (certPath cfg)" "fileExists fs (keyPath cfg)"
    and "cr_AppendCertsFromPEM C (take n ca) = None"
    and "SubscribeConfig fuel C D cfg onBundle (s, fs1, w) = (ret, delays, s', fs', w')"
  shows "s' = s \<and> fs' = fs1"
proof -
  have fs1: "fs1 = putFile fs (caPath cfg) (take n ca) mode"
    using assms(1-3) by (simp add: writeFile_def)
  then have e: "enrolled cfg fs1"
    using assms(4,5) by (simp add: enrolled_def fileExists_def putFile_def)
  obtain m where m: "fs1 (caPath cfg) = Some (take n ca, m)"
    by (simp add: fs1 putFile_def)
  have "\<exists>err w1. runSubscribeLoop C D cfg onBundle (s, fs1, w) = (Ended err, s, fs1, w1) \<and> True" for w
    using runSubscribeLoop_bad_ca [where D = D and onBundle = onBundle and s = s and w = w, OF e m assms(6)] by blast
  with subscribeLoop_stuck [where stuck = "\<lambda>_. True", OF _ _ _ assms(7) [unfolded SubscribeConfig_def]] show ?thesis by blast
qed

subsection \<open>An expired certificate\<close>

text \<open>
  The clock never goes back. A handshake with a client certificate that has expired is refused by the server: the call
  fails, or, because a client of TLS 1.3 is done before the server has looked, the stream ends before its first message.
\<close>

definition clock_laws :: "('w, 'key, 'pub) Crypto \<Rightarrow> ('w, 'key, 'pub) ClientDeps \<Rightarrow> bool" where
  "clock_laws C D \<longleftrightarrow>
     (\<forall>addr creds w. cr_Now C w \<le> cr_Now C (snd (cd_NewClient D addr creds w))) \<and>
     (\<forall>addr creds ns name w. cr_Now C w \<le> cr_Now C (snd (cd_Subscribe D addr creds ns name w))) \<and>
     (\<forall>d w. cr_Now C w \<le> cr_Now C (snd (cd_Select D d w))) \<and>
     (\<forall>path w. cr_Now C w \<le> cr_Now C (snd (cd_WriteOutcome D path w))) \<and>
     (\<forall>tmpl parent pub key w. cr_Now C w \<le> cr_Now C (snd (cr_CreateCertificate C tmpl parent pub key w)))"

definition expiry_law :: "('w, 'key, 'pub) Crypto \<Rightarrow> ('w, 'key, 'pub) ClientDeps \<Rightarrow> bool" where
  "expiry_law C D \<longleftrightarrow>
     (\<forall>certPEM keyPEM kp c tls addr ns name w.
        cr_X509KeyPair C certPEM keyPEM = Inr kp \<and> certOf C certPEM = Some c \<and> ct_Certificate tls = kp \<and>
        x_NotAfter (crt_Template c) < cr_Now C w \<longrightarrow>
        (case cd_Subscribe D addr (MutualTLS tls) ns name w of
           (Inl err, w1) \<Rightarrow> True
         | (Inr (msgs, recvErr), w1) \<Rightarrow> msgs = [] \<and> recvErr \<noteq> None))"

lemma buildClientTLS_certificate:
  assumes "buildClientTLS C cfg fs = Inr tls" and "readDisk fs (certPath cfg) = Inr certPEM"
  shows "\<exists>keyPEM. cr_X509KeyPair C certPEM keyPEM = Inr (ct_Certificate tls)"
  using assms by (auto simp: buildClientTLS_def LoadX509KeyPair_def split: sum.splits option.splits)

lemma runStream_expired:
  assumes "clock_laws C D" "expiry_law C D"
    and "cr_X509KeyPair C certPEM keyPEM = Inr (ct_Certificate tls)" "certOf C certPEM = Some c"
    and "x_NotAfter (crt_Template c) < cr_Now C w"
  shows "\<exists>err w1. runStream D cfg onBundle (Some tls) s w = (Ended err, s, w1) \<and> x_NotAfter (crt_Template c) < cr_Now C w1"
proof -
  obtain dial w1 where d: "cd_NewClient D (gc_OperatorAddr cfg) (MutualTLS tls) w = (dial, w1)" by fastforce
  obtain res w2 where r: "cd_Subscribe D (gc_OperatorAddr cfg) (MutualTLS tls) (gc_EngineNamespace cfg) (gc_EngineName cfg) w1
      = (res, w2)" by fastforce
  have "cr_Now C w \<le> cr_Now C w1" "cr_Now C w1 \<le> cr_Now C w2"
    using assms(1) d r unfolding clock_laws_def by (metis snd_conv)+
  with assms(5) have t: "x_NotAfter (crt_Template c) < cr_Now C w1" "x_NotAfter (crt_Template c) < cr_Now C w2" by linarith+
  have "case res of Inl err \<Rightarrow> True | Inr (msgs, recvErr) \<Rightarrow> msgs = [] \<and> recvErr \<noteq> None"
    using assms(2) [unfolded expiry_law_def, rule_format, of certPEM keyPEM "ct_Certificate tls" c tls w1
        "gc_OperatorAddr cfg" "gc_EngineNamespace cfg" "gc_EngineName cfg"] assms(3,4) t(1) r
    by (auto split: sum.splits)
  with d r t show ?thesis by (auto simp: runStream_def split: option.splits sum.splits)
qed

lemma subscribeLoop_expired:
  assumes "clock_laws C D" "expiry_law C D" and "enrolled cfg fs"
    and "readDisk fs (certPath cfg) = Inr certPEM" "certOf C certPEM = Some c"
    and "x_NotAfter (crt_Template c) < cr_Now C w"
    and "SubscribeConfig fuel C D cfg onBundle (s, fs, w) = (ret, delays, s', fs', w')"
  shows "s' = s \<and> fs' = fs \<and> (\<not> ret \<longrightarrow> length delays = fuel)"
proof (rule subscribeLoop_stuck [where stuck = "\<lambda>w. x_NotAfter (crt_Template c) < cr_Now C w", OF _ _ assms(6)
      assms(7) [unfolded SubscribeConfig_def]])
  fix w assume t: "x_NotAfter (crt_Template c) < cr_Now C w"
  show "\<exists>err w1. runSubscribeLoop C D cfg onBundle (s, fs, w) = (Ended err, s, fs, w1) \<and>
      x_NotAfter (crt_Template c) < cr_Now C w1"
  proof (cases "buildClientTLS C cfg fs")
    case (Inl err)
    with t show ?thesis by (simp add: runSubscribeLoop_def ensureEnrolled_enrolled [OF assms(3)])
  next
    case (Inr tls)
    from buildClientTLS_certificate [OF Inr assms(4)] obtain keyPEM where
      "cr_X509KeyPair C certPEM keyPEM = Inr (ct_Certificate tls)" by blast
    from runStream_expired [OF assms(1,2) this assms(5) t, of cfg onBundle s] Inr show ?thesis
      by (auto simp: runSubscribeLoop_def ensureEnrolled_enrolled [OF assms(3)])
  qed
  show "x_NotAfter (crt_Template c) < cr_Now C (snd (cd_Select D d w))" for d
    using assms(1) t unfolding clock_laws_def by (metis order_less_le_trans)
qed

lemma persist_clock:
  assumes "clock_laws C D" and "persist D cfg resp keyPEM fs w = (None, fs', w')"
  shows "cr_Now C w \<le> cr_Now C w'"
proof -
  have step: "cd_WriteOutcome D path w = (oc, w1) \<Longrightarrow> cr_Now C w \<le> cr_Now C w1" for path w oc w1
    using assms(1) unfolding clock_laws_def by (metis snd_conv)
  from assms(2) show ?thesis
    by (auto simp: persist_def Let_def split: prod.splits option.splits dest!: step)
qed

text \<open>
  C35. An enrolment lasts for 90 days and is not renewed: an engine that enrolled with the operator's service keeps the
  certificate as long as its files are there, and once 90 days have passed every attempt to open a stream fails. For any
  number of attempts no bundle is handled, the files stay as they are, and the loop only waits and tries again, until its
  context ends.
\<close>

theorem enrolment_is_not_renewed:
  assumes "crypto_laws C" "clock_laws C D" "expiry_law C D" "enrols_at C d srv D"
    and "\<not> enrolled cfg fs" "ensureEnrolled C D cfg fs w = (None, fs', w')"
    and "cr_Now C w' + 90 * 24 * 3600 < cr_Now C v"
    and "SubscribeConfig fuel C D cfg onBundle (s, fs', v) = (ret, delays, t, fs'', v')"
  shows "t = s \<and> fs'' = fs' \<and> (\<not> ret \<longrightarrow> length delays = fuel)"
proof -
  obtain resp req keyPEM w1 w2 where e: "cd_Enroll D (gc_OperatorAddr cfg) SkipVerifyTLS req w1 = (Inr resp, w2)"
    and f: "readDisk fs' (certPath cfg) = Inr (ep_ClientCertPem resp)" and p: "persist D cfg resp keyPEM fs w2 = (None, fs', w')"
    using enrolment_on_disk [OF assms(6,5)] by metis
  from e assms(4) have "Enroll C d srv req w1 = (Inr resp, w2)" unfolding enrols_at_def by blast
  then obtain w3 csr ca where
    i: "IssueClientCertFromCSR C ca csr (eq_EngineNamespace req) (eq_EngineName req) w3 = (Inr (ep_ClientCertPem resp), w2)"
    by (rule Enroll_Inr)
  obtain c where c: "certOf C (ep_ClientCertPem resp) = Some c" "x_NotAfter (crt_Template c) \<le> cr_Now C w2 + 90 * 24 * 3600"
    using issued_not_after [OF assms(1) i] assms(2) unfolding clock_laws_def by blast
  have "x_NotAfter (crt_Template c) < cr_Now C v"
    using c(2) persist_clock [OF assms(2) p] assms(7) by linarith
  moreover have "enrolled cfg fs'"
    by (simp add: persist_None [OF p] enrolled_def fileExists_def putFile_def)
  ultimately show ?thesis
    using subscribeLoop_expired [OF assms(2,3) _ f c(1) _ assms(8)] by blast
qed

subsection \<open>An instance\<close>

text \<open>
  An operator that enrols everyone and whose streams deliver one bundle and end. The world counts the waits; the context
  is cancelled after the third.
\<close>

definition demoClientCfg :: GRPCClientConfig where
  "demoClientCfg = \<lparr>gc_OperatorAddr = ''op:9443'', gc_EngineNamespace = ''ns'', gc_EngineName = ''e'', gc_CertDir = ''/c'',
     gc_SATokenPath = ''/t''\<rparr>"

definition demoClient :: "(nat, string, string) ClientDeps" where
  "demoClient =
     \<lparr>cd_MkdirAll = (\<lambda>d w. (None, w)), cd_CreateCertificateRequest = (\<lambda>cn k w. (Inr ''csr'', w)),
      cd_NewClient = (\<lambda>a c w. (None, w)),
      cd_Enroll = (\<lambda>a c r w. (Inr \<lparr>ep_ClientCertPem = ''cert'', ep_CaCertPem = ''ca''\<rparr>, w)),
      cd_WriteOutcome = (\<lambda>p w. (\<lparr>wo_open = None, wo_write = None, wo_close = None\<rparr>, w)),
      cd_Subscribe = (\<lambda>a c ns n w. (Inr ([\<lparr>pb_RulesetName = ''r'', pb_Sha256 = ''d'', pb_CompiledSeclang = '''',
        pb_GeneratedAt = 0\<rparr>], Some ''EOF''), w)),
      cd_CtxErr = (\<lambda>w. 3 \<le> w), cd_Select = (\<lambda>d w. (False, Suc w))\<rparr>"

definition demoDisk :: disk where
  "demoDisk = [''/t'' \<mapsto> (''jwt'', 420)]"

lemma demo_paths: "certPath demoClientCfg = ''/c/client.crt''" "keyPath demoClientCfg = ''/c/client.key''"
  "caPath demoClientCfg = ''/c/ca.crt''"
  by (simp_all add: certPath_def keyPath_def caPath_def demoClientCfg_def JoinPath_def Clean_def cleanStep_def
      clientCertFile_def clientKeyFile_def caCertFile_def slash_def)

definition demoEnrolled :: disk where
  "demoEnrolled = putFile (putFile (putFile demoDisk ''/c/client.crt'' ''cert'' 384) ''/c/client.key''
     (demoEncode pemTypeECPrivateKey ''k'') 384) ''/c/ca.crt'' ''ca'' 420"

lemma demo_not_enrolled: "\<not> enrolled demoClientCfg demoDisk"
  by (simp add: enrolled_def fileExists_def demo_paths demoDisk_def)

lemma demo_ensureEnrolled:
  "ensureEnrolled demoCrypto demoClient demoClientCfg demoDisk w = (None, demoEnrolled, w)"
  by (simp add: ensureEnrolled_def fileExists_def demo_paths demoDisk_def demoClient_def demoCrypto_def demoClientCfg_def
      [THEN arg_cong, of gc_SATokenPath] demoClientCfg_def [THEN arg_cong, of gc_CertDir] readDisk_def
      enrollAndPersist_def persist_def writeFile_def demoEnrolled_def)







lemma demo_subscribe:
  "SubscribeConfig 5 demoCrypto demoClient demoClientCfg (\<lambda>b. Suc) (0, demoDisk, 0) = (True, [1, 2, 4], 3, demoEnrolled, 3)"
proof -
  have e: "enrolled demoClientCfg demoEnrolled"
    by (simp add: enrolled_def fileExists_def demo_paths demoEnrolled_def putFile_def)
  have t: "\<exists>c. buildClientTLS (demoCrypto :: (nat, string, string) Crypto) demoClientCfg demoEnrolled = Inr c"
    by (simp add: buildClientTLS_def LoadX509KeyPair_def readDisk_def demo_paths demoEnrolled_def putFile_def
        demoCrypto_def)
  have s: "runStream demoClient demoClientCfg (\<lambda>b. Suc) c n w =
      (if 3 \<le> w then Ended None else Ended (Some (''recv: '' @ ''EOF'')), Suc n, w)" for c n w
    by (simp add: runStream_def demoClient_def)
  have r: "runSubscribeLoop demoCrypto demoClient demoClientCfg (\<lambda>b. Suc) (n, fs, w) =
      (if 3 \<le> w then Ended None else Ended (Some (''recv: '' @ ''EOF'')), Suc n, demoEnrolled, w)"
    if "fs = demoDisk \<or> fs = demoEnrolled" for fs n w
    using that t by (auto simp: runSubscribeLoop_def s ensureEnrolled_enrolled [OF e] demo_ensureEnrolled)
  have [simp]: "cd_CtxErr demoClient w \<longleftrightarrow> 3 \<le> w" "cd_Select demoClient d w = (False, Suc w)" for w d
    by (simp_all add: demoClient_def)
  show ?thesis
    by (simp add: SubscribeConfig_def initialBackoff_def nextBackoff_def maxBackoff_def r eval_nat_numeral)
qed

theorem reconnect_schedule_witness:
  "cd_CtxErr demoClient (snd (snd (snd (snd
     (SubscribeConfig 5 demoCrypto demoClient demoClientCfg (\<lambda>b. Suc) (0 :: nat, demoDisk, 0))))))"
proof -
  have "select_law demoClient" by (simp add: select_law_def demoClient_def)
  from reconnect_schedule [OF this demo_subscribe] show ?thesis
    by (simp add: demo_subscribe)
qed

theorem truncated_authority_is_never_repaired_witness:
  "fst (snd (snd (SubscribeConfig 2 (demoCrypto\<lparr>cr_AppendCertsFromPEM := (\<lambda>p. None)\<rparr>) demoClient demoClientCfg (\<lambda>b. Suc)
     (0 :: nat, snd (writeFile \<lparr>wo_open = None, wo_write = Some (1, ''no space''), wo_close = None\<rparr>
        (caPath demoClientCfg) ''ca'' 420 demoEnrolled), 0)))) = 0"
proof -
  let ?C = "demoCrypto\<lparr>cr_AppendCertsFromPEM := (\<lambda>p. None)\<rparr>"
  let ?oc = "\<lparr>wo_open = None, wo_write = Some (1, ''no space''), wo_close = None\<rparr>"
  obtain ret delays s' fs' w' where r: "SubscribeConfig 2 ?C demoClient demoClientCfg (\<lambda>b. Suc)
     (0 :: nat, snd (writeFile ?oc (caPath demoClientCfg) ''ca'' 420 demoEnrolled), 0) = (ret, delays, s', fs', w')"
    by (metis prod_cases5)
  have "fileExists demoEnrolled (certPath demoClientCfg)" "fileExists demoEnrolled (keyPath demoClientCfg)"
    by (simp_all add: fileExists_def demo_paths demoEnrolled_def putFile_def)
  then have "s' = 0"
    using truncated_authority_is_never_repaired [where oc = ?oc and n = 1 and C = ?C, OF _ _ refl _ _ _ r] by simp
  with r show ?thesis by simp
qed

text \<open>The same client against the service itself, in a world whose clock moves by more than 90 days with every wait.\<close>

definition agingCrypto :: "(nat, string, string) Crypto" where
  "agingCrypto = demoCrypto\<lparr>cr_Now := (\<lambda>w. 1000 + 8000000 * int w)\<rparr>"

definition agingClient :: "(nat, string, string) ClientDeps" where
  "agingClient = demoClient\<lparr>
     cd_Enroll := (\<lambda>a c req w. case Enroll agingCrypto demoDeps demoServer req w of
       (Inr resp, w') \<Rightarrow> (Inr resp, w') | (Inl err, w') \<Rightarrow> (Inl ''rpc error'', w')),
     cd_Subscribe := (\<lambda>a c ns n w. if w = 0 then cd_Subscribe demoClient a c ns n w else (Inl ''bad certificate'', w))\<rparr>"

lemma aging_certs:
  assumes "certOf agingCrypto pem = Some c"
  shows "1000 < x_NotAfter (crt_Template c)"
proof -
  have "cr_ParseCertificate agingCrypto der = Inr c \<Longrightarrow> c = demoCACert \<or> c = demoLeaf" for der
    by (simp add: agingCrypto_def demoCrypto_def split: if_splits)
  then have "c = demoCACert \<or> c = demoLeaf"
    using assms by (auto simp: certOf_def split: option.splits sum.splits)
  then show ?thesis by (auto simp: demoCACert_def demoLeaf_def caTemplate_def clientTemplate_def)
qed

lemma aging_laws: "crypto_laws agingCrypto" "clock_laws agingCrypto agingClient" "expiry_law agingCrypto agingClient"
  "enrols_at agingCrypto demoDeps demoServer agingClient"
proof -
  have "crypto_laws (C\<lparr>cr_Now := f\<rparr>) \<longleftrightarrow> crypto_laws C" for C :: "(nat, string, string) Crypto" and f
    unfolding crypto_laws_def by simp
  then show "crypto_laws agingCrypto" unfolding agingCrypto_def using demo_crypto_laws by blast
  show "clock_laws agingCrypto agingClient"
    by (simp add: clock_laws_def agingCrypto_def agingClient_def demoClient_def demoCrypto_def)
  have sub: "cd_Subscribe agingClient addr creds ns name w = (Inl ''bad certificate'', w)"
    if "certOf agingCrypto pem = Some c" "x_NotAfter (crt_Template c) < cr_Now agingCrypto w" for pem c w addr creds ns name
  proof -
    have "w \<noteq> 0" using aging_certs [OF that(1)] that(2) by (auto simp: agingCrypto_def)
    then show ?thesis by (simp add: agingClient_def)
  qed
  show "expiry_law agingCrypto agingClient"
    unfolding expiry_law_def
  proof (intro allI impI, elim conjE)
    fix certPEM c and tls :: "string clientTLS" and addr ns name w
    assume "certOf agingCrypto certPEM = Some c" "x_NotAfter (crt_Template c) < cr_Now agingCrypto w"
    then show "case cd_Subscribe agingClient addr (MutualTLS tls) ns name w of (Inl err, w1) \<Rightarrow> True
        | (Inr (msgs, recvErr), w1) \<Rightarrow> msgs = [] \<and> recvErr \<noteq> None"
      by (subst sub) simp_all
  qed
  show "enrols_at agingCrypto demoDeps demoServer agingClient"
    unfolding enrols_at_def
  proof (intro allI impI)
    fix addr creds req w resp w'
    assume "cd_Enroll agingClient addr creds req w = (Inr resp, w')"
    then show "Enroll agingCrypto demoDeps demoServer req w = (Inr resp, w')"
      by (cases "Enroll agingCrypto demoDeps demoServer req w") (simp add: agingClient_def split: sum.splits)
  qed
qed

lemma aging_enrols: "\<exists>fs'. ensureEnrolled agingCrypto agingClient demoClientCfg demoDisk 0 = (None, fs', 0)"
proof -
  have "\<exists>resp. Enroll agingCrypto demoDeps demoServer
      \<lparr>eq_EngineNamespace = ''ns'', eq_EngineName = ''e'', eq_SaToken = ''jwt'', eq_CsrDer = ''csr''\<rparr> 0 = (Inr resp, 0)"
    using demo_certs_distinct
    by (simp add: Enroll_def demoDeps_def demoServer_def wantUsername_def issueFor_def IssueClientCertFromCSR_def
        newSerial_def agingCrypto_def demoCrypto_def demoCA_def Let_def demoLeaf_def)
  moreover have "gc_EngineNamespace demoClientCfg = ''ns''" "gc_EngineName demoClientCfg = ''e''"
    "gc_SATokenPath demoClientCfg = ''/t''" by (simp_all add: demoClientCfg_def)
  moreover have "cr_GenerateKey agingCrypto w = (Inr ''k'', w)" "cr_MarshalECPrivateKey agingCrypto ''k'' = Inr ''k''" for w
    by (simp_all add: agingCrypto_def demoCrypto_def)
  ultimately show ?thesis
    by (auto simp: ensureEnrolled_def fileExists_def demo_paths demoDisk_def agingClient_def demoClient_def
      readDisk_def enrollAndPersist_def persist_def writeFile_def)
qed

theorem enrolment_is_not_renewed_witness:
  "\<exists>fs' ret delays v'. ensureEnrolled agingCrypto agingClient demoClientCfg demoDisk 0 = (None, fs', 0) \<and>
     SubscribeConfig 2 agingCrypto agingClient demoClientCfg (\<lambda>b. Suc) (0 :: nat, fs', 1) = (ret, delays, 0, fs', v')"
proof -
  obtain fs' where e: "ensureEnrolled agingCrypto agingClient demoClientCfg demoDisk 0 = (None, fs', 0)"
    using aging_enrols by blast
  obtain ret delays t fs'' v' where r:
    "SubscribeConfig 2 agingCrypto agingClient demoClientCfg (\<lambda>b. Suc) (0 :: nat, fs', 1) = (ret, delays, t, fs'', v')"
    by (metis prod_cases5)
  have "cr_Now agingCrypto 0 + 90 * 24 * 3600 < cr_Now agingCrypto 1" by (simp add: agingCrypto_def)
  from enrolment_is_not_renewed [OF aging_laws demo_not_enrolled e this r] e r show ?thesis by auto
qed

end
