(* ===== verification/Go_Json.thy ===== *)
theory Go_Json
  imports Go_Prelude "HOL-Library.Monad_Syntax"
begin

text \<open>
  The parts of the standard library behind the status page: the text \<open>Time.UTC().Format(time.RFC3339)\<close> makes of an
  instant, and the text \<open>encoding/json\<close> makes of a flat structure of strings and numbers, with its escapes for HTML, for
  control characters and for bytes that are not UTF-8. For both there is a reader that returns what it read and what is
  left of the input; the lemmas show that it reads back what the encoder wrote.
\<close>

subsection \<open>Dates\<close>

definition isLeap :: "int \<Rightarrow> bool" where
  "isLeap y \<longleftrightarrow> y mod 4 = 0 \<and> (y mod 100 \<noteq> 0 \<or> y mod 400 = 0)"

text \<open>
  The year and the day of the year, from 0, of a day counted from 1 January of the year 1: cycles of 400, 100, 4 and 1
  years are cut off; the last of the cycles of 100 years and of 1 year may be a day longer than the others.
\<close>

definition yearDay :: "int \<Rightarrow> int \<times> int" where
  "yearDay d =
     (let b = d mod 146097; c = min 3 (b div 36524);
          r = b - 36524 * c; q = r mod 1461; y = min 3 (q div 365)
      in (400 * (d div 146097) + 100 * c + 4 * (r div 1461) + y + 1, q - 365 * y))"

definition monthLengths :: "bool \<Rightarrow> int list" where
  "monthLengths leap = [31, if leap then 29 else 28, 31, 30, 31, 30, 31, 31, 30, 31, 30, 31]"

fun splitDay :: "int \<Rightarrow> int list \<Rightarrow> int \<Rightarrow> int \<times> int" where
  "splitDay m [] n = (m, n + 1)"
| "splitDay m (l # ls) n = (if n < l then (m, n + 1) else splitDay (m + 1) ls (n - l))"

definition civilDate :: "int \<Rightarrow> int \<times> int \<times> int" where
  "civilDate d = (let (y, n) = yearDay d; (m, k) = splitDay 1 (monthLengths (isLeap y)) n in (y, m, k))"

text \<open>The way back: the days before a year, before a month and before a day.\<close>

definition daysOf :: "int \<Rightarrow> int \<Rightarrow> int \<Rightarrow> int" where
  "daysOf y m k =
     365 * (y - 1) + (y - 1) div 4 - (y - 1) div 100 + (y - 1) div 400 +
     sum_list (take (nat (m - 1)) (monthLengths (isLeap y))) + k - 1"

subsection \<open>\<open>time.RFC3339\<close>\<close>

text \<open>\<open>appendInt\<close> of the package \<open>time\<close>: decimal digits, filled up with zeros.\<close>

definition appendInt :: "nat \<Rightarrow> int \<Rightarrow> string" where
  "appendInt w x =
     (let ds = natDigits (nat \<bar>x\<bar>) in (if x < 0 then ''-'' else '''') @ replicate (w - length ds) (digitChar 0) @ ds)"

text \<open>The zero \<open>time.Time\<close> is the beginning of the year 1, 719162 days before 1970.\<close>

definition zeroTime :: time where
  "zeroTime = - (719162 * 86400)"

definition formatRFC3339 :: "time option \<Rightarrow> string" where
  "formatRFC3339 t =
     (let s = (case t of None \<Rightarrow> zeroTime | Some s \<Rightarrow> s); (y, m, k) = civilDate (s div 86400 + 719162); n = s mod 86400
      in appendInt 4 y @ ''-'' @ appendInt 2 m @ ''-'' @ appendInt 2 k @ ''T'' @
         appendInt 2 (n div 3600) @ '':'' @ appendInt 2 (n mod 3600 div 60) @ '':'' @ appendInt 2 (n mod 60) @ ''Z'')"

text \<open>The reader: numbers of a fixed width between fixed texts.\<close>

definition digitsVal :: "string \<Rightarrow> nat" where
  "digitsVal s = foldl (\<lambda>n c. 10 * n + (of_char c - 48)) 0 s"

definition takeText :: "string \<Rightarrow> string \<Rightarrow> string option" where
  "takeText t s = (if take (length t) s = t then Some (drop (length t) s) else None)"

definition takeNum :: "nat \<Rightarrow> string \<Rightarrow> (int \<times> string) option" where
  "takeNum w s =
     (if w \<le> length s \<and> list_all isDigitChar (take w s) then Some (int (digitsVal (take w s)), drop w s) else None)"

definition readRFC3339 :: "string \<Rightarrow> time option" where
  "readRFC3339 s0 = do {
     (y, s1) \<leftarrow> takeNum 4 s0; s2 \<leftarrow> takeText ''-'' s1;
     (m, s3) \<leftarrow> takeNum 2 s2; s4 \<leftarrow> takeText ''-'' s3;
     (k, s5) \<leftarrow> takeNum 2 s4; s6 \<leftarrow> takeText ''T'' s5;
     (hh, s7) \<leftarrow> takeNum 2 s6; s8 \<leftarrow> takeText '':'' s7;
     (mm, s9) \<leftarrow> takeNum 2 s8; s10 \<leftarrow> takeText '':'' s9;
     (ss, s11) \<leftarrow> takeNum 2 s10;
     if s11 = ''Z'' then Some ((daysOf y m k - 719162) * 86400 + hh * 3600 + mm * 60 + ss) else None
   }"

subsection \<open>UTF-8\<close>

text \<open>\<open>utf8.DecodeRune\<close>: the number of bytes of the first rune of a text, 0 for bytes that are not UTF-8.\<close>

definition byteIn :: "nat \<Rightarrow> nat \<Rightarrow> char \<Rightarrow> bool" where
  "byteIn lo hi c \<longleftrightarrow> lo \<le> of_char c \<and> of_char c \<le> hi"

definition follows :: "nat \<Rightarrow> nat \<Rightarrow> nat \<Rightarrow> string \<Rightarrow> bool" where
  "follows lo hi k cs \<longleftrightarrow>
     k \<le> length cs \<and> (case cs of [] \<Rightarrow> False | x # xs \<Rightarrow> byteIn lo hi x \<and> list_all (byteIn 128 191) (take (k - 1) xs))"

fun runeSize :: "string \<Rightarrow> nat" where
  "runeSize [] = 0"
| "runeSize (c # cs) =
     (let n = of_char c :: nat in
      if n < 128 then 1
      else if 194 \<le> n \<and> n \<le> 223 \<and> follows 128 191 1 cs then 2
      else if n = 224 \<and> follows 160 191 2 cs then 3
      else if n = 237 \<and> follows 128 159 2 cs then 3
      else if 225 \<le> n \<and> n \<le> 239 \<and> n \<noteq> 237 \<and> follows 128 191 2 cs then 3
      else if n = 240 \<and> follows 144 191 3 cs then 4
      else if 241 \<le> n \<and> n \<le> 243 \<and> follows 128 191 3 cs then 4
      else if n = 244 \<and> follows 128 143 3 cs then 4
      else 0)"

fun validUTF8 :: "string \<Rightarrow> bool" where
  "validUTF8 [] = True"
| "validUTF8 (c # cs) = (runeSize (c # cs) \<noteq> 0 \<and> validUTF8 (drop (runeSize (c # cs) - 1) cs))"

text \<open>The bytes of a code point below \<open>0x10000\<close>; U+FFFD, the replacement character, is one of three bytes.\<close>

definition utf8Bytes :: "nat \<Rightarrow> string" where
  "utf8Bytes n =
     (if n < 0x80 then [char_of n]
      else if n < 0x800 then [char_of (0xC0 + n div 64), char_of (0x80 + n mod 64)]
      else [char_of (0xE0 + n div 4096), char_of (0x80 + n div 64 mod 64), char_of (0x80 + n mod 64)])"

fun replaceInvalid :: "string \<Rightarrow> string" where
  "replaceInvalid [] = []"
| "replaceInvalid (c # cs) =
     (let k = runeSize (c # cs) in
      if k = 0 then utf8Bytes 0xFFFD @ replaceInvalid cs
      else take k (c # cs) @ replaceInvalid (drop (k - 1) cs))"

subsection \<open>Strings of \<open>encoding/json\<close>\<close>

text \<open>One byte below 128; the escapes are those of an encoder that escapes HTML.\<close>

definition hex4 :: "nat \<Rightarrow> string" where
  "hex4 n = [hexDigit (n div 4096 mod 16), hexDigit (n div 256 mod 16), hexDigit (n div 16 mod 16), hexDigit (n mod 16)]"

definition unicodeEscape :: "nat \<Rightarrow> string" where
  "unicodeEscape n = [CHR 0x5C, CHR ''u''] @ hex4 n"

definition shortEscape :: "nat \<Rightarrow> char option" where
  "shortEscape n =
     (if n = 0x22 then Some (CHR 0x22) else if n = 0x5C then Some (CHR 0x5C) else if n = 8 then Some (CHR ''b'')
      else if n = 12 then Some (CHR ''f'') else if n = 10 then Some (CHR ''n'') else if n = 13 then Some (CHR ''r'')
      else if n = 9 then Some (CHR ''t'') else None)"

definition escapeByte :: "char \<Rightarrow> string" where
  "escapeByte c =
     (let n = of_char c :: nat in
      case shortEscape n of
        Some e \<Rightarrow> [CHR 0x5C, e]
      | None \<Rightarrow> if n < 32 \<or> n \<in> {0x26, 0x3C, 0x3E} then unicodeEscape n else [c])"

text \<open>\<open>appendString\<close>: U+2028 and U+2029, line breaks of JavaScript, are escaped as well.\<close>

fun jsonEscape :: "string \<Rightarrow> string" where
  "jsonEscape [] = []"
| "jsonEscape (c # cs) =
     (if (of_char c :: nat) < 128 then escapeByte c @ jsonEscape cs
      else
        (let k = runeSize (c # cs); r = take k (c # cs) in
         if k = 0 then unicodeEscape 0xFFFD @ jsonEscape cs
         else
           (if r = utf8Bytes 0x2028 then unicodeEscape 0x2028
            else if r = utf8Bytes 0x2029 then unicodeEscape 0x2029 else r) @ jsonEscape (drop (k - 1) cs)))"

definition jsonQuote :: "string \<Rightarrow> string" where
  "jsonQuote s = [CHR 0x22] @ jsonEscape s @ [CHR 0x22]"

subsection \<open>Flat objects\<close>

datatype json = JStr string | JNum int

fun jsonValue :: "json \<Rightarrow> string" where
  "jsonValue (JStr s) = jsonQuote s"
| "jsonValue (JNum i) = Itoa i"

definition jsonMember :: "string \<times> json \<Rightarrow> string" where
  "jsonMember kv = jsonQuote (fst kv) @ '':'' @ jsonValue (snd kv)"

definition jsonObject :: "(string \<times> json) list \<Rightarrow> string" where
  "jsonObject kvs = ''{'' @ joinWith '','' (map jsonMember kvs) @ ''}''"

subsection \<open>The reader of flat objects\<close>

definition hexVal :: "char \<Rightarrow> nat option" where
  "hexVal c =
     (let n = of_char c :: nat in
      if 48 \<le> n \<and> n \<le> 57 then Some (n - 48)
      else if 97 \<le> n \<and> n \<le> 102 then Some (n - 87)
      else if 65 \<le> n \<and> n \<le> 70 then Some (n - 55)
      else None)"

definition readHex4 :: "char \<Rightarrow> char \<Rightarrow> char \<Rightarrow> char \<Rightarrow> nat option" where
  "readHex4 a b c d = do {
     x \<leftarrow> hexVal a; y \<leftarrow> hexVal b; z \<leftarrow> hexVal c; u \<leftarrow> hexVal d; Some (4096 * x + 256 * y + 16 * z + u) }"

definition readEscape :: "char \<Rightarrow> char option" where
  "readEscape e =
     map_of [(CHR 0x22, CHR 0x22), (CHR 0x5C, CHR 0x5C), (CHR 0x2F, CHR 0x2F), (CHR ''b'', CHR 0x08),
       (CHR ''f'', CHR 0x0C), (CHR ''n'', CHR 0x0A), (CHR ''r'', CHR 0x0D), (CHR ''t'', CHR 0x09)] e"

text \<open>The rest of a string after its opening quote; surrogates, which the encoder does not write, are refused.\<close>

fun unquote :: "string \<Rightarrow> (string \<times> string) option" where
  "unquote [] = None"
| "unquote (c # cs) =
     (if c = CHR 0x22 then Some ([], cs)
      else if c \<noteq> CHR 0x5C then map_option (apfst ((#) c)) (unquote cs)
      else
        (case cs of
           [] \<Rightarrow> None
         | e # es \<Rightarrow>
             (if e \<noteq> CHR ''u'' then
                (case readEscape e of None \<Rightarrow> None | Some x \<Rightarrow> map_option (apfst ((#) x)) (unquote es))
              else
                (case es of
                   h1 # h2 # h3 # h4 # rest \<Rightarrow>
                     (case readHex4 h1 h2 h3 h4 of
                        None \<Rightarrow> None
                      | Some n \<Rightarrow>
                          if 0xD800 \<le> n \<and> n < 0xE000 then None
                          else map_option (apfst ((@) (utf8Bytes n))) (unquote rest))
                 | _ \<Rightarrow> None))))"

definition readNum :: "string \<Rightarrow> (int \<times> string) option" where
  "readNum s =
     (let (neg, t) = (case s of c # cs \<Rightarrow> if c = CHR ''-'' then (True, cs) else (False, s) | [] \<Rightarrow> (False, s));
          ds = takeWhile isDigitChar t
      in if ds = [] then None
         else Some ((if neg then - 1 else 1) * int (digitsVal ds), dropWhile isDigitChar t))"

definition readValue :: "string \<Rightarrow> (json \<times> string) option" where
  "readValue s =
     (case takeText [CHR 0x22] s of
        Some t \<Rightarrow> map_option (apfst JStr) (unquote t)
      | None \<Rightarrow> map_option (apfst JNum) (readNum s))"

definition readMember :: "string \<Rightarrow> ((string \<times> json) \<times> string) option" where
  "readMember s0 = do {
     s1 \<leftarrow> takeText [CHR 0x22] s0; (k, s2) \<leftarrow> unquote s1;
     s3 \<leftarrow> takeText '':'' s2; (v, s4) \<leftarrow> readValue s3; Some ((k, v), s4) }"

subsection \<open>Dates read back\<close>

lemma splitDay_back:
  assumes "splitDay m0 ls n = (m, k)" "n < sum_list ls" "0 \<le> n" "\<forall>l \<in> set ls. 0 \<le> l"
  shows "m0 \<le> m \<and> m < m0 + int (length ls) \<and> 1 \<le> k \<and> k \<le> ls ! nat (m - m0) \<and>
    sum_list (take (nat (m - m0)) ls) + k - 1 = n"
  using assms
proof (induction m0 ls n rule: splitDay.induct)
  case (2 m0 l ls n)
  show ?case
  proof (cases "n < l")
    case True
    with 2 show ?thesis by auto
  next
    case False
    with 2 have "m0 + 1 \<le> m" and ih: "m < m0 + 1 + int (length ls)" "1 \<le> k" "k \<le> ls ! nat (m - (m0 + 1))"
      "sum_list (take (nat (m - (m0 + 1))) ls) + k - 1 = n - l"
      by auto
    then have "nat (m - m0) = Suc (nat (m - (m0 + 1)))" by simp
    with ih \<open>m0 + 1 \<le> m\<close> show ?thesis by simp
  qed
qed simp

text \<open>Four parts of which the last may be longer by one.\<close>

lemma cut_four:
  assumes "0 \<le> b" "b \<le> 4 * m" "c = min 3 (b div m)" "0 < (m :: int)"
  shows "0 \<le> c" "c \<le> 3" "0 \<le> b - m * c" "b - m * c \<le> m" "c < 3 \<longrightarrow> b - m * c < m"
proof -
  have k: "m * (b div m) \<le> b" "b < m * (b div m) + m" "0 \<le> b div m"
    using assms(1,4) pos_mod_bound [of m b] pos_mod_sign [of m b] mult_div_mod_eq [of m b]
    by (linarith, linarith, simp add: pos_imp_zdiv_nonneg_iff)
  show "0 \<le> c" "c \<le> 3" using k(3) by (simp_all add: assms(3))
  have "m * 3 \<le> b" if "3 \<le> b div m"
    using mult_left_mono [OF that, of m] assms(4) k(1) by linarith
  then show "0 \<le> b - m * c" "b - m * c \<le> m" "c < 3 \<longrightarrow> b - m * c < m"
    using k assms(2) unfolding assms(3) min_def by auto
qed

lemma yearDay_parts:
  assumes "yearDay d = (y, n)"
  obtains a c e f where "y = 400 * a + 100 * c + 4 * e + f + 1" "d = 146097 * a + 36524 * c + 1461 * e + 365 * f + n"
    "0 \<le> c" "c \<le> 3" "0 \<le> e" "e \<le> 24" "0 \<le> f" "f \<le> 3" "0 \<le> n" "n \<le> 365" "n = 365 \<longrightarrow> f = 3 \<and> (e = 24 \<longrightarrow> c = 3)"
proof -
  define a b where "a = d div 146097" and "b = d mod 146097"
  define c where "c = min 3 (b div 36524)"
  define r where "r = b - 36524 * c"
  define e q where "e = r div 1461" and "q = r mod 1461"
  define f where "f = min 3 (q div 365)"
  have "(y, n) = (400 * a + 100 * c + 4 * e + f + 1, q - 365 * f)"
    using assms [symmetric] unfolding yearDay_def Let_def a_def b_def c_def r_def e_def q_def f_def .
  then have y: "y = 400 * a + 100 * c + 4 * e + f + 1" and n: "n = q - 365 * f" by simp_all
  have d: "d = 146097 * a + b" "0 \<le> b" "b < 146097" by (simp_all add: a_def b_def)
  have "b \<le> 4 * 36524" using d(3) by simp
  note c = cut_four [OF d(2) this c_def zero_less_numeral, folded r_def]
  have e: "r = 1461 * e + q" "0 \<le> q" "q < 1461" by (simp_all add: e_def q_def)
  then have e': "0 \<le> e" "e \<le> 24" "e = 24 \<longrightarrow> c < 3 \<longrightarrow> q < 1460" using c by linarith+
  have "q \<le> 4 * 365" using e(3) by simp
  note f = cut_four [OF e(2) this f_def zero_less_numeral, folded n]
  have "n = 365 \<longrightarrow> f = 3 \<and> (e = 24 \<longrightarrow> c = 3)" using f e'(3) c(2) n by auto
  moreover have "d = 146097 * a + 36524 * c + 1461 * e + 365 * f + n" using d(1) e(1) n by (simp add: r_def)
  ultimately show ?thesis using that [of a c e f] y c e' f by blast
qed

lemma yearDay_back:
  assumes "yearDay d = (y, n)"
  shows "365 * (y - 1) + (y - 1) div 4 - (y - 1) div 100 + (y - 1) div 400 + n = d"
    and "0 \<le> n \<and> n < (if isLeap y then 366 else 365)"
    and "0 \<le> d \<Longrightarrow> d < 3652059 \<Longrightarrow> 1 \<le> y \<and> y \<le> 9999"
proof -
  obtain a c e f where p: "y = 400 * a + 100 * c + 4 * e + f + 1" "d = 146097 * a + 36524 * c + 1461 * e + 365 * f + n"
    "0 \<le> c" "c \<le> 3" "0 \<le> e" "e \<le> 24" "0 \<le> f" "f \<le> 3" "0 \<le> n" "n \<le> 365" "n = 365 \<longrightarrow> f = 3 \<and> (e = 24 \<longrightarrow> c = 3)"
    using yearDay_parts [OF assms] .
  have dv: "(y - 1) div 4 = 100 * a + 25 * c + e"
    using p by (intro int_div_pos_eq [where r = f]) simp_all
  have dv2: "(y - 1) div 100 = 4 * a + c"
    using p by (intro int_div_pos_eq [where r = "4 * e + f"]) simp_all
  have dv3: "(y - 1) div 400 = a"
    using p by (intro int_div_pos_eq [where r = "100 * c + 4 * e + f"]) simp_all
  show "365 * (y - 1) + (y - 1) div 4 - (y - 1) div 100 + (y - 1) div 400 + n = d"
    by (simp only: dv dv2 dv3) (simp add: p(1,2))
  have "isLeap y" if "n = 365"
  proof -
    have f: "f = 3" "e = 24 \<longrightarrow> c = 3" using that p(11) by auto
    have "y mod 4 = 0" using p(1) f by (intro int_mod_pos_eq [where q = "100 * a + 25 * c + e + 1"]) simp_all
    moreover have "y mod 400 = 0" if "e = 24"
      using p(1) f that by (intro int_mod_pos_eq [where q = "a + 1"]) simp_all
    moreover have "y mod 100 = 4 * e + 4" if "e \<noteq> 24"
      using p(1,5,6) f(1) that by (intro int_mod_pos_eq [where q = "4 * a + c"]) simp_all
    ultimately show ?thesis using p(5) unfolding isLeap_def by (cases "e = 24") simp_all
  qed
  with p(9,10) show "0 \<le> n \<and> n < (if isLeap y then 366 else 365)" by (cases "n = 365") simp_all
  show "1 \<le> y \<and> y \<le> 9999" if "0 \<le> d" "d < 3652059"
  proof -
    have "0 \<le> a" "a \<le> 24" using that p(2-10) by linarith+
    with that p(1-10) show ?thesis by (intro conjI; linarith)
  qed
qed

lemma civilDate_back:
  assumes "civilDate d = (y, m, k)"
  shows "daysOf y m k = d" and "1 \<le> m \<and> m \<le> 12 \<and> 1 \<le> k \<and> k \<le> 31" and "y = fst (yearDay d)"
proof -
  obtain n where n: "yearDay d = (y, n)" and s: "splitDay 1 (monthLengths (isLeap y)) n = (m, k)"
    using assms by (auto simp: civilDate_def Let_def split: prod.splits)
  have "n < sum_list (monthLengths (isLeap y))" "0 \<le> n" "\<forall>l \<in> set (monthLengths (isLeap y)). 0 \<le> l"
    using yearDay_back(2) [OF n] by (auto simp: monthLengths_def)
  note sb = splitDay_back [OF s this]
  have "l \<in> set (monthLengths (isLeap y)) \<Longrightarrow> l \<le> 31" for l by (auto simp: monthLengths_def split: if_splits)
  moreover have "nat (m - 1) < length (monthLengths (isLeap y))" "length (monthLengths (isLeap y)) = 12"
    using sb by (auto simp: monthLengths_def)
  ultimately have "monthLengths (isLeap y) ! nat (m - 1) \<le> 31" "m < 13" using sb by (simp_all add: nth_mem)
  with sb show "1 \<le> m \<and> m \<le> 12 \<and> 1 \<le> k \<and> k \<le> 31" by simp
  show "daysOf y m k = d" using sb yearDay_back(1) [OF n] by (simp add: daysOf_def)
  show "y = fst (yearDay d)" by (simp add: n)
qed

subsection \<open>Decimal texts read back\<close>

lemma digitsVal_snoc: "digitsVal (s @ [c]) = 10 * digitsVal s + (of_char c - 48)"
  by (simp add: digitsVal_def)

lemma digitsVal_natDigits: "digitsVal (natDigits n) = n"
proof (induction n rule: natDigits.induct)
  case (1 n)
  show ?case
  proof (cases "n < 10")
    case True
    then show ?thesis by (simp add: natDigits.simps [of n] digitsVal_def of_char_digitChar)
  next
    case False
    with 1 show ?thesis by (simp add: natDigits.simps [of n] digitsVal_snoc of_char_digitChar)
  qed
qed

lemma digitsVal_zeros: "digitsVal (replicate k (digitChar 0) @ s) = digitsVal s"
  by (induction k) (simp_all add: digitsVal_def of_char_digitChar)

lemma length_natDigits: "n < 10 ^ Suc w \<Longrightarrow> length (natDigits n) \<le> Suc w"
proof (induction w arbitrary: n)
  case 0
  then show ?case by (simp add: natDigits.simps [of n])
next
  case (Suc w)
  then have "n div 10 < 10 ^ Suc w" by (simp add: div_less_iff_less_mult)
  with Suc.IH show ?case by (subst natDigits.simps) simp
qed

lemma takeNum_appendInt:
  assumes "0 \<le> x" "x < 10 ^ w" "0 < w"
  shows "takeNum w (appendInt w x @ t) = Some (x, t)"
proof -
  let ?ds = "natDigits (nat x)"
  have "nat x < 10 ^ w" using assms(1,2) by (simp add: nat_less_iff)
  then have len: "length ?ds \<le> w" using length_natDigits [of "nat x" "w - 1"] assms(3) by simp
  have a: "appendInt w x = replicate (w - length ?ds) (digitChar 0) @ ?ds" using assms(1) by (simp add: appendInt_def Let_def)
  then have w: "length (appendInt w x) = w" using len by simp
  have "list_all isDigitChar (appendInt w x)"
    by (auto simp: a list_all_iff isDigitChar_digitChar dest: natDigits_digits)
  moreover have "int (digitsVal (appendInt w x)) = x"
    using assms(1) by (simp add: a digitsVal_zeros digitsVal_natDigits)
  ultimately show ?thesis using w by (simp add: takeNum_def)
qed

lemma takeText_same [simp]: "takeText t (t @ s) = Some s"
  by (simp add: takeText_def)

lemma clock_parts:
  assumes "0 \<le> n" "n < (86400 :: int)"
  shows "0 \<le> n div 3600" "n div 3600 < 100" "0 \<le> n mod 3600 div 60" "n mod 3600 div 60 < 100" "0 \<le> n mod 60" "n mod 60 < 100"
    and "n div 3600 * 3600 + n mod 3600 div 60 * 60 + n mod 60 = n"
proof -
  have "n mod 3600 mod 60 = n mod 60" by (simp add: mod_mod_cancel)
  then show "n div 3600 * 3600 + n mod 3600 div 60 * 60 + n mod 60 = n"
    using div_mult_mod_eq [of n 3600] div_mult_mod_eq [of "n mod 3600" 60] by linarith
  show "n div 3600 < 100" using assms zdiv_mono1 [of n 86400 3600] by simp
  have "n mod 3600 \<le> 3600" by (simp add: less_imp_le)
  then show "n mod 3600 div 60 < 100" using zdiv_mono1 [of "n mod 3600" 3600 60] by simp
  show "n mod 60 < 100" using pos_mod_bound [of 60 n] by simp
qed (use assms in \<open>simp_all add: pos_imp_zdiv_nonneg_iff\<close>)

text \<open>A text printed for an instant of the years 1 to 9999 is read back as this instant.\<close>

lemma read_formatRFC3339:
  assumes "s = (case t of None \<Rightarrow> zeroTime | Some i \<Rightarrow> i)" "zeroTime \<le> s" "s < 253402300800"
  shows "readRFC3339 (formatRFC3339 t) = Some s"
proof -
  obtain y m k where c: "civilDate (s div 86400 + 719162) = (y, m, k)" by (metis prod_cases3)
  have "0 \<le> s div 86400 + 719162" "s div 86400 + 719162 < 3652059"
    using assms(2,3) by (simp_all add: zeroTime_def)
  then have "1 \<le> y \<and> y \<le> 9999"
    using civilDate_back(3) [OF c] yearDay_back(3) [of "s div 86400 + 719162"] by (metis prod.collapse)
  note range = this civilDate_back(2) [OF c]
  define n where "n = s mod 86400"
  have "0 \<le> n" "n < 86400" by (simp_all add: n_def)
  note clock = clock_parts [OF this]
  have "s div 86400 * 86400 + n = s" by (simp add: n_def)
  with clock(7) have "(daysOf y m k - 719162) * 86400 + n div 3600 * 3600 + n mod 3600 div 60 * 60 + n mod 60 = s"
    by (simp only: civilDate_back(1) [OF c] add.assoc add_diff_cancel_right')
  then show ?thesis
    using range clock(1-6)
    by (simp add: readRFC3339_def formatRFC3339_def Let_def assms(1) [symmetric] c n_def [symmetric] takeNum_appendInt
        del: append.simps)
qed

subsection \<open>Strings read back\<close>

lemma of_char_numeral_inject: "(of_char c :: nat) = of_char d \<longleftrightarrow> c = d"
  by simp

lemma hexVal_hexDigit: "d < 16 \<Longrightarrow> hexVal (hexDigit d) = Some d"
  by (auto simp: hexVal_def hexDigit_def Let_def)

lemma unquote_unicodeEscape:
  assumes "n < 0xD800 \<or> 0xE000 \<le> n \<and> n < 0x10000"
  shows "unquote (unicodeEscape n @ t) = map_option (apfst ((@) (utf8Bytes n))) (unquote t)"
proof -
  have top: "n div 4096 < 16" using assms by linarith
  have "4096 * (n div 4096) + 256 * (n div 256 mod 16) + 16 * (n div 16 mod 16) + n mod 16 = n"
  proof -
    have d: "n div 256 = n div 16 div 16" "n div 4096 = n div 16 div 16 div 16" by (simp_all flip: div_mult2_eq)
    show ?thesis
      using mult_div_mod_eq [of 16 n] mult_div_mod_eq [of 16 "n div 16"] mult_div_mod_eq [of 16 "n div 16 div 16"]
      unfolding d by linarith
  qed
  with top have "readHex4 (hexDigit (n div 4096 mod 16)) (hexDigit (n div 256 mod 16)) (hexDigit (n div 16 mod 16))
      (hexDigit (n mod 16)) = Some n"
    by (simp add: readHex4_def hexVal_hexDigit)
  with assms show ?thesis by (auto simp: unicodeEscape_def hex4_def)
qed

lemma unquote_escapeByte:
  assumes "(of_char c :: nat) < 128"
  shows "unquote (escapeByte c @ t) = map_option (apfst ((#) c)) (unquote t)"
proof (cases "shortEscape (of_char c)")
  case None
  have "utf8Bytes (of_char c) = [c]" using assms by (simp add: utf8Bytes_def)
  then have "unquote (unicodeEscape (of_char c) @ t) = map_option (apfst ((#) c)) (unquote t)"
    using assms unquote_unicodeEscape [of "of_char c" t] by (simp add: append_Cons [abs_def])
  moreover have "c \<noteq> CHR 0x22" "c \<noteq> CHR 0x5C" using None by (auto simp: shortEscape_def)
  ultimately show ?thesis using None by (simp add: escapeByte_def Let_def)
next
  case (Some e)
  then have "readEscape e = Some c \<and> e \<noteq> CHR ''u''"
    by (auto simp: shortEscape_def readEscape_def split: if_splits simp flip: of_char_numeral_inject)
  with Some show ?thesis by (simp add: escapeByte_def)
qed

lemma unquote_plain:
  assumes "\<forall>c \<in> set r. 128 \<le> (of_char c :: nat)"
  shows "unquote (r @ t) = map_option (apfst ((@) r)) (unquote t)"
  using assms
proof (induction r)
  case Nil
  show ?case by (cases "unquote t") auto
next
  case (Cons c r)
  then have "c \<noteq> CHR 0x22" "c \<noteq> CHR 0x5C" by auto
  with Cons show ?case by (simp add: option.map_comp comp_def apfst_def map_prod_def split_def)
qed

lemma follows_high: "follows lo hi k cs \<Longrightarrow> 128 \<le> lo \<Longrightarrow> c \<in> set (take k cs) \<Longrightarrow> 128 \<le> (of_char c :: nat)"
  by (cases cs; cases k) (auto simp: follows_def byteIn_def list_all_iff)

lemma runeSize_high:
  assumes "128 \<le> (of_char c :: nat)" "x \<in> set (take (runeSize (c # cs)) (c # cs))"
  shows "128 \<le> (of_char x :: nat)"
  using assms follows_high [of _ _ 1 cs x] follows_high [of _ _ 2 cs x] follows_high [of _ _ 3 cs x]
  by (auto simp: Let_def numeral_eq_Suc split: if_splits)

text \<open>A string is read back as it was written, with a replacement character for every byte that is not UTF-8.\<close>

lemma runeSize_ascii: "(of_char c :: nat) < 128 \<Longrightarrow> runeSize (c # cs) = 1"
  by simp

lemma unquote_jsonEscape: "unquote (jsonEscape s @ CHR 0x22 # t) = Some (replaceInvalid s, t)"
proof (induction s rule: jsonEscape.induct)
  case (2 c cs)
  let ?k = "runeSize (c # cs)" and ?r = "take (runeSize (c # cs)) (c # cs)"
  show ?case
  proof (cases "(of_char c :: nat) < 128")
    case True
    then show ?thesis using "2.IH"(1) by (simp add: unquote_escapeByte runeSize_ascii Let_def del: runeSize.simps)
  next
    case high: False
    show ?thesis
    proof (cases "?k = 0")
      case True
      then show ?thesis
        using "2.IH"(2) [OF high refl refl] high
        by (simp add: unquote_unicodeEscape Let_def del: runeSize.simps)
    next
      case False
      define e where "e = (if ?r = utf8Bytes 0x2028 then unicodeEscape 0x2028
        else if ?r = utf8Bytes 0x2029 then unicodeEscape 0x2029 else ?r)"
      have "\<forall>x \<in> set ?r. 128 \<le> (of_char x :: nat)" using runeSize_high high by (metis not_le)
      then have "unquote (e @ u) = map_option (apfst ((@) ?r)) (unquote u)" for u
        using unquote_unicodeEscape [of "0x2028" u] unquote_unicodeEscape [of "0x2029" u] unquote_plain [of ?r u]
        by (simp add: e_def del: runeSize.simps)
      moreover have "jsonEscape (c # cs) = e @ jsonEscape (drop (?k - 1) cs)"
        using high False by (simp add: e_def Let_def del: runeSize.simps)
      ultimately show ?thesis
        using "2.IH"(3) [OF high refl refl False] False by (simp add: Let_def del: runeSize.simps)
    qed
  qed
qed simp

lemma replaceInvalid_valid: "validUTF8 s \<Longrightarrow> replaceInvalid s = s"
proof (induction s rule: validUTF8.induct)
  case (2 c cs)
  then have "runeSize (c # cs) \<noteq> 0" "replaceInvalid (drop (runeSize (c # cs) - 1) cs) = drop (runeSize (c # cs) - 1) cs"
    by simp_all
  then show ?case by (cases "runeSize (c # cs)") (simp_all add: Let_def del: runeSize.simps)
qed simp

lemma ascii_validUTF8: "\<forall>c \<in> set s. (of_char c :: nat) < 128 \<Longrightarrow> validUTF8 s"
  by (induction s) simp_all

subsection \<open>Objects read back\<close>

lemma map_apfst_Some: "map_option (apfst g) r = Some (x, t) \<longleftrightarrow> (\<exists>y. r = Some (y, t) \<and> x = g y)"
  by (cases r) auto

lemma unquote_step:
  assumes "unquote (c # cs) = Some (x, t)"
  shows "cs = t \<or> (\<exists>u y. length u \<le> length cs \<and> unquote u = Some (y, t))"
proof (cases "c = CHR 0x5C")
  case esc: True
  then obtain e es where cs: "cs = e # es" using assms by (cases cs) auto
  show ?thesis
  proof (cases "e = CHR ''u''")
    case True
    then obtain h1 h2 h3 h4 rest where "es = h1 # h2 # h3 # h4 # rest"
      using assms by (simp add: esc cs split: list.splits)
    then show ?thesis
      using assms True
      by - (rule disjI2, rule exI [of _ rest], auto simp: esc cs map_apfst_Some split: option.splits if_splits)
  next
    case False
    then show ?thesis
      using assms
      by - (rule disjI2, rule exI [of _ es], auto simp: esc cs map_apfst_Some split: option.splits)
  qed
next
  case False
  then show ?thesis using assms by (auto simp: map_apfst_Some split: if_splits)
qed

lemma unquote_shorter: "unquote s = Some (x, t) \<Longrightarrow> length t < length s"
proof (induction "length s" arbitrary: s x rule: less_induct)
  case less
  then obtain c cs where s: "s = c # cs" by (cases s) auto
  from unquote_step [OF less.prems [unfolded s]] show ?case
  proof (elim disjE exE conjE)
    fix u y
    assume "length u \<le> length cs" "unquote u = Some (y, t)"
    then show ?thesis using less.hyps [of u y] by (simp add: s)
  qed (simp add: s)
qed

lemma takeText_shorter: "takeText t s = Some u \<Longrightarrow> length u \<le> length s"
  by (auto simp: takeText_def split: if_splits)

lemma readNum_shorter: "readNum s = Some (i, t) \<Longrightarrow> length t \<le> length s"
  using length_dropWhile_le [of isDigitChar s] length_dropWhile_le [of isDigitChar "tl s"]
  by (cases s) (auto simp: readNum_def Let_def split: if_splits)

lemma readValue_shorter: "readValue s = Some (v, t) \<Longrightarrow> length t \<le> length s"
  by (auto simp: readValue_def apfst_def map_prod_def split: option.splits
      dest!: takeText_shorter unquote_shorter readNum_shorter)

lemma readMember_shorter: "readMember s = Some (kv, t) \<Longrightarrow> length t \<le> length s"
  by (auto simp: readMember_def bind_eq_Some_conv dest!: takeText_shorter unquote_shorter readValue_shorter)

function readMembers :: "string \<Rightarrow> ((string \<times> json) list \<times> string) option" where
  "readMembers s =
     (case readMember s of
        None \<Rightarrow> None
      | Some (kv, t) \<Rightarrow>
          (case t of
             [] \<Rightarrow> None
           | c # u \<Rightarrow>
               if c = CHR '','' then map_option (apfst ((#) kv)) (readMembers u)
               else if c = CHR ''}'' then Some ([kv], u) else None))"
  by pat_completeness auto
termination
  by (relation "measure length") (auto dest: readMember_shorter)

declare readMembers.simps [simp del]

definition readObject :: "string \<Rightarrow> ((string \<times> json) list \<times> string) option" where
  "readObject s = do { t \<leftarrow> takeText ''{'' s; readMembers t }"

text \<open>What a reader sees of a value.\<close>

fun seenValue :: "json \<Rightarrow> json" where
  "seenValue (JStr s) = JStr (replaceInvalid s)"
| "seenValue (JNum i) = JNum i"

lemma readNum_Itoa:
  assumes "\<not> isDigitChar c"
  shows "readNum (Itoa i @ c # t) = Some (i, c # t)"
proof -
  have digits: "takeWhile isDigitChar (natDigits n @ c # t) = natDigits n"
    "dropWhile isDigitChar (natDigits n @ c # t) = c # t" for n
    using assms natDigits_digits [of _ n] by (simp_all add: takeWhile_append dropWhile_append)
  have "(case natDigits n @ c # t of x # cs \<Rightarrow> if x = CHR ''-'' then (True, cs) else (False, natDigits n @ c # t)
      | [] \<Rightarrow> (False, natDigits n @ c # t)) = (False, natDigits n @ c # t)" for n
    using natDigits_digits [of "CHR ''-''" n] by (cases "natDigits n") (auto simp: isDigitChar_def)
  then show ?thesis
    by (cases "i < 0") (simp_all add: readNum_def Itoa_def digits digitsVal_natDigits)
qed

lemma readValue_jsonValue:
  assumes "\<not> isDigitChar c"
  shows "readValue (jsonValue v @ c # t) = Some (seenValue v, c # t)"
proof (cases v)
  case (JStr s)
  then show ?thesis
    using unquote_jsonEscape [of s "c # t"] by (simp add: readValue_def jsonQuote_def takeText_def)
next
  case (JNum i)
  have "hd (Itoa i) \<noteq> CHR 0x22"
    using natDigits_digits [OF hd_in_set [OF natDigits_nonempty(1)], of "nat i"]
    by (auto simp: Itoa_def isDigitChar_def)
  then have "takeText [CHR 0x22] (Itoa i @ c # t) = None"
    by (cases "Itoa i") (auto simp: takeText_def)
  with JNum show ?thesis by (simp add: readValue_def readNum_Itoa [OF assms])
qed

lemma readMember_jsonMember:
  assumes "\<not> isDigitChar c"
  shows "readMember (jsonMember kv @ c # t) = Some ((replaceInvalid (fst kv), seenValue (snd kv)), c # t)"
  using unquote_jsonEscape [of "fst kv" "CHR '':'' # jsonValue (snd kv) @ c # t"] readValue_jsonValue [OF assms, of "snd kv" t]
  by (simp add: readMember_def jsonMember_def jsonQuote_def takeText_def)

lemma readMembers_jsonMembers:
  assumes "kvs \<noteq> []"
  shows "readMembers (joinWith '','' (map jsonMember kvs) @ CHR ''}'' # t) =
    Some (map (\<lambda>kv. (replaceInvalid (fst kv), seenValue (snd kv))) kvs, t)"
  using assms
proof (induction kvs)
  case (Cons kv kvs)
  have nd: "\<not> isDigitChar (CHR '','')" "\<not> isDigitChar (CHR ''}'')" by (simp_all add: isDigitChar_def)
  show ?case
  proof (cases "kvs = []")
    case True
    then show ?thesis by (simp add: readMembers.simps [of "jsonMember kv @ _"] readMember_jsonMember nd)
  next
    case False
    then show ?thesis
      using Cons.IH by (simp add: joinWith_Cons readMembers.simps [of "jsonMember kv @ _"] readMember_jsonMember nd)
  qed
qed simp

lemma readObject_jsonObject:
  assumes "kvs \<noteq> []"
  shows "readObject (jsonObject kvs @ t) = Some (map (\<lambda>kv. (replaceInvalid (fst kv), seenValue (snd kv))) kvs, t)"
  using readMembers_jsonMembers [OF assms, of t] by (simp add: readObject_def jsonObject_def takeText_def)

end
