(* ===== verification/Status_Page.thy ===== *)
theory Status_Page
  imports Waf_Provider Go_Json
begin

text \<open>
  The status page of the engine (\<open>newStatusHandler\<close> of \<open>internal/enginepkg/server.go\<close>): the structure \<open>statusJSON\<close> is
  filled from the state of the provider and written as JSON, with times in RFC 3339 and without the two error fields when
  they are empty. A reader of the page gets the state of the provider back.
\<close>

record statusJSON =
  sj_SHA256 :: string
  sj_RuleSetName :: string
  sj_RuleCount :: nat
  sj_ReloadedAt :: string
  sj_LastError :: string
  sj_LastErrorAt :: string

text \<open>The fields in the order of the structure, named by their tags; \<open>omitempty\<close> leaves an empty text out.\<close>

definition omitEmpty :: "string \<Rightarrow> string \<Rightarrow> (string \<times> json) list" where
  "omitEmpty k s = (if s = '''' then [] else [(k, JStr s)])"

definition statusFields :: "statusJSON \<Rightarrow> (string \<times> json) list" where
  "statusFields r =
     [(''sha256'', JStr (sj_SHA256 r)), (''rulesetName'', JStr (sj_RuleSetName r)),
      (''ruleCount'', JNum (int (sj_RuleCount r))), (''reloadedAt'', JStr (sj_ReloadedAt r))] @
     omitEmpty ''lastError'' (sj_LastError r) @ omitEmpty ''lastErrorAt'' (sj_LastErrorAt r)"

text \<open>\<open>Encode\<close> ends the document with a newline. The answer has the content type \<open>application/json\<close> and this body.\<close>

definition newStatusHandler :: "'waf AtomicProvider \<Rightarrow> string" where
  "newStatusHandler p =
     (let st = State p;
          resp = \<lparr>sj_SHA256 = ps_SHA256 st, sj_RuleSetName = ps_RuleSetName st, sj_RuleCount = ps_RuleCount st,
            sj_ReloadedAt = formatRFC3339 (ps_ReloadedAt st), sj_LastError = ps_LastError st, sj_LastErrorAt = ''''\<rparr>;
          resp' = (if ps_LastErrorAt st = None then resp
                   else resp\<lparr>sj_LastErrorAt := formatRFC3339 (ps_LastErrorAt st)\<rparr>)
      in jsonObject (statusFields resp') @ [nl])"

subsection \<open>A reader of the page\<close>

definition strField :: "string \<Rightarrow> (string \<times> json) list \<Rightarrow> string option" where
  "strField k kvs = (case map_of kvs k of None \<Rightarrow> Some '''' | Some (JStr s) \<Rightarrow> Some s | Some (JNum _) \<Rightarrow> None)"

definition numField :: "string \<Rightarrow> (string \<times> json) list \<Rightarrow> int option" where
  "numField k kvs = (case map_of kvs k of Some (JNum i) \<Rightarrow> Some i | _ \<Rightarrow> None)"

text \<open>A text of an instant; the beginning of the year 1 is the zero time.\<close>

definition readTime :: "string \<Rightarrow> time option option" where
  "readTime s = (if s = '''' then Some None else map_option (\<lambda>i. if i = zeroTime then None else Some i) (readRFC3339 s))"

definition readStatus :: "string \<Rightarrow> ProviderState option" where
  "readStatus s = do {
     (kvs, t) \<leftarrow> readObject s;
     sha \<leftarrow> strField ''sha256'' kvs; name \<leftarrow> strField ''rulesetName'' kvs; n \<leftarrow> numField ''ruleCount'' kvs;
     reloaded \<leftarrow> strField ''reloadedAt'' kvs \<bind> readTime; err \<leftarrow> strField ''lastError'' kvs;
     errAt \<leftarrow> strField ''lastErrorAt'' kvs \<bind> readTime;
     if t = [nl] then
       Some \<lparr>ps_SHA256 = sha, ps_RuleSetName = name, ps_RuleCount = nat n, ps_ReloadedAt = reloaded,
         ps_LastError = err, ps_LastErrorAt = errAt\<rparr>
     else None }"

text \<open>What the reader sees of a state, and the times that the four digits of a year can tell.\<close>

definition seenState :: "ProviderState \<Rightarrow> ProviderState" where
  "seenState st = st\<lparr>ps_SHA256 := replaceInvalid (ps_SHA256 st), ps_RuleSetName := replaceInvalid (ps_RuleSetName st),
     ps_LastError := replaceInvalid (ps_LastError st)\<rparr>"

definition tellable :: "time option \<Rightarrow> bool" where
  "tellable t \<longleftrightarrow> (case t of None \<Rightarrow> True | Some i \<Rightarrow> zeroTime < i \<and> i < 253402300800)"

definition utf8State :: "ProviderState \<Rightarrow> bool" where
  "utf8State st \<longleftrightarrow> validUTF8 (ps_SHA256 st) \<and> validUTF8 (ps_RuleSetName st) \<and> validUTF8 (ps_LastError st)"

subsection \<open>The page tells the state\<close>

lemma appendInt_ascii: "c \<in> set (appendInt w x) \<Longrightarrow> (of_char c :: nat) < 128"
  using natDigits_digits [of c "nat \<bar>x\<bar>"]
  by (auto simp: appendInt_def Let_def isDigitChar_def digitChar_def split: if_splits)

lemma formatRFC3339_ascii: "c \<in> set (formatRFC3339 t) \<Longrightarrow> (of_char c :: nat) < 128"
  by (auto simp: formatRFC3339_def Let_def split: prod.splits dest: appendInt_ascii)

lemma formatRFC3339_nonempty [simp]: "formatRFC3339 t \<noteq> []"
  by (simp add: formatRFC3339_def Let_def split: prod.splits)

lemma replaceInvalid_formatRFC3339 [simp]: "replaceInvalid (formatRFC3339 t) = formatRFC3339 t"
  by (intro replaceInvalid_valid ascii_validUTF8 ballI formatRFC3339_ascii)

lemma readTime_format:
  assumes "tellable t"
  shows "readTime (formatRFC3339 t) = Some t"
proof -
  define s where "s = (case t of None \<Rightarrow> zeroTime | Some i \<Rightarrow> i)"
  have "zeroTime \<le> s" "s < 253402300800"
    using assms by (auto simp: s_def tellable_def zeroTime_def split: option.splits)
  note r = read_formatRFC3339 [OF s_def this]
  have "(if s = zeroTime then None else Some s) = t"
    using assms by (auto simp: s_def tellable_def split: option.splits)
  with r show ?thesis by (simp add: readTime_def)
qed

lemma readTime_empty [simp]: "readTime [] = Some None"
  by (simp add: readTime_def)

lemma replaceInvalid_empty_iff [simp]: "replaceInvalid s = [] \<longleftrightarrow> s = []"
  by (cases s) (auto simp: Let_def utf8Bytes_def simp del: runeSize.simps)

lemma status_names [simp]:
  "replaceInvalid ''sha256'' = ''sha256''" "replaceInvalid ''rulesetName'' = ''rulesetName''"
  "replaceInvalid ''ruleCount'' = ''ruleCount''" "replaceInvalid ''reloadedAt'' = ''reloadedAt''"
  "replaceInvalid ''lastError'' = ''lastError''" "replaceInvalid ''lastErrorAt'' = ''lastErrorAt''"
  by (simp_all add: replaceInvalid_valid ascii_validUTF8)

lemma read_newStatusHandler:
  assumes "tellable (ps_ReloadedAt (State p))" "tellable (ps_LastErrorAt (State p))"
  shows "readStatus (newStatusHandler p) = Some (seenState (State p))"
proof -
  define resp where "resp = \<lparr>sj_SHA256 = ps_SHA256 (State p), sj_RuleSetName = ps_RuleSetName (State p),
    sj_RuleCount = ps_RuleCount (State p), sj_ReloadedAt = formatRFC3339 (ps_ReloadedAt (State p)),
    sj_LastError = ps_LastError (State p),
    sj_LastErrorAt = (if ps_LastErrorAt (State p) = None then [] else formatRFC3339 (ps_LastErrorAt (State p)))\<rparr>"
  have page: "newStatusHandler p = jsonObject (statusFields resp) @ [nl]"
    by (simp add: newStatusHandler_def resp_def Let_def)
  have "statusFields resp \<noteq> []" by (simp add: statusFields_def)
  note r = readObject_jsonObject [OF this, of "[nl]"]
  show ?thesis
    unfolding readStatus_def page r
    using assms
    by (cases "ps_LastErrorAt (State p) = None"; cases "ps_LastError (State p) = []")
      (simp_all add: statusFields_def resp_def omitEmpty_def strField_def numField_def readTime_format seenState_def)
qed

lemma seenState_utf8: "utf8State st \<Longrightarrow> seenState st = st"
  by (simp add: utf8State_def seenState_def replaceInvalid_valid)

end
