(* ===== verification/Engine_Server.thy ===== *)
theory Engine_Server
  imports Front_Ends Grpc_Client Status_Page
begin

text \<open>
  The engine process, \<open>internal/enginepkg/server.go\<close> and \<open>metrics.go\<close>: the metrics registry, the routes of the engine's
  HTTP server, the start of its listeners and the life of \<open>Run\<close> with the goroutines that report to it. The routes
  follow \<open>net/http.ServeMux\<close> for the four patterns the code registers. \<open>Run\<close> is a start function, which is
  sequential, and a step relation from there on: the events from outside, the goroutines of the listeners, the error channel
  of capacity two, the select and the shutdown. The lemmas show which requests are not inspected, that redirects end, that the
  answer to a request for the status tells the state of the provider, that every counted label is registered, how \<open>Run\<close> ends, and that its shutdown takes at most five seconds.
\<close>

subsection \<open>Metrics\<close>

text \<open>
  A registry: the names of its collectors, and the children of its counter vectors by label. \<open>promauto\<close> panics, here
  \<open>None\<close>, when a name is registered twice.
\<close>

record Registry =
  rg_names :: "string list"
  rg_labels :: "string \<Rightarrow> string list"

definition NewRegistry :: Registry where
  "NewRegistry = \<lparr>rg_names = [], rg_labels = (\<lambda>_. [])\<rparr>"

definition registerCollector :: "string \<Rightarrow> Registry \<Rightarrow> Registry option" where
  "registerCollector n r = (if n \<in> set (rg_names r) then None else Some (r\<lparr>rg_names := rg_names r @ [n]\<rparr>))"

fun registerAll :: "string list \<Rightarrow> Registry \<Rightarrow> Registry option" where
  "registerAll [] r = Some r"
| "registerAll (n # ns) r = (case registerCollector n r of None \<Rightarrow> None | Some r1 \<Rightarrow> registerAll ns r1)"

definition WithLabelValues :: "string \<Rightarrow> string \<Rightarrow> Registry \<Rightarrow> Registry" where
  "WithLabelValues n l r =
     (if l \<in> set (rg_labels r n) then r else r\<lparr>rg_labels := (rg_labels r)(n := rg_labels r n @ [l])\<rparr>)"

definition requestsTotal :: string where "requestsTotal = ''coraza_engine_requests_total''"
definition requestLatency :: string where "requestLatency = ''coraza_engine_request_duration_seconds''"
definition wafReloadTotal :: string where "wafReloadTotal = ''coraza_engine_waf_reload_total''"
definition wafCurrentRules :: string where "wafCurrentRules = ''coraza_engine_waf_current_rules''"
definition messagesTotal :: string where "messagesTotal = ''coraza_engine_spoa_messages_total''"
definition messageDuration :: string where "messageDuration = ''coraza_engine_spoa_message_duration_seconds''"

definition newEngineMetrics :: "Registry \<Rightarrow> Registry option" where
  "newEngineMetrics reg =
     map_option
       (\<lambda>r. WithLabelValues wafReloadTotal ''failure'' (WithLabelValues wafReloadTotal ''success''
          (WithLabelValues requestsTotal ''error'' (WithLabelValues requestsTotal ''blocked''
             (WithLabelValues requestsTotal ''allowed'' r)))))
       (registerAll [requestsTotal, requestLatency, wafReloadTotal, wafCurrentRules] reg)"

definition newSPOAMetrics :: "Registry \<Rightarrow> Registry option" where
  "newSPOAMetrics reg =
     map_option
       (\<lambda>r. WithLabelValues messagesTotal ''error'' (WithLabelValues messagesTotal ''denied''
          (WithLabelValues messagesTotal ''allowed'' r)))
       (registerAll [messagesTotal, messageDuration] reg)"

subsection \<open>Routes\<close>

text \<open>\<open>cleanPath\<close> of \<open>net/http\<close>; \<open>path.Clean\<close> is \<open>filepath.Clean\<close> on the systems the engine runs on.\<close>

definition cleanPath :: "string \<Rightarrow> string" where
  "cleanPath p =
     (if p = '''' then ''/''
      else
        (let p1 = (if hd p \<noteq> slash then ''/'' @ p else p);
             np = Clean p1
         in if last p1 = slash \<and> np \<noteq> ''/'' then np @ ''/'' else np))"

text \<open>\<open>url.PathUnescape\<close>; a malformed text is left as it is.\<close>

fun percentDecode :: "string \<Rightarrow> string option" where
  "percentDecode [] = Some []"
| "percentDecode (c # cs) =
     (if c \<noteq> CHR ''%'' then map_option ((#) c) (percentDecode cs)
      else
        (case cs of
           a # b # rest \<Rightarrow>
             (case (hexVal a, hexVal b) of
                (Some x, Some y) \<Rightarrow> map_option ((#) (char_of (16 * x + y))) (percentDecode rest)
              | _ \<Rightarrow> None)
         | _ \<Rightarrow> None))"

definition pathUnescape :: "string \<Rightarrow> string" where
  "pathUnescape s = (case percentDecode s of None \<Rightarrow> s | Some t \<Rightarrow> t)"

definition segments :: "string \<Rightarrow> string list" where
  "segments p = map pathUnescape (splitOn slash (tl p))"

datatype Route = HealthzRoute | ReadyzRoute | StatusRoute | WAFRoute | RedirectRoute string | NotFoundRoute | BadRequestRoute

text \<open>The patterns of \<open>buildEngineMux\<close>, by their literal segments; the pattern \<open>/\<close> matches every rooted path.\<close>

definition matchPattern :: "string \<Rightarrow> Route" where
  "matchPattern p =
     (if p = '''' then NotFoundRoute
      else if segments p = [''healthz''] then HealthzRoute
      else if segments p = [''readyz''] then ReadyzRoute
      else if segments p = [''status''] \<or> segments p = [''-'', ''status''] then StatusRoute
      else WAFRoute)"

definition muxRoute :: "string \<Rightarrow> string \<Rightarrow> string \<Rightarrow> Route" where
  "muxRoute verb uri escapedPath =
     (if uri = ''*'' then BadRequestRoute
      else if verb = ''CONNECT'' then matchPattern escapedPath
      else if cleanPath escapedPath \<noteq> escapedPath then RedirectRoute (cleanPath escapedPath)
      else matchPattern escapedPath)"

text \<open>What the server answers; \<open>SPanic\<close> is the nil dereference of a provider without a firewall.\<close>

datatype 't served = SText int string | SStatus string | SWAF "'t handled" | SRedirect string | SNotFound | SBadRequest
  | SPanic

definition buildEngineMux ::
  "('waf, 't) Coraza \<Rightarrow> reverseProxy \<Rightarrow> Config \<Rightarrow> 'waf AtomicProvider \<Rightarrow> proxyEnv \<Rightarrow> string
    \<Rightarrow> HttpRequest \<Rightarrow> 't served" where
  "buildEngineMux Z rp cfg p e escapedPath r =
     (case muxRoute (rq_Method r) (rq_RequestURI r) escapedPath of
        HealthzRoute \<Rightarrow> SText (fst (healthz p)) (snd (healthz p))
      | ReadyzRoute \<Rightarrow> SText (fst (readyz p)) (snd (readyz p))
      | StatusRoute \<Rightarrow> SStatus (newStatusHandler p)
      | WAFRoute \<Rightarrow>
          (case Current p of None \<Rightarrow> SPanic | Some waf \<Rightarrow> SWAF (BuildHandler Z waf rp (cfg_Mode cfg) r e))
      | RedirectRoute t \<Rightarrow> SRedirect t
      | NotFoundRoute \<Rightarrow> SNotFound
      | BadRequestRoute \<Rightarrow> SBadRequest)"

subsection \<open>The entry point\<close>

text \<open>\<open>cmd/engine/main.go\<close>: the exit code, from the environment and the error \<open>Run\<close> returns for a configuration.\<close>

definition engine_main :: "(string \<Rightarrow> string) \<Rightarrow> (Config \<Rightarrow> string option) \<Rightarrow> int" where
  "engine_main getenv run =
     (case FromEnv getenv of
        Inl err \<Rightarrow> 1
      | Inr cfg \<Rightarrow> (case run cfg of Some runErr \<Rightarrow> 1 | None \<Rightarrow> 0))"

subsection \<open>Listeners\<close>

text \<open>The errors of \<open>ServeSPOA\<close> and \<open>ListenAndServe\<close>: \<open>None\<close> is nil, \<open>ErrServerClosed\<close> has its own constructor.\<close>

datatype serveError = ServerClosed | ServeFailed string

definition ServeSPOA :: "string \<Rightarrow> string option \<Rightarrow> string option \<Rightarrow> bool \<Rightarrow> string option" where
  "ServeSPOA addr listenErr serveErr ctxDone =
     (case listenErr of
        Some err \<Rightarrow> Some (''spoa listen '' @ addr @ '': '' @ err)
      | None \<Rightarrow>
          (case serveErr of
             None \<Rightarrow> None
           | Some err \<Rightarrow> if ctxDone then None else Some (''spoa serve: '' @ err)))"

text \<open>The value \<open>serveHTTP\<close> sends: every outcome sends one.\<close>

definition serveHTTP :: "string \<Rightarrow> serveError option \<Rightarrow> string option" where
  "serveHTTP name err =
     (case err of Some (ServeFailed m) \<Rightarrow> Some (name @ '': '' @ m) | _ \<Rightarrow> None)"

definition spoaMessage :: "string option \<Rightarrow> string option list" where
  "spoaMessage err = (case err of None \<Rightarrow> [] | Some m \<Rightarrow> [Some (''spoa listener: '' @ m)])"

text \<open>\<open>startConfigSubscriber\<close>: the configuration of the client.\<close>

definition grpcConfig :: "Config \<Rightarrow> GRPCClientConfig" where
  "grpcConfig cfg =
     \<lparr>gc_OperatorAddr = cfg_OperatorAddr cfg, gc_EngineNamespace = cfg_EngineNamespace cfg,
      gc_EngineName = cfg_EngineName cfg, gc_CertDir = cfg_CertDir cfg, gc_SATokenPath = cfg_SATokenPath cfg\<rparr>"

subsection \<open>Run\<close>

datatype listener = LSPOA | LHTTP | LMetrics

text \<open>A goroutine of a listener: serving, about to send on the error channel, or at its end.\<close>

datatype goroutine = NotStarted | Serving | Sending "string option" | Finished

datatype runPhase = Selecting | Stopping | Returned "string option"

record RunState =
  ru_g :: "listener \<Rightarrow> goroutine"
  ru_ch :: "string option list"
  ru_ctx :: bool
  ru_phase :: runPhase

definition errChCap :: nat where
  "errChCap = 2"

text \<open>The two HTTP servers, with the bound on the time a client may take for its request headers.\<close>

definition readHeaderTimeout :: nat where
  "readHeaderTimeout = 10"

record HTTPServer =
  hs_Addr :: string
  hs_ReadHeaderTimeout :: nat

definition mainSrv :: "Config \<Rightarrow> HTTPServer" where
  "mainSrv cfg = \<lparr>hs_Addr = cfg_ListenAddr cfg, hs_ReadHeaderTimeout = readHeaderTimeout\<rparr>"

definition startMetricsServer :: "Config \<Rightarrow> HTTPServer option" where
  "startMetricsServer cfg =
     (if cfg_MetricsAddr cfg = '''' then None
      else Some \<lparr>hs_Addr = cfg_MetricsAddr cfg, hs_ReadHeaderTimeout = readHeaderTimeout\<rparr>)"

record 'waf RunStart =
  rs0_provider :: "'waf AtomicProvider"
  rs0_mainSrv :: HTTPServer
  rs0_metricsSrv :: "HTTPServer option"
  rs0_currentRules :: nat
  rs0_registry :: Registry
  rs0_subscriber :: "GRPCClientConfig option"
  rs0_state :: RunState

text \<open>The goroutines that are running when the select is reached.\<close>

definition startListeners :: "Config \<Rightarrow> listener \<Rightarrow> goroutine" where
  "startListeners cfg l =
     (case l of
        LSPOA \<Rightarrow> if cfg_SPOAListenAddr cfg \<noteq> '''' then Serving else NotStarted
      | LHTTP \<Rightarrow> Serving
      | LMetrics \<Rightarrow> if startMetricsServer cfg = None then NotStarted else Serving)"

text \<open>\<open>Run\<close> up to the select; \<open>url.Parse\<close> is an argument.\<close>

definition Run_start ::
  "(WAFConfig \<Rightarrow> 'waf result) \<Rightarrow> (string \<Rightarrow> string result) \<Rightarrow> (string \<Rightarrow> string option) \<Rightarrow> time \<Rightarrow> Config
    \<Rightarrow> 'waf RunStart result" where
  "Run_start newWAF readFile urlParse now cfg =
     (case loadInitialWAF newWAF readFile now (cfg_RuleFilePath cfg) of
        Inl err \<Rightarrow> Inl err
      | Inr (provider, ruleCount) \<Rightarrow>
          (case urlParse (cfg_UpstreamURL cfg) of
             Some err \<Rightarrow> Inl (''parse upstream URL '' @ Quote (cfg_UpstreamURL cfg) @ '': '' @ err)
           | None \<Rightarrow>
               (case Option.bind (newEngineMetrics NewRegistry)
                       (\<lambda>reg. if cfg_SPOAListenAddr cfg \<noteq> '''' then newSPOAMetrics reg else Some reg) of
                  None \<Rightarrow> Inl ''panic: duplicate metrics collector registration attempted''
                | Some reg \<Rightarrow>
                    Inr \<lparr>rs0_provider = provider, rs0_mainSrv = mainSrv cfg, rs0_metricsSrv = startMetricsServer cfg,
                         rs0_currentRules = ruleCount, rs0_registry = reg,
                         rs0_subscriber = (if cfg_OperatorAddr cfg \<noteq> '''' then Some (grpcConfig cfg) else None),
                         rs0_state = \<lparr>ru_g = startListeners cfg, ru_ch = [], ru_ctx = False, ru_phase = Selecting\<rparr>\<rparr>)))"

definition setG :: "listener \<Rightarrow> goroutine \<Rightarrow> RunState \<Rightarrow> RunState" where
  "setG l g s = s\<lparr>ru_g := (ru_g s)(l := g)\<rparr>"

definition httpName :: "listener \<Rightarrow> string" where
  "httpName l = (if l = LMetrics then ''metrics server'' else ''engine server'')"

text \<open>
  What the surroundings do: the context is cancelled, a listener ends. \<open>ListenAndServe\<close> always returns an error, and
  \<open>ErrServerClosed\<close> only after \<open>Shutdown\<close> was called.
\<close>

inductive env_step :: "Config \<Rightarrow> RunState \<Rightarrow> RunState \<Rightarrow> bool" for cfg where
  cancel: "env_step cfg s (s\<lparr>ru_ctx := True\<rparr>)"
| spoa_ends: "ru_g s LSPOA = Serving \<Longrightarrow>
    out = spoaMessage (ServeSPOA (cfg_SPOAListenAddr cfg) listenErr serveErr (ru_ctx s)) \<Longrightarrow>
    env_step cfg s (setG LSPOA (case out of [] \<Rightarrow> Finished | m # _ \<Rightarrow> Sending m) s)"
| http_ends: "l \<noteq> LSPOA \<Longrightarrow> ru_g s l = Serving \<Longrightarrow> (err = ServerClosed \<Longrightarrow> ru_phase s \<noteq> Selecting) \<Longrightarrow>
    env_step cfg s (setG l (Sending (serveHTTP (httpName l) (Some err))) s)"

text \<open>
  What the process does by itself: a goroutine sends its result, \<open>Run\<close> leaves the select by one of its two cases and
  shuts the servers down; the errors of \<open>Shutdown\<close> are logged.
\<close>

inductive proc_step :: "RunState \<Rightarrow> RunState \<Rightarrow> bool" where
  send: "ru_g s l = Sending m \<Longrightarrow> length (ru_ch s) < errChCap \<Longrightarrow>
    proc_step s ((setG l Finished s)\<lparr>ru_ch := ru_ch s @ [m]\<rparr>)"
| select_ctx: "ru_phase s = Selecting \<Longrightarrow> ru_ctx s \<Longrightarrow> proc_step s (s\<lparr>ru_phase := Stopping\<rparr>)"
| select_err: "ru_phase s = Selecting \<Longrightarrow> ru_ch s = Some m # rest \<Longrightarrow>
    proc_step s (s\<lparr>ru_phase := Returned (Some m), ru_ch := rest\<rparr>)"
| select_nil: "ru_phase s = Selecting \<Longrightarrow> ru_ch s = None # rest \<Longrightarrow>
    proc_step s (s\<lparr>ru_phase := Stopping, ru_ch := rest\<rparr>)"
| stopped: "ru_phase s = Stopping \<Longrightarrow> proc_step s (s\<lparr>ru_phase := Returned None\<rparr>)"

inductive run_step :: "Config \<Rightarrow> RunState \<Rightarrow> RunState \<Rightarrow> bool" for cfg where
  surroundings: "env_step cfg s t \<Longrightarrow> run_step cfg s t"
| process: "proc_step s t \<Longrightarrow> run_step cfg s t"

inductive run_reach :: "Config \<Rightarrow> RunState \<Rightarrow> RunState \<Rightarrow> bool" for cfg s where
  here: "run_reach cfg s s"
| onward: "run_reach cfg s t \<Longrightarrow> run_step cfg t u \<Longrightarrow> run_reach cfg s u"

inductive_cases run_stepE: "run_step cfg s t"

lemma setG_simps [simp]:
  "ru_g (setG l g s) = (ru_g s)(l := g)" "ru_ch (setG l g s) = ru_ch s" "ru_ctx (setG l g s) = ru_ctx s"
  "ru_phase (setG l g s) = ru_phase s"
  by (simp_all add: setG_def)

subsection \<open>The shutdown\<close>

definition gracefulShutdownTimeout :: nat where
  "gracefulShutdownTimeout = 5"

text \<open>
  \<open>Shutdown\<close> of \<open>net/http\<close> with the seconds its context has left: it waits until the connections are idle, which takes
  \<open>idle\<close> seconds or never happens, and gives up with the error of the context when its time is over.
\<close>

definition Shutdown :: "nat \<Rightarrow> nat option \<Rightarrow> nat \<times> string option" where
  "Shutdown left idle =
     (case idle of
        Some t \<Rightarrow> if t < left then (t, None) else (left, Some ''context deadline exceeded'')
      | None \<Rightarrow> (left, Some ''context deadline exceeded''))"

text \<open>The end of \<open>Run\<close>: both servers share one context; the errors are logged. The result is the time and the log.\<close>

definition Run_shutdown :: "Config \<Rightarrow> nat option \<Rightarrow> nat option \<Rightarrow> nat \<times> string list" where
  "Run_shutdown cfg mainIdle metricsIdle =
     (case Shutdown gracefulShutdownTimeout mainIdle of (d1, err1) \<Rightarrow>
        let log1 = (case err1 of None \<Rightarrow> [] | Some e \<Rightarrow> [''engine server shutdown error: '' @ e]) in
        case startMetricsServer cfg of
          None \<Rightarrow> (d1, log1)
        | Some srv \<Rightarrow>
            (case Shutdown (gracefulShutdownTimeout - d1) metricsIdle of (d2, err2) \<Rightarrow>
               (d1 + d2, log1 @ (case err2 of None \<Rightarrow> [] | Some e \<Rightarrow> [''metrics server shutdown error: '' @ e]))))"

text \<open>
  The shutdown takes five seconds at most, whatever the connections do; it takes no longer than the connections of both
  servers need, one after the other; and it logs nothing exactly when they were idle in time.
\<close>

theorem engine_shutdown_bounded:
  "fst (Run_shutdown cfg mainIdle metricsIdle) \<le> 5 \<and>
   (\<forall>a b. mainIdle = Some a \<and> metricsIdle = Some b \<longrightarrow> fst (Run_shutdown cfg mainIdle metricsIdle) \<le> a + b) \<and>
   (snd (Run_shutdown cfg mainIdle metricsIdle) = [] \<longleftrightarrow>
      (\<exists>a < 5. mainIdle = Some a \<and> (cfg_MetricsAddr cfg = '''' \<or> (\<exists>b < 5 - a. metricsIdle = Some b))))"
  by (auto simp: Run_shutdown_def Shutdown_def gracefulShutdownTimeout_def startMetricsServer_def Let_def
      split: option.splits if_splits)

subsection \<open>The invariant of Run\<close>

text \<open>The text a listener reports when it fails.\<close>

definition failure :: "string \<Rightarrow> bool" where
  "failure m \<longleftrightarrow> (\<exists>e. m \<in> {''spoa listener: '' @ e, ''engine server: '' @ e, ''metrics server: '' @ e})"

definition active :: "goroutine \<Rightarrow> bool" where
  "active g \<longleftrightarrow> g = Serving \<or> (\<exists>m. g = Sending m)"

definition activeCount :: "RunState \<Rightarrow> nat" where
  "activeCount s = length (filter (\<lambda>l. active (ru_g s l)) [LSPOA, LHTTP, LMetrics])"

definition received :: "RunState \<Rightarrow> nat" where
  "received s = (case ru_phase s of Returned (Some m) \<Rightarrow> 1 | _ \<Rightarrow> 0)"

definition okMessage :: "RunState \<Rightarrow> string option \<Rightarrow> bool" where
  "okMessage s m \<longleftrightarrow> (case m of None \<Rightarrow> ru_phase s \<noteq> Selecting | Some t \<Rightarrow> failure t)"

definition phaseOk :: "runPhase \<Rightarrow> bool \<Rightarrow> bool" where
  "phaseOk p ctx \<longleftrightarrow>
     (case p of Selecting \<Rightarrow> True | Stopping \<Rightarrow> ctx | Returned None \<Rightarrow> ctx | Returned (Some m) \<Rightarrow> failure m)"

definition run_inv :: "RunState \<Rightarrow> bool" where
  "run_inv s \<longleftrightarrow>
     length (ru_ch s) \<le> errChCap \<and>
     length (ru_ch s) + received s + activeCount s \<le> 3 \<and>
     (\<forall>m \<in> set (ru_ch s). okMessage s m) \<and> (\<forall>l m. ru_g s l = Sending m \<longrightarrow> okMessage s m) \<and>
     phaseOk (ru_phase s) (ru_ctx s)"

lemma phaseOk_simps [simp]:
  "phaseOk Selecting c" "phaseOk Stopping c = c" "phaseOk (Returned None) c = c" "phaseOk (Returned (Some m)) c = failure m"
  "phaseOk p c \<Longrightarrow> phaseOk p True"
  by (auto simp: phaseOk_def split: runPhase.splits option.splits)

lemma failure_messages:
  "failure (''spoa listener: '' @ m)" "failure (httpName l @ '': '' @ m)"
  by (auto simp: failure_def httpName_def)

lemma activeCount_setG:
  "activeCount (setG l g s) + (if active (ru_g s l) then 1 else 0) = activeCount s + (if active g then 1 else 0)"
  by (cases l) (simp_all add: activeCount_def)

lemma active_simps [simp]: "active Serving" "active (Sending m)" "\<not> active Finished" "\<not> active NotStarted"
  by (simp_all add: active_def)

lemma count_cong [simp]:
  "activeCount (s\<lparr>ru_ch := ch\<rparr>) = activeCount s" "activeCount (s\<lparr>ru_phase := p\<rparr>) = activeCount s"
  "activeCount (s\<lparr>ru_ctx := c\<rparr>) = activeCount s" "received (s\<lparr>ru_ch := ch\<rparr>) = received s"
  "received (setG l g s) = received s" "received (s\<lparr>ru_ctx := c\<rparr>) = received s"
  "okMessage (s\<lparr>ru_ch := ch\<rparr>) = okMessage s" "okMessage (setG l g s) = okMessage s"
  "okMessage (s\<lparr>ru_ctx := c\<rparr>) = okMessage s"
  by (simp_all add: activeCount_def received_def okMessage_def fun_eq_iff split: option.split)

lemma okMessage_later: "okMessage s m \<Longrightarrow> p \<noteq> Selecting \<Longrightarrow> okMessage (s\<lparr>ru_phase := p\<rparr>) m"
  by (auto simp: okMessage_def split: option.splits)

lemma run_inv_setG:
  assumes "run_inv s" "active (ru_g s l)" "g = Finished \<or> (\<exists>m. g = Sending m \<and> okMessage s m)"
  shows "run_inv (setG l g s)"
  using assms activeCount_setG [of l g s] unfolding run_inv_def
  by (auto split: if_splits)

lemma run_inv_spoa_ends:
  assumes "run_inv s" "ru_g s LSPOA = Serving" "out = spoaMessage (ServeSPOA addr listenErr serveErr ctx)"
  shows "run_inv (setG LSPOA (case out of [] \<Rightarrow> Finished | m # _ \<Rightarrow> Sending m) s)"
  using assms(2,3) failure_messages(1)
  by (intro run_inv_setG [OF assms(1)]) (auto simp: spoaMessage_def okMessage_def split: option.splits)

lemma run_inv_http_ends:
  assumes "run_inv s" "ru_g s l = Serving" "err = ServerClosed \<Longrightarrow> ru_phase s \<noteq> Selecting"
  shows "run_inv (setG l (Sending (serveHTTP (httpName l) (Some err))) s)"
  using assms(2,3) failure_messages(2) [of l]
  by (intro run_inv_setG [OF assms(1)]; cases err) (auto simp: serveHTTP_def okMessage_def)

lemma env_step_inv:
  assumes "run_inv s" "env_step cfg s t"
  shows "run_inv t"
  using assms(2)
proof (cases rule: env_step.cases)
  case cancel
  with assms(1) show ?thesis by (auto simp: run_inv_def)
next
  case (spoa_ends out listenErr serveErr)
  with run_inv_spoa_ends [OF assms(1)] show ?thesis by blast
next
  case (http_ends l err)
  with run_inv_http_ends [OF assms(1)] show ?thesis by blast
qed

lemma proc_step_inv:
  assumes "run_inv s" "proc_step s t"
  shows "run_inv t"
  using assms(2)
proof (cases rule: proc_step.cases)
  case (send l m)
  have "run_inv (setG l Finished s)" "okMessage s m"
    using run_inv_setG [OF assms(1), of l Finished] send assms(1) by (auto simp: run_inv_def)
  moreover have "Suc (activeCount (setG l Finished s)) = activeCount s"
    using activeCount_setG [of l Finished s] send by simp
  ultimately show ?thesis
    using send assms(1) by (auto simp: run_inv_def)
next
  case select_ctx
  with assms(1) show ?thesis
    by (auto simp: run_inv_def received_def okMessage_later)
next
  case (select_err m rest)
  with assms(1) show ?thesis
    by (auto simp: run_inv_def received_def okMessage_later) (auto simp: okMessage_def)
next
  case (select_nil rest)
  with assms(1) show ?thesis
    by (auto simp: run_inv_def okMessage_def)
next
  case stopped
  with assms(1) show ?thesis
    by (auto simp: run_inv_def received_def okMessage_later)
qed

lemma run_step_inv: "run_step cfg s t \<Longrightarrow> run_inv s \<Longrightarrow> run_inv t"
  by (elim run_stepE) (auto intro: env_step_inv proc_step_inv)

lemma run_reach_inv: "run_reach cfg s t \<Longrightarrow> run_inv s \<Longrightarrow> run_inv t"
  by (induction rule: run_reach.induct) (auto intro: run_step_inv)

lemma run_inv_start:
  "run_inv \<lparr>ru_g = startListeners cfg, ru_ch = [], ru_ctx = False, ru_phase = Selecting\<rparr>"
  by (auto simp: run_inv_def received_def activeCount_def startListeners_def okMessage_def
      split: listener.splits if_splits option.splits)

subsection \<open>Canonical paths\<close>

lemma cleanStep_plain: "plainName e \<Longrightarrow> cleanStep r e st = e # st"
  by (auto simp: cleanStep_def plainName_def)

lemma cleanStep_keeps_plain:
  assumes "\<forall>x \<in> set st. plainName x" "slash \<notin> set e"
  shows "\<forall>x \<in> set (cleanStep True e st). plainName x"
  using assms by (cases st) (auto simp: cleanStep_def plainName_def)

lemma fold_cleanStep_keeps_plain:
  "\<forall>x \<in> set st. plainName x \<Longrightarrow> \<forall>e \<in> set es. slash \<notin> set e \<Longrightarrow>
     \<forall>x \<in> set (fold (cleanStep True) es st). plainName x"
proof (induction es arbitrary: st)
  case (Cons e es)
  then show ?case
    using cleanStep_keeps_plain [of st e] by simp
qed simp

lemma fold_cleanStep_plain:
  "\<forall>e \<in> set es. plainName e \<Longrightarrow> fold (cleanStep r) es st = rev es @ st"
  by (induction es arbitrary: st) (simp_all add: cleanStep_plain)

definition rootedPath :: "string list \<Rightarrow> string" where
  "rootedPath es = slash # joinWith [slash] es"

lemma rootedPath_split:
  assumes "\<forall>e \<in> set es. plainName e" "es \<noteq> []"
  shows "splitOn slash (rootedPath es) = [] # es" "splitOn slash (rootedPath es @ [slash]) = [] # es @ [[]]"
proof -
  have "splitOn slash (joinWith [slash] es) = es"
    using assms by (intro splitOn_joinWith) (auto simp: plainName_def)
  then show "splitOn slash (rootedPath es) = [] # es" "splitOn slash (rootedPath es @ [slash]) = [] # es @ [[]]"
    by (simp_all add: rootedPath_def splitOn_snoc_sep)
qed

lemma Clean_rooted: "Clean (slash # q) = rootedPath (rev (fold (cleanStep True) (splitOn slash (slash # q)) []))"
  by (simp add: Clean_def rootedPath_def slash_def Let_def)

lemma Clean_rootedPath:
  assumes "\<forall>e \<in> set es. plainName e" "es \<noteq> []"
  shows "Clean (rootedPath es) = rootedPath es" "Clean (rootedPath es @ [slash]) = rootedPath es"
  using Clean_rooted [of "joinWith [slash] es"] Clean_rooted [of "joinWith [slash] es @ [slash]"]
    rootedPath_split [OF assms] fold_cleanStep_plain [OF assms(1), of True]
  by (simp_all add: rootedPath_def [symmetric] cleanStep_def) (simp add: rootedPath_def cleanStep_def)

lemma joinWith_last:
  assumes "\<forall>e \<in> set es. plainName e" "es \<noteq> []"
  shows "joinWith [slash] es \<noteq> []" "last (joinWith [slash] es) \<noteq> slash"
proof -
  obtain xs f where es: "es = xs @ [f]" using assms(2) by (metis rev_exhaust)
  have "f \<noteq> []" "slash \<notin> set f"
    using assms(1) es by (auto simp: plainName_def)
  moreover from this have "last f \<noteq> slash" by (metis last_in_set)
  ultimately show "joinWith [slash] es \<noteq> []" "last (joinWith [slash] es) \<noteq> slash"
    by (auto simp: es joinWith_snoc)
qed

lemma cleanPath_fix:
  assumes "\<forall>e \<in> set es. plainName e" "es \<noteq> []"
  shows "cleanPath (rootedPath es) = rootedPath es" "cleanPath (rootedPath es @ [slash]) = rootedPath es @ [slash]"
proof -
  have n: "rootedPath es \<noteq> [slash]" "last (rootedPath es) \<noteq> slash"
    using joinWith_last [OF assms] by (simp_all add: rootedPath_def)
  then show "cleanPath (rootedPath es) = rootedPath es" "cleanPath (rootedPath es @ [slash]) = rootedPath es @ [slash]"
    using Clean_rootedPath [OF assms] by (simp_all add: cleanPath_def Let_def rootedPath_def slash_def)
qed

lemma cleanPath_form:
  obtains "cleanPath p = [slash]"
  | es where "\<forall>e \<in> set es. plainName e" "es \<noteq> []" "cleanPath p \<in> {rootedPath es, rootedPath es @ [slash]}"
proof (cases "p = []")
  case True
  then show ?thesis using that(1) by (simp add: cleanPath_def slash_def)
next
  case False
  obtain q where q: "(if hd p \<noteq> slash then ''/'' @ p else p) = slash # q"
    using False by (cases p; cases "hd p = slash") (simp_all add: slash_def)
  let ?es = "rev (fold (cleanStep True) (splitOn slash (slash # q)) [])"
  have pl: "\<forall>e \<in> set ?es. plainName e"
    using fold_cleanStep_keeps_plain [of "[]" "splitOn slash (slash # q)"] splitOn_pieces by fastforce
  have c: "cleanPath p = (if last (slash # q) = slash \<and> rootedPath ?es \<noteq> ''/'' then rootedPath ?es @ ''/'' else rootedPath ?es)"
    using False by (simp only: cleanPath_def q Let_def Clean_rooted if_False)
  show ?thesis
  proof (cases "?es = []")
    case True
    then show ?thesis
      using that(1) unfolding c by (simp add: rootedPath_def slash_def)
  next
    case False
    then show ?thesis
      using that(2) [OF pl] unfolding c by (simp add: slash_def)
  qed
qed

lemma cleanPath_root: "cleanPath [slash] = [slash]"
  by (simp add: cleanPath_def slash_def Clean_def cleanStep_def)

lemma cleanPath_idem: "cleanPath (cleanPath p) = cleanPath p"
proof (cases rule: cleanPath_form [of p])
  case 1
  then show ?thesis by (simp add: cleanPath_root)
next
  case (2 es)
  then show ?thesis using cleanPath_fix [OF 2(1,2)] by auto
qed

lemma cleanPath_nonempty: "cleanPath p \<noteq> []"
  by (cases rule: cleanPath_form [of p]) (auto simp: rootedPath_def)

subsection \<open>Properties\<close>

definition ownPaths :: "string list set" where
  "ownPaths = {[''healthz''], [''readyz''], [''status''], [''-'', ''status'']}"

lemma matchPattern_cases:
  assumes "p \<noteq> []"
  shows "matchPattern p = WAFRoute \<longleftrightarrow> segments p \<notin> ownPaths"
    and "matchPattern p \<in> {HealthzRoute, ReadyzRoute, StatusRoute} \<longleftrightarrow> segments p \<in> ownPaths"
    and "matchPattern p \<noteq> RedirectRoute t"
  using assms by (auto simp: matchPattern_def ownPaths_def)

text \<open>
  C20. Which requests the firewall does not see: apart from \<open>CONNECT\<close> and the target \<open>*\<close>, a path that is not canonical
  is redirected to its canonical form and the redirected request is not redirected again; a canonical path is answered
  by the engine itself exactly when its decoded segments are one of the four paths of the probes and the status, and
  every other request is handled by the inspecting proxy on the current firewall.
\<close>

theorem engine_routes:
  assumes "rq_Method r \<noteq> ''CONNECT''" "rq_RequestURI r \<noteq> ''*''" "Current p = Some waf"
  shows "(cleanPath path \<noteq> path \<longrightarrow>
      buildEngineMux Z rp cfg p e path r = SRedirect (cleanPath path)
      \<and> (\<forall>t. buildEngineMux Z rp cfg p e (cleanPath path) r \<noteq> SRedirect t))
    \<and> (cleanPath path = path \<and> segments path \<notin> ownPaths \<longrightarrow>
      buildEngineMux Z rp cfg p e path r = SWAF (BuildHandler Z waf rp (cfg_Mode cfg) r e))
    \<and> (cleanPath path = path \<and> segments path \<in> ownPaths \<longrightarrow>
      buildEngineMux Z rp cfg p e path r \<in>
        {SText 200 ''ok'', SText (fst (readyz p)) (snd (readyz p)), SStatus (newStatusHandler p)})"
proof (intro conjI impI allI)
  have ne: "path \<noteq> []" if "cleanPath path = path"
    using cleanPath_nonempty [of path] that by simp
  show "buildEngineMux Z rp cfg p e path r = SRedirect (cleanPath path)" if "cleanPath path \<noteq> path"
    using assms that by (simp add: buildEngineMux_def muxRoute_def)
  show "buildEngineMux Z rp cfg p e (cleanPath path) r \<noteq> SRedirect t" for t
    using assms matchPattern_cases(3) [OF cleanPath_nonempty, of path]
    by (auto simp: buildEngineMux_def muxRoute_def cleanPath_idem split: Route.splits option.splits)
  show "buildEngineMux Z rp cfg p e path r = SWAF (BuildHandler Z waf rp (cfg_Mode cfg) r e)"
    if "cleanPath path = path \<and> segments path \<notin> ownPaths"
    using assms that ne matchPattern_cases(1) [of path] by (simp add: buildEngineMux_def muxRoute_def)
  show "buildEngineMux Z rp cfg p e path r \<in>
        {SText 200 ''ok'', SText (fst (readyz p)) (snd (readyz p)), SStatus (newStatusHandler p)}"
    if "cleanPath path = path \<and> segments path \<in> ownPaths"
    using assms that ne matchPattern_cases(2) [of path] by (auto simp: buildEngineMux_def muxRoute_def healthz_def)
qed

lemma status_paths:
  assumes "path \<in> {''/status'', ''/-/status''}"
  shows "cleanPath path = path" "matchPattern path = StatusRoute"
proof -
  have "cleanPath ''/status'' = ''/status''" "cleanPath ''/-/status'' = ''/-/status''" by code_simp+
  moreover have "matchPattern ''/status'' = StatusRoute" "matchPattern ''/-/status'' = StatusRoute" by code_simp+
  ultimately show "cleanPath path = path" "matchPattern path = StatusRoute" using assms by auto
qed

text \<open>
  C21. The status page tells the state: a request for \<open>/status\<close> or \<open>/-/status\<close>, with any method, is answered by the engine with
  a JSON document from which a reader gets every field of the state of the provider back, the two times included and an
  error only if there is one. Bytes of the texts that are not UTF-8 are read as replacement characters; a state whose
  texts are UTF-8 is read back exactly.
\<close>

theorem status_page_tells_the_state:
  assumes "path \<in> {''/status'', ''/-/status''}" "rq_RequestURI r \<noteq> ''*''"
    and "tellable (ps_ReloadedAt (State p))" "tellable (ps_LastErrorAt (State p))"
  shows "\<exists>body. buildEngineMux Z rp cfg p e path r = SStatus body \<and> readStatus body = Some (seenState (State p)) \<and>
    (utf8State (State p) \<longrightarrow> readStatus body = Some (State p))"
  using assms(2) status_paths [OF assms(1)] read_newStatusHandler [OF assms(3,4)] seenState_utf8 [of "State p"]
  by (simp add: buildEngineMux_def muxRoute_def)

lemma Run_start_Inr:
  assumes "Run_start newWAF readFile urlParse now cfg = Inr st"
  shows "rs0_state st = \<lparr>ru_g = startListeners cfg, ru_ch = [], ru_ctx = False, ru_phase = Selecting\<rparr>"
    and "rs0_subscriber st = (if cfg_OperatorAddr cfg \<noteq> '''' then Some (grpcConfig cfg) else None)"
    and "loadInitialWAF newWAF readFile now (cfg_RuleFilePath cfg) = Inr (rs0_provider st, rs0_currentRules st)"
  using assms by (auto simp: Run_start_def split: sum.splits prod.splits option.splits)

subsection \<open>The process comes to rest\<close>

text \<open>The steps that are left to the process: the values to be sent, the select and the shutdown.\<close>

definition toSend :: "RunState \<Rightarrow> nat" where
  "toSend s = length (filter (\<lambda>l. \<exists>m. ru_g s l = Sending m) [LSPOA, LHTTP, LMetrics])"

definition procLeft :: "RunState \<Rightarrow> nat" where
  "procLeft s = toSend s + (case ru_phase s of Selecting \<Rightarrow> 2 | Stopping \<Rightarrow> 1 | Returned _ \<Rightarrow> 0)"

lemma toSend_simps [simp]:
  "toSend (s\<lparr>ru_ch := ch\<rparr>) = toSend s" "toSend (s\<lparr>ru_phase := p\<rparr>) = toSend s"
  "ru_g s l = Sending m \<Longrightarrow> Suc (toSend (setG l Finished s)) = toSend s"
  by (simp_all add: toSend_def) (cases l; simp)

lemma proc_step_decreases: "proc_step s t \<Longrightarrow> procLeft t < procLeft s"
  by (erule proc_step.cases) (auto simp: procLeft_def dest: toSend_simps(3) split: runPhase.split)


lemma proc_comes_to_rest: "\<exists>t. proc_step\<^sup>*\<^sup>* s t \<and> (\<nexists>u. proc_step t u)"
proof (induction "procLeft s" arbitrary: s rule: less_induct)
  case less
  then show ?case
    using proc_step_decreases by (cases "\<exists>t. proc_step s t") (blast intro: converse_rtranclp_into_rtranclp)+
qed

text \<open>A reason to end: the context is cancelled, or a listener reports.\<close>

definition reason :: "RunState \<Rightarrow> bool" where
  "reason s \<longleftrightarrow> ru_phase s \<noteq> Selecting \<or> ru_ctx s \<or> ru_ch s \<noteq> [] \<or> (\<exists>l m. ru_g s l = Sending m)"

lemma proc_keeps: "proc_step s t \<Longrightarrow> reason t \<and> ru_ctx t = ru_ctx s"
  by (erule proc_step.cases) (auto simp: reason_def)

lemma proc_run_keeps: "proc_step\<^sup>*\<^sup>* s t \<Longrightarrow> reason s \<Longrightarrow> reason t \<and> ru_ctx t = ru_ctx s"
  by (induction rule: rtranclp_induct) (auto dest: proc_keeps)


lemma proc_rest_returned:
  assumes "\<nexists>u. proc_step s u" "reason s"
  shows "\<exists>r. ru_phase s = Returned r"
proof (cases "ru_phase s")
  case Selecting
  then have "\<not> ru_ctx s" using assms(1) proc_step.select_ctx by blast
  moreover have "ru_ch s = []"
  proof (cases "ru_ch s")
    case (Cons x rest)
    then show ?thesis
      using assms(1) Selecting proc_step.select_err proc_step.select_nil by (cases x) blast+
  qed
  moreover from this have "ru_g s l \<noteq> Sending m" for l m
    using assms(1) proc_step.send [of s l m] by (auto simp: errChCap_def)
  ultimately show ?thesis using assms(2) Selecting by (auto simp: reason_def)
next
  case Stopping
  then show ?thesis using assms(1) proc_step.stopped by blast
qed simp

lemma proc_run_reach: "proc_step\<^sup>*\<^sup>* s t \<Longrightarrow> run_reach cfg s t"
  by (induction rule: rtranclp_induct) (auto intro: run_reach.intros run_step.process)

lemma run_returns:
  assumes "ru_ctx s \<or> (\<exists>l m. ru_g s l = Sending (Some m))"
  shows "\<exists>u r. run_reach cfg s u \<and> ru_phase u = Returned r"
proof -
  obtain t where t: "proc_step\<^sup>*\<^sup>* s t" "\<nexists>u. proc_step t u" using proc_comes_to_rest by blast
  have "reason s" using assms by (auto simp: reason_def)
  with t proc_run_keeps proc_rest_returned have "\<exists>r. ru_phase t = Returned r" by blast
  with proc_run_reach [OF t(1)] show ?thesis by blast
qed

subsection \<open>How Run ends\<close>

text \<open>
  C22. How \<open>Run\<close> ends: from its start and over any interleaving of its goroutines, it returns nil only after its context
  was cancelled, and an error only if a listener reported that failure. A cancelled context, or a listener that failed,
  can always make it return. The error channel never holds more than two values, and after an error was returned no
  goroutine stays blocked on it.
\<close>

theorem run_ends_for_a_reason:
  assumes "Run_start newWAF readFile urlParse now cfg = Inr st" and "run_reach cfg (rs0_state st) s"
  shows "(ru_phase s = Returned None \<longrightarrow> ru_ctx s)
    \<and> (ru_phase s = Returned (Some m) \<longrightarrow> failure m)
    \<and> (ru_phase s = Selecting \<and> (ru_ctx s \<or> (\<exists>l m. ru_g s l = Sending (Some m))) \<longrightarrow>
        (\<exists>u r. run_reach cfg s u \<and> ru_phase u = Returned r))
    \<and> length (ru_ch s) \<le> errChCap
    \<and> (ru_phase s = Returned (Some m) \<and> ru_g s l = Sending x \<longrightarrow> length (ru_ch s) < errChCap)"
proof -
  have inv: "run_inv s"
    using run_reach_inv [OF assms(2)] Run_start_Inr(1) [OF assms(1)] run_inv_start by simp
  have "0 < activeCount s" if "ru_g s l = Sending x"
    using that by (cases l) (simp_all add: activeCount_def)
  then show ?thesis
    using inv run_returns [of s cfg] by (auto simp: run_inv_def received_def errChCap_def)
qed

lemma registerAll_Some:
  "distinct ns \<Longrightarrow> set ns \<inter> set (rg_names r) = {} \<Longrightarrow> registerAll ns r = Some (r\<lparr>rg_names := rg_names r @ ns\<rparr>)"
  by (induction ns arbitrary: r) (auto simp: registerCollector_def)

lemma WithLabelValues_simps [simp]:
  "rg_names (WithLabelValues n l r) = rg_names r"
  "set (rg_labels (WithLabelValues n l r) n') = set (rg_labels r n') \<union> (if n' = n then {l} else {})"
  by (auto simp: WithLabelValues_def)

lemmas metric_names = requestsTotal_def requestLatency_def wafReloadTotal_def wafCurrentRules_def messagesTotal_def
  messageDuration_def

lemma metric_names_distinct:
  "distinct [requestsTotal, requestLatency, wafReloadTotal, wafCurrentRules, messagesTotal, messageDuration]"
  by (simp add: metric_names)

lemma engine_metrics_register:
  obtains r1 r2 where "newEngineMetrics NewRegistry = Some r1" "newSPOAMetrics r1 = Some r2"
    "set (rg_labels r1 requestsTotal) = {''allowed'', ''blocked'', ''error''}"
    "set (rg_labels r1 wafReloadTotal) = {''success'', ''failure''}"
    "set (rg_labels r2 requestsTotal) = {''allowed'', ''blocked'', ''error''}"
    "set (rg_labels r2 wafReloadTotal) = {''success'', ''failure''}"
    "set (rg_labels r2 messagesTotal) = {''allowed'', ''denied'', ''error''}"
proof -

  have a: "registerAll [requestsTotal, requestLatency, wafReloadTotal, wafCurrentRules] NewRegistry =
      Some (NewRegistry\<lparr>rg_names := [requestsTotal, requestLatency, wafReloadTotal, wafCurrentRules]\<rparr>)"
    using metric_names_distinct by (subst registerAll_Some) (simp_all add: NewRegistry_def)
  then obtain r1 where r1: "newEngineMetrics NewRegistry = Some r1"
    and e1: "r1 = WithLabelValues wafReloadTotal ''failure'' (WithLabelValues wafReloadTotal ''success''
          (WithLabelValues requestsTotal ''error'' (WithLabelValues requestsTotal ''blocked''
             (WithLabelValues requestsTotal ''allowed''
               (NewRegistry\<lparr>rg_names := [requestsTotal, requestLatency, wafReloadTotal, wafCurrentRules]\<rparr>)))))"
    by (simp add: newEngineMetrics_def)
  have n: "requestsTotal \<noteq> wafReloadTotal" "wafReloadTotal \<noteq> requestsTotal" "messagesTotal \<noteq> requestsTotal"
      "messagesTotal \<noteq> wafReloadTotal" "requestsTotal \<noteq> messagesTotal" "wafReloadTotal \<noteq> messagesTotal"
    by (simp_all add: metric_names)
  have l1: "rg_names r1 = [requestsTotal, requestLatency, wafReloadTotal, wafCurrentRules]"
      "set (rg_labels r1 requestsTotal) = {''allowed'', ''blocked'', ''error''}"
      "set (rg_labels r1 wafReloadTotal) = {''success'', ''failure''}" "set (rg_labels r1 messagesTotal) = {}"
    unfolding e1 WithLabelValues_simps by (simp_all add: NewRegistry_def n insert_commute)
  have "registerAll [messagesTotal, messageDuration] r1 =
      Some (r1\<lparr>rg_names := rg_names r1 @ [messagesTotal, messageDuration]\<rparr>)"
    using metric_names_distinct l1(1) by (subst registerAll_Some) auto
  then obtain r2 where r2: "newSPOAMetrics r1 = Some r2"
    and e2: "r2 = WithLabelValues messagesTotal ''error'' (WithLabelValues messagesTotal ''denied''
          (WithLabelValues messagesTotal ''allowed'' (r1\<lparr>rg_names := rg_names r1 @ [messagesTotal, messageDuration]\<rparr>)))"
    by (simp add: newSPOAMetrics_def)
  have l2: "set (rg_labels r2 requestsTotal) = {''allowed'', ''blocked'', ''error''}"
      "set (rg_labels r2 wafReloadTotal) = {''success'', ''failure''}"
      "set (rg_labels r2 messagesTotal) = {''allowed'', ''denied'', ''error''}"
    using l1(2-4) unfolding e2 WithLabelValues_simps by (simp_all add: n insert_commute)
  show thesis by (rule that [OF r1 r2 l1(2,3) l2])
qed

text \<open>
  The start of an engine fails for two reasons only: the first firewall cannot be loaded or the upstream is not a
  URL; the registration of the metrics never panics. An engine that started has every label registered under which
  the proxy, the agent and the reload handler count, has its gauge at the rule count of the file, runs the listeners
  its configuration asks for, and subscribes with the identity of its configuration exactly when it has an operator.
\<close>

theorem engine_start_is_exact:
  shows "(\<forall>err. Run_start newWAF readFile urlParse now cfg = Inl err \<longleftrightarrow>
      loadInitialWAF newWAF readFile now (cfg_RuleFilePath cfg) = Inl err
      \<or> (\<exists>r e. loadInitialWAF newWAF readFile now (cfg_RuleFilePath cfg) = Inr r \<and> urlParse (cfg_UpstreamURL cfg) = Some e
          \<and> err = ''parse upstream URL '' @ Quote (cfg_UpstreamURL cfg) @ '': '' @ e))
    \<and> (\<forall>st. Run_start newWAF readFile urlParse now cfg = Inr st \<longrightarrow>
      {''allowed'', ''blocked'', ''error''} \<subseteq> set (rg_labels (rs0_registry st) requestsTotal)
      \<and> {''success'', ''failure''} \<subseteq> set (rg_labels (rs0_registry st) wafReloadTotal)
      \<and> (cfg_SPOAListenAddr cfg \<noteq> '''' \<longrightarrow>
          {''allowed'', ''denied'', ''error''} \<subseteq> set (rg_labels (rs0_registry st) messagesTotal))
      \<and> (\<exists>body. readFile (cfg_RuleFilePath cfg) = Inr body \<and> rs0_currentRules st = CountRules body)
      \<and> rs0_subscriber st = (if cfg_OperatorAddr cfg = '''' then None else Some (grpcConfig cfg)))"
proof -
  obtain r1 r2 where r: "newEngineMetrics NewRegistry = Some r1" "newSPOAMetrics r1 = Some r2"
    "set (rg_labels r1 requestsTotal) = {''allowed'', ''blocked'', ''error''}"
    "set (rg_labels r1 wafReloadTotal) = {''success'', ''failure''}"
    "set (rg_labels r2 requestsTotal) = {''allowed'', ''blocked'', ''error''}"
    "set (rg_labels r2 wafReloadTotal) = {''success'', ''failure''}"
    "set (rg_labels r2 messagesTotal) = {''allowed'', ''denied'', ''error''}"
    by (rule engine_metrics_register)
  have count: "\<exists>body. readFile (cfg_RuleFilePath cfg) = Inr body \<and> n = CountRules body"
    if "loadInitialWAF newWAF readFile now (cfg_RuleFilePath cfg) = Inr (p, n)" for p n
    using that by (auto simp: loadInitialWAF_def BuildWAF_def split: sum.splits)
  show ?thesis
  proof (intro conjI allI impI)
    fix err
    show "Run_start newWAF readFile urlParse now cfg = Inl err \<longleftrightarrow>
      loadInitialWAF newWAF readFile now (cfg_RuleFilePath cfg) = Inl err
      \<or> (\<exists>r e. loadInitialWAF newWAF readFile now (cfg_RuleFilePath cfg) = Inr r \<and> urlParse (cfg_UpstreamURL cfg) = Some e
          \<and> err = ''parse upstream URL '' @ Quote (cfg_UpstreamURL cfg) @ '': '' @ e)"
      using r(1,2) by (auto simp: Run_start_def split: sum.splits prod.splits option.splits)
  next
    fix st
    assume st: "Run_start newWAF readFile urlParse now cfg = Inr st"
    then have reg: "rs0_registry st = (if cfg_SPOAListenAddr cfg \<noteq> '''' then r2 else r1)"
      using r(1,2) by (auto simp: Run_start_def split: sum.splits prod.splits option.splits)
    show "{''allowed'', ''blocked'', ''error''} \<subseteq> set (rg_labels (rs0_registry st) requestsTotal)"
      "{''success'', ''failure''} \<subseteq> set (rg_labels (rs0_registry st) wafReloadTotal)"
      using r reg by auto
    show "{''allowed'', ''denied'', ''error''} \<subseteq> set (rg_labels (rs0_registry st) messagesTotal)"
      if "cfg_SPOAListenAddr cfg \<noteq> ''''"
      using r reg that by auto
    show "\<exists>body. readFile (cfg_RuleFilePath cfg) = Inr body \<and> rs0_currentRules st = CountRules body"
      by (rule count [OF Run_start_Inr(3) [OF st]])
    show "rs0_subscriber st = (if cfg_OperatorAddr cfg = '''' then None else Some (grpcConfig cfg))"
      using Run_start_Inr(2) [OF st] by simp
  qed
qed

subsection \<open>Witnesses\<close>

definition demoConfig :: Config where
  "demoConfig =
     \<lparr>cfg_ListenAddr = '':8080'', cfg_UpstreamURL = ''http://backend'', cfg_Mode = ModeBlocking, cfg_RuleFilePath = ''/r'',
      cfg_MetricsAddr = '':9090'', cfg_OperatorAddr = ''op:9443'', cfg_EngineNamespace = ''ns'', cfg_EngineName = ''e'',
      cfg_CertDir = ''/c'', cfg_SATokenPath = ''/t'', cfg_SPOAListenAddr = '':9000'', cfg_BundleCachePath = ''''\<rparr>"

lemma demo_run_starts: "\<exists>st. Run_start demoNewWAF (\<lambda>f. Inr ''SecAction'') (\<lambda>u. None) 1 cfg = Inr st"
proof -
  obtain r1 r2 where "newEngineMetrics NewRegistry = Some r1" "newSPOAMetrics r1 = Some r2"
    by (rule engine_metrics_register)
  then show ?thesis
    by (simp add: Run_start_def loadInitialWAF_def demo_BuildWAF)
qed

theorem engine_start_is_exact_witness:
  "\<exists>st. Run_start demoNewWAF (\<lambda>f. Inr ''SecAction'') (\<lambda>u. None) 1 demoConfig = Inr st
     \<and> rs0_subscriber st = Some (grpcConfig demoConfig)"
  using engine_start_is_exact [of demoNewWAF "\<lambda>f. Inr ''SecAction''" "\<lambda>u. None" 1 demoConfig] demo_run_starts [of demoConfig]
  by (auto simp: demoConfig_def)

theorem run_ends_for_a_reason_witness:
  "\<exists>st u r. Run_start demoNewWAF (\<lambda>f. Inr ''SecAction'') (\<lambda>u. None) 1 demoConfig = Inr st
     \<and> run_reach demoConfig (rs0_state st) u \<and> ru_phase u = Returned r"
proof -
  obtain st where st: "Run_start demoNewWAF (\<lambda>f. Inr ''SecAction'') (\<lambda>u. None) 1 demoConfig = Inr st"
    using demo_run_starts by blast
  let ?s = "(rs0_state st)\<lparr>ru_ctx := True\<rparr>"
  have reach: "run_reach demoConfig (rs0_state st) ?s"
    by (rule onward [OF here surroundings [OF cancel]])
  have "\<exists>u r. run_reach demoConfig ?s u \<and> ru_phase u = Returned r"
    using run_ends_for_a_reason [OF st reach] Run_start_Inr(1) [OF st] by simp
  moreover have "run_reach demoConfig (rs0_state st) u" if "run_reach demoConfig ?s u" for u
    using that by (induction rule: run_reach.induct) (auto intro: reach onward)
  ultimately show ?thesis using st by blast
qed

theorem engine_routes_witness:
  "\<exists>h. buildEngineMux demoCoraza demoProxy demoConfig (NewAtomicProvider 1 (Some []) ''h'') freshEnv ''/login''
      (demoHttpRequest ''good'') = SWAF h"
proof -
  have c: "cleanPath ''/login'' = ''/login''" and s: "segments ''/login'' = [''login'']"
    by code_simp+
  have r: "rq_Method (demoHttpRequest ''good'') \<noteq> ''CONNECT''" "rq_RequestURI (demoHttpRequest ''good'') \<noteq> ''*''"
    by (simp_all add: demoHttpRequest_def)
  have p: "Current (NewAtomicProvider 1 (Some []) ''h'') = Some []"
    by (simp add: Current_def NewAtomicProvider_def)
  show ?thesis
    using engine_routes [OF r p, of "''/login''" demoCoraza demoProxy demoConfig freshEnv] c s
    by (simp add: ownPaths_def)
qed

text \<open>The state after a bundle that does not parse: all six fields are on the page.\<close>

definition demoState :: ProviderState where
  "demoState = \<lparr>ps_SHA256 = ''ab'', ps_RuleSetName = ''r'', ps_RuleCount = 7, ps_ReloadedAt = Some 1700000000,
     ps_LastError = ''parse failed: <x>'', ps_LastErrorAt = Some 1709164800\<rparr>"

theorem status_page_tells_the_state_witness:
  "\<exists>body. buildEngineMux demoCoraza demoProxy demoConfig \<lparr>ap_waf = Some [], ap_state = demoState\<rparr> freshEnv ''/status''
      (demoHttpRequest ''good'') = SStatus body \<and> readStatus body = Some demoState"
proof -
  let ?p = "\<lparr>ap_waf = Some [], ap_state = demoState\<rparr>"
  have path: "''/status'' \<in> {''/status'', ''/-/status''}" by simp
  have r: "rq_RequestURI (demoHttpRequest ''good'') \<noteq> ''*''" by (simp add: demoHttpRequest_def)
  have st: "State ?p = demoState" by (simp add: State_def)
  have t: "tellable (ps_ReloadedAt (State ?p))" "tellable (ps_LastErrorAt (State ?p))"
    unfolding st by (simp_all add: tellable_def demoState_def zeroTime_def)
  have "utf8State demoState" by (simp add: utf8State_def demoState_def ascii_validUTF8)
  then show ?thesis
    using status_page_tells_the_state [OF path r t, of demoCoraza demoProxy demoConfig freshEnv] unfolding st by blast
qed

subsection \<open>Termination of Run\<close>



end
