(* ===== verification/Control_Plane.thy ===== *)
theory Control_Plane
  imports Engine_Controller Engine_Server
begin

text \<open>
  The operator and its engines as one transition system. The state is the cluster, the store of the operator, the
  streams its service has open, the messages on their way and the running pods; the steps are the reconciles
  (\<open>internal/controller\<close>), the handler of \<open>Subscribe\<close> (\<open>internal/grpcserver\<close>) and the receive loop with the bundle
  handler of the engine (\<open>internal/enginepkg\<close>), in any order and with failures: streams end on either side, pods and
  the operator restart. Every step runs the function that models the code. A reconcile, a registration and the handling
  of a bundle are one step each; the section of \<open>Subscribe\<close> outside the lock is the subject of \<open>Rulestore\<close>, and
  reconciles of the two publishing controllers that overlap are not represented.

  The invariant is proved by rule induction. It gives: a pod only runs what it started with or what a reconcile
  published for its engine; it never goes back to an older bundle; and once the deliveries have come to rest, which
  they do, a pod with an open stream runs the current bundle of the store, and the digest in the status of a rule
  set is the one its pods report.
\<close>

subsection \<open>Publications\<close>

text \<open>A store in which \<open>b\<close> was published for the keys of \<open>A\<close>.\<close>

definition deliveredTo :: "Store \<Rightarrow> engineKey set \<Rightarrow> Bundle \<Rightarrow> Store" where
  "deliveredTo s A b =
     s\<lparr>st_bundles := (\<lambda>k. if k \<in> A then Some b else st_bundles s k),
       st_chans := (\<lambda>sub. if \<exists>k \<in> A. sub \<in> set (subsOf s k) then [b] else st_chans s sub)\<rparr>"

lemma deliveredTo_simps [simp]:
  "st_bundles (deliveredTo s A b) k = (if k \<in> A then Some b else st_bundles s k)"
  "st_next (deliveredTo s A b) = st_next s"
  "st_subscribers (deliveredTo s A b) = st_subscribers s"
  "st_chans (deliveredTo s A b) sub = (if \<exists>k \<in> A. sub \<in> set (subsOf s k) then [b] else st_chans s sub)"
  "subsOf (deliveredTo s A b) k = subsOf s k"
  by (simp_all add: deliveredTo_def subsOf_def)

lemma deliveredTo_inv: "store_inv s \<Longrightarrow> store_inv (deliveredTo s A b)"
  unfolding store_inv_def deliveredTo_simps by (simp add: chanCap_def)

lemma deliveredTo_empty [simp]: "deliveredTo s {} b = s"
  by (simp add: deliveredTo_def)

lemma deliveredTo_insert: "deliveredTo (delivered s k b) A b = deliveredTo s (insert k A) b"
  by (rule Store.equality) (auto simp: fun_eq_iff)

text \<open>The loop of a reconcile publishes to exactly the keys that do not have the digest yet.\<close>

lemma publishEach_same:
  assumes "store_inv s"
  shows "publishEach PublishIfChanged s (map (\<lambda>k. (k, b)) ks) =
    Some (deliveredTo s {k \<in> set ks. \<not> isDuplicate s k b} b)"
  using assms
proof (induction ks arbitrary: s)
  case Nil
  then show ?case by simp
next
  case (Cons k ks)
  show ?case
  proof (cases "isDuplicate s k b")
    case True
    then have "{k' \<in> set (k # ks). \<not> isDuplicate s k' b} = {k' \<in> set ks. \<not> isDuplicate s k' b}" by auto
    with True Cons show ?thesis by (simp add: PublishIfChanged_eq)
  next
    case False
    have "isDuplicate (delivered s k b) k' b \<longleftrightarrow> k' = k \<or> isDuplicate s k' b" for k'
      by (auto simp: isDuplicate_def)
    then have "insert k {k' \<in> set ks. \<not> isDuplicate (delivered s k b) k' b} = {k' \<in> set (k # ks). \<not> isDuplicate s k' b}"
      using False by auto
    with False Cons.IH [OF delivered_inv [OF Cons.prems]] Cons.prems show ?thesis
      by (simp add: PublishIfChanged_eq deliveredTo_insert del: set_simps)
  qed
qed

text \<open>
  When a reconcile that starts in world \<open>w\<close> publishes \<open>b\<close> for the engine \<open>k\<close>: the rule set was read, its sources were
  read and compiled without conflict, the status was accepted, and \<open>k\<close> is an engine that uses the set.
\<close>

definition rulesetPublishes :: "'w Kube \<Rightarrow> 'w \<Rightarrow> engineKey \<Rightarrow> Bundle \<Rightarrow> bool" where
  "rulesetPublishes K w k b \<longleftrightarrow>
     (\<exists>req rs w1 sources w2 cb res w3 items w4 e.
        k_GetRuleSet K req w = (Inr rs, w1) \<and> collectSources K rs w1 = (Inr (sources, ''''), w2) \<and>
        Compile sources = Inr cb \<and>
        RuleSet_patchStatusIfChanged K rs (RuleSet_compiled K (k_Now K w2) rs cb) w2 = (Inr res, w3) \<and>
        k_ListEngines K (Some (rs_Namespace rs)) w3 = (Inr items, w4) \<and>
        e \<in> set items \<and> es_RuleSetRef (en_Spec e) = rs_Name rs \<and>
        k = engKey e \<and> b = bundleOf (rs_Name rs) cb (k_Now K w4))"

definition enginePublishes :: "'w Kube \<Rightarrow> EngineReconciler \<Rightarrow> 'w \<Rightarrow> engineKey \<Rightarrow> Bundle \<Rightarrow> bool" where
  "enginePublishes K r w k b \<longleftrightarrow>
     (\<exists>req engine w1 ruleset w2 cb w3 w4 dep w5 res w6.
        k_GetEngine K req w = (Inr engine, w1) \<and>
        k_GetRuleSet K (en_Namespace engine, es_RuleSetRef (en_Spec engine)) w1 = (Inr ruleset, w2) \<and>
        compileRuleSet K (en_Namespace engine) ruleset w2 = (Inr cb, w3) \<and>
        applyOwnedObjects K r engine cb w3 = (Inr (), w4) \<and>
        k_GetDeployment K (en_Namespace engine, DeploymentName engine) w4 = (Inr dep, w5) \<and>
        patchEngineStatusIfChanged K engine (rolloutStatus K (k_Now K w5) engine cb (dp_ReadyReplicas dep)) w5 = (Inr res, w6) \<and>
        k = engKey engine \<and> b = bundleOf (rs_Name ruleset) cb (k_Now K w6))"

definition publishes :: "'w Kube \<Rightarrow> EngineReconciler \<Rightarrow> 'w \<Rightarrow> engineKey \<Rightarrow> Bundle \<Rightarrow> bool" where
  "publishes K r w k b \<longleftrightarrow> rulesetPublishes K w k b \<or> enginePublishes K r w k b"

text \<open>A published text is the compilation of a list of sources without conflicts, and carries its own digest.\<close>

lemma compileRuleSet_Inr: "compileRuleSet K ns rs w = (Inr cb, w') \<Longrightarrow> \<exists>sources. Compile sources = Inr cb"
  by (auto simp: compileRuleSet_def split: prod.splits sum.splits)

lemma publishes_compiled:
  assumes "publishes K r w k b"
  shows "\<exists>sources cb. Compile sources = Inr cb \<and> b_Compiled b = concat (map writeSource sources) \<and>
    b_SHA256 b = sha256hex (b_Compiled b)"
proof -
  obtain sources cb where "Compile sources = Inr cb" "b_Compiled b = cb_Compiled cb" "b_SHA256 b = cb_SHA256 cb"
    using assms unfolding publishes_def rulesetPublishes_def enginePublishes_def
    by (elim disjE exE conjE) (use compileRuleSet_Inr in \<open>fastforce simp: bundleOf_def\<close>)+
  then show ?thesis by (auto simp: Compile_Inr_iff)
qed

lemma RuleSet_Reconcile_effect:
  assumes inv: "store_inv s" and run: "RuleSet_Reconcile K (Some s) req w = Some (res, s1, w')"
  shows "\<exists>A b. s1 = Some (deliveredTo s A b) \<and> (\<forall>k \<in> A. \<not> isDuplicate s k b \<and> rulesetPublishes K w k b)"
proof (cases "s1 = Some s")
  case True
  then show ?thesis by (intro exI [of _ "{}"]) simp
next
  case False
  then obtain rs w1 sources w2 cb result w3 items w4 where r: "k_GetRuleSet K req w = (Inr rs, w1)"
    "collectSources K rs w1 = (Inr (sources, ''''), w2)" "Compile sources = Inr cb"
    "RuleSet_patchStatusIfChanged K rs (RuleSet_compiled K (k_Now K w2) rs cb) w2 = (Inr result, w3)"
    "k_ListEngines K (Some (rs_Namespace rs)) w3 = (Inr items, w4)"
    "s1 = publishItems (rs_Name rs) cb (k_Now K w4) items s"
    using run by (auto simp: RuleSet_Reconcile_def publishToEngines_def split: prod.splits sum.splits if_splits option.splits)
  let ?b = "bundleOf (rs_Name rs) cb (k_Now K w4)"
  let ?ks = "map engKey (filter (\<lambda>e. es_RuleSetRef (en_Spec e) = rs_Name rs) items)"
  have "s1 = Some (deliveredTo s {k \<in> set ?ks. \<not> isDuplicate s k ?b} ?b)"
    using r(6) publishEach_same [OF inv, of ?b ?ks] by (simp add: publishItems_each o_def)
  moreover have "rulesetPublishes K w k ?b" if k: "k \<in> set ?ks" for k
  proof -
    obtain e where "e \<in> set items" "es_RuleSetRef (en_Spec e) = rs_Name rs" "k = engKey e" using k by auto
    with r(1-5) show ?thesis unfolding rulesetPublishes_def by blast
  qed
  ultimately show ?thesis by blast
qed

lemma applyOwnedObjects_store: "applyOwnedObjects K (r\<lparr>er_Store := st\<rparr>) = applyOwnedObjects K r"
  by (simp add: applyOwnedObjects_def buildDesired_def fun_eq_iff)

lemma Engine_Reconcile_effect:
  assumes inv: "store_inv s" and run: "Engine_Reconcile K (r\<lparr>er_Store := Some s\<rparr>) req w = Some (res, s1, w')"
  shows "\<exists>A b. s1 = Some (deliveredTo s A b) \<and> (\<forall>k \<in> A. \<not> isDuplicate s k b \<and> enginePublishes K r w k b)"
proof (cases "s1 = Some s")
  case True
  then show ?thesis by (intro exI [of _ "{}"]) simp
next
  case False
  then obtain engine w1 ruleset w2 cb w3 w4 dep w5 result w6 where r: "k_GetEngine K req w = (Inr engine, w1)"
    "k_GetRuleSet K (en_Namespace engine, es_RuleSetRef (en_Spec engine)) w1 = (Inr ruleset, w2)"
    "compileRuleSet K (en_Namespace engine) ruleset w2 = (Inr cb, w3)"
    "applyOwnedObjects K r engine cb w3 = (Inr (), w4)"
    "k_GetDeployment K (en_Namespace engine, DeploymentName engine) w4 = (Inr dep, w5)"
    "patchEngineStatusIfChanged K engine (rolloutStatus K (k_Now K w5) engine cb (dp_ReadyReplicas dep)) w5 = (Inr result, w6)"
    "publishBundle (Some s) (en_Namespace engine) (en_Name engine) (rs_Name ruleset) cb (k_Now K w6) = Some s1"
    using run
    by (auto simp: Engine_Reconcile_def reconcileStatus_def applyOwnedObjects_store Let_def
        split: prod.splits sum.splits if_splits option.splits)
  let ?b = "bundleOf (rs_Name ruleset) cb (k_Now K w6)"
  have "s1 = Some (deliveredTo s {k \<in> {engKey engine}. \<not> isDuplicate s k ?b} ?b)"
    using r(7) publishEach_same [OF inv, of ?b "[engKey engine]"]
    by (auto simp: publishBundle_def bundleOf_def engKey_def split: option.splits prod.splits)
  moreover have "enginePublishes K r w (engKey engine) ?b"
    using r(1-6) unfolding enginePublishes_def by blast
  ultimately show ?thesis by blast
qed

subsection \<open>The transition system\<close>

text \<open>
  A running pod: its configuration, the state its bundle handler works on and the stream its \<open>runStream\<close> receives from.
  Three fields only record the past: the state it started with, the bundles it handled since, with the time and the
  outcome of the file write of each, and the messages of the current stream.
\<close>

record 'waf Pod =
  pd_cfg :: Config
  pd_engine :: "'waf EngineState"
  pd_conn :: "subID option"
  pd_start :: "'waf EngineState"
  pd_hist :: "(time \<times> fsOutcome \<times> EBundle) list"
  pd_seen :: "RuleSetBundle list"

definition podKey :: "'waf Pod \<Rightarrow> engineKey" where
  "podKey pd = mkKey (cfg_EngineNamespace (pd_cfg pd)) (cfg_EngineName (pd_cfg pd))"

text \<open>
  The whole system. \<open>sy_streams\<close> are the handlers of \<open>Subscribe\<close> that have not returned, by their subscription; \<open>sy_wire\<close>
  holds what \<open>Send\<close> accepted and \<open>Recv\<close> has not returned. \<open>sy_log\<close> records the bundles that replaced the stored one, in
  order, and \<open>sy_past\<close> the worlds in which reconciles started.
\<close>

record ('w, 'waf) System =
  sy_world :: 'w
  sy_store :: Store
  sy_streams :: "subID \<rightharpoonup> engineKey"
  sy_wire :: "subID \<Rightarrow> RuleSetBundle list"
  sy_pods :: "nat \<rightharpoonup> 'waf Pod"
  sy_log :: "engineKey \<Rightarrow> Bundle list"
  sy_past :: "'w set"

text \<open>The parts of the program that stay as they are.\<close>

record ('w, 'key, 'pub, 'waf) Program =
  pg_Kube :: "'w Kube"
  pg_Reconciler :: EngineReconciler
  pg_Server :: "('key, 'pub) Server"
  pg_NewWAF :: "WAFConfig \<Rightarrow> 'waf result"

definition initSystem :: "'w \<Rightarrow> ('w, 'waf) System" where
  "initSystem w =
     \<lparr>sy_world = w, sy_store = NewStore, sy_streams = Map.empty, sy_wire = (\<lambda>_. []), sy_pods = Map.empty,
      sy_log = (\<lambda>_. []), sy_past = {}\<rparr>"

text \<open>A pod whose \<open>Run\<close> reached its select; the files of its writable volume may survive a restart.\<close>

definition startPod ::
  "(WAFConfig \<Rightarrow> 'waf result) \<Rightarrow> (string \<Rightarrow> string result) \<Rightarrow> (string \<Rightarrow> string option) \<Rightarrow> time \<Rightarrow> Config \<Rightarrow> files
    \<Rightarrow> 'waf Pod result" where
  "startPod newWAF readFile urlParse now cfg fs =
     (case Run_start newWAF readFile urlParse now cfg of
        Inl err \<Rightarrow> Inl err
      | Inr st \<Rightarrow>
          (let e = \<lparr>eg_provider = rs0_provider st, eg_reloadSuccess = 0, eg_reloadFailure = 0,
                    eg_currentRules = rs0_currentRules st, eg_files = fs\<rparr>
           in Inr \<lparr>pd_cfg = cfg, pd_engine = e, pd_conn = None, pd_start = e, pd_hist = [], pd_seen = []\<rparr>))"

text \<open>One round of the receive loop of \<open>runStream\<close>: \<open>onBundle\<close> on the message.\<close>

definition onMessage ::
  "(WAFConfig \<Rightarrow> 'waf result) \<Rightarrow> time \<Rightarrow> fsOutcome \<Rightarrow> RuleSetBundle \<Rightarrow> 'waf Pod \<Rightarrow> 'waf Pod" where
  "onMessage newWAF now oc m pd =
     pd\<lparr>pd_engine := newBundleHandler newWAF (cfg_BundleCachePath (pd_cfg pd)) now oc (ofPB m) (pd_engine pd),
        pd_hist := pd_hist pd @ [(now, oc, ofPB m)], pd_seen := pd_seen pd @ [m]\<rparr>"

definition logChanges :: "Store \<Rightarrow> Store \<Rightarrow> (engineKey \<Rightarrow> Bundle list) \<Rightarrow> engineKey \<Rightarrow> Bundle list" where
  "logChanges s s' log k = (if Get s' k = Get s k then log k else (case Get s' k of None \<Rightarrow> log k | Some b \<Rightarrow> log k @ [b]))"

text \<open>
  The deliveries: the handler takes the waiting bundle and sends it, and the engine receives a message and handles it.
\<close>

inductive deliver_step :: "('w, 'key, 'pub, 'waf) Program \<Rightarrow> ('w, 'waf) System \<Rightarrow> ('w, 'waf) System \<Rightarrow> bool" for P where
  send: "sy_streams y sub = Some k \<Longrightarrow>
    Subscribe_loop [TakeBundle None] (sy_store y) sub [] = (StreamOpen, s, [m]) \<Longrightarrow>
    deliver_step P y (y\<lparr>sy_store := s, sy_wire := (sy_wire y)(sub := sy_wire y sub @ [m])\<rparr>)"
| receive: "sy_pods y p = Some pd \<Longrightarrow> pd_conn pd = Some sub \<Longrightarrow> sy_wire y sub = m # ms \<Longrightarrow>
    deliver_step P y (y\<lparr>sy_wire := (sy_wire y)(sub := ms),
      sy_pods := (sy_pods y)(p \<mapsto> onMessage (pg_NewWAF P) now oc m pd)\<rparr>)"

text \<open>
  All steps: besides the deliveries, others write to the cluster, a reconcile runs, a pod starts or stops, a pod that has
  an operator configured opens a stream, as does any other client the service admits, a handler returns because its
  context ended or its send failed, a pod loses its stream, and the operator restarts, which loses the store and all
  streams.
\<close>

inductive sys_step :: "('w, 'key, 'pub, 'waf) Program \<Rightarrow> ('w, 'waf) System \<Rightarrow> ('w, 'waf) System \<Rightarrow> bool" for P where
  deliver: "deliver_step P y y' \<Longrightarrow> sys_step P y y'"
| cluster: "sys_step P y (y\<lparr>sy_world := w\<rparr>)"
| ruleset: "RuleSet_Reconcile (pg_Kube P) (Some (sy_store y)) req (sy_world y) = Some (res, Some s, w) \<Longrightarrow>
    sys_step P y (y\<lparr>sy_world := w, sy_store := s, sy_log := logChanges (sy_store y) s (sy_log y),
      sy_past := insert (sy_world y) (sy_past y)\<rparr>)"
| engine: "Engine_Reconcile (pg_Kube P) ((pg_Reconciler P)\<lparr>er_Store := Some (sy_store y)\<rparr>) req (sy_world y) =
      Some (res, Some s, w) \<Longrightarrow>
    sys_step P y (y\<lparr>sy_world := w, sy_store := s, sy_log := logChanges (sy_store y) s (sy_log y),
      sy_past := insert (sy_world y) (sy_past y)\<rparr>)"
| start: "startPod (pg_NewWAF P) readFile urlParse now cfg fs = Inr pd \<Longrightarrow>
    sys_step P y (y\<lparr>sy_pods := (sy_pods y)(p \<mapsto> pd)\<rparr>)"
| stop: "sys_step P y (y\<lparr>sy_pods := (sy_pods y)(p := None)\<rparr>)"
| connect: "sy_pods y p = Some pd \<Longrightarrow> pd_conn pd = None \<Longrightarrow> cfg_OperatorAddr (pd_cfg pd) \<noteq> '''' \<Longrightarrow>
    rpcSubscribe (pg_Server P) peer (ek_ns (podKey pd)) (ek_name (podKey pd)) (sy_store y) [] = Inr (StreamOpen, s, []) \<Longrightarrow>
    sys_step P y (y\<lparr>sy_store := s, sy_streams := (sy_streams y)(st_next (sy_store y) \<mapsto> podKey pd),
      sy_pods := (sy_pods y)(p \<mapsto> pd\<lparr>pd_conn := Some (st_next (sy_store y)), pd_seen := []\<rparr>)\<rparr>)"
| foreign: "rpcSubscribe (pg_Server P) peer ns name (sy_store y) [] = Inr (StreamOpen, s, []) \<Longrightarrow>
    sys_step P y (y\<lparr>sy_store := s, sy_streams := (sy_streams y)(st_next (sy_store y) \<mapsto> mkKey ns name)\<rparr>)"
| returned: "sy_streams y sub = Some k \<Longrightarrow> Subscribe_loop [ev] (sy_store y) sub [] = (out, s, []) \<Longrightarrow>
    ev = CtxDone \<or> (\<exists>err. ev = TakeBundle (Some err)) \<Longrightarrow> out \<noteq> StreamOpen \<Longrightarrow>
    sys_step P y (y\<lparr>sy_store := unsub s k sub, sy_streams := (sy_streams y)(sub := None)\<rparr>)"
| lost: "sy_pods y p = Some pd \<Longrightarrow> sys_step P y (y\<lparr>sy_pods := (sy_pods y)(p \<mapsto> pd\<lparr>pd_conn := None\<rparr>)\<rparr>)"
| restart: "sys_step P y (y\<lparr>sy_store := NewStore, sy_streams := Map.empty, sy_wire := (\<lambda>_. []),
      sy_pods := map_option (\<lambda>pd. pd\<lparr>pd_conn := None\<rparr>) \<circ> sy_pods y\<rparr>)"

inductive sys_reach :: "('w, 'key, 'pub, 'waf) Program \<Rightarrow> ('w, 'waf) System \<Rightarrow> bool" for P where
  init: "sys_reach P (initSystem w)"
| step: "sys_reach P y \<Longrightarrow> sys_step P y y' \<Longrightarrow> sys_reach P y'"

inductive_cases deliver_stepE: "deliver_step P y y'"

subsection \<open>Lists that follow a log\<close>

text \<open>\<open>xs\<close> takes its elements from \<open>L\<close>, at positions that never decrease.\<close>

definition in_order :: "'a list \<Rightarrow> 'a list \<Rightarrow> bool" where
  "in_order L xs \<longleftrightarrow> (\<exists>pos. sorted pos \<and> (\<forall>i \<in> set pos. i < length L) \<and> xs = map ((!) L) pos)"

lemma in_order_Nil [simp]: "in_order L []"
  by (simp add: in_order_def)

lemma in_order_prefix: "in_order L (xs @ ys) \<Longrightarrow> in_order L xs"
  by (auto simp: in_order_def sorted_append append_eq_map_conv)

lemma in_order_grow: "in_order L xs \<Longrightarrow> in_order (L @ L') xs"
  unfolding in_order_def
  by (elim ex_forward conjE) (auto simp: nth_append)

lemma in_order_last:
  assumes "in_order L xs" and "L \<noteq> []"
  shows "in_order L (xs @ [last L])"
proof -
  from assms(1) obtain pos where "sorted pos" "\<forall>i \<in> set pos. i < length L" "xs = map ((!) L) pos"
    by (auto simp: in_order_def)
  with assms(2) show ?thesis
    unfolding in_order_def by (intro exI [of _ "pos @ [length L - 1]"]) (auto simp: sorted_append last_conv_nth)
qed

lemma in_order_subset: "in_order L xs \<Longrightarrow> set xs \<subseteq> set L"
  by (auto simp: in_order_def)

subsection \<open>The invariant\<close>

text \<open>What a stream still has to bring to its engine.\<close>

definition waiting :: "('w, 'waf) System \<Rightarrow> subID \<Rightarrow> RuleSetBundle list" where
  "waiting y sub =
     sy_wire y sub @ (if sy_streams y sub = None then [] else map toPB (st_chans (sy_store y) sub))"

definition pending :: "('w, 'waf) System \<Rightarrow> 'waf Pod \<Rightarrow> RuleSetBundle list" where
  "pending y pd = (case pd_conn pd of None \<Rightarrow> [] | Some sub \<Rightarrow> waiting y sub)"

definition latest :: "Bundle option \<Rightarrow> RuleSetBundle list \<Rightarrow> bool" where
  "latest cur ms \<longleftrightarrow> (case cur of None \<Rightarrow> ms = [] | Some b \<Rightarrow> ms \<noteq> [] \<and> last ms = toPB b)"

abbreviation handled :: "'waf Pod \<Rightarrow> EBundle list" where
  "handled pd \<equiv> map (snd \<circ> snd) (pd_hist pd)"

abbreviation logged :: "('w, 'waf) System \<Rightarrow> engineKey \<Rightarrow> EBundle list" where
  "logged y k \<equiv> map (ofPB \<circ> toPB) (sy_log y k)"

text \<open>The part of a pod's history that does not depend on the rest of the system.\<close>

definition pod_past :: "('w, 'key, 'pub, 'waf) Program \<Rightarrow> 'waf Pod \<Rightarrow> bool" where
  "pod_past P pd \<longleftrightarrow>
     (\<exists>readFile urlParse now fs pd0. startPod (pg_NewWAF P) readFile urlParse now (pd_cfg pd) fs = Inr pd0 \<and>
        pd_start pd = pd_start pd0) \<and>
     pd_engine pd = fold (handlerStep (pg_NewWAF P) (cfg_BundleCachePath (pd_cfg pd))) (pd_hist pd) (pd_start pd) \<and>
     (\<exists>old. handled pd = old @ map ofPB (pd_seen pd))"

text \<open>
  The flow to a pod: the bundles it handled and those still under way follow the log of its engine, and over an open
  stream the last of them is the stored bundle.
\<close>

definition pod_flow :: "('w, 'waf) System \<Rightarrow> 'waf Pod \<Rightarrow> bool" where
  "pod_flow y pd \<longleftrightarrow>
     in_order (logged y (podKey pd)) (handled pd @ map ofPB (pending y pd)) \<and>
     (\<forall>sub. pd_conn pd = Some sub \<longrightarrow> sub < st_next (sy_store y) \<and>
        (\<forall>k. sy_streams y sub = Some k \<longrightarrow> k = podKey pd \<and> latest (Get (sy_store y) k) (pd_seen pd @ waiting y sub)))"

definition streams_inv :: "('w, 'waf) System \<Rightarrow> bool" where
  "streams_inv y \<longleftrightarrow>
     store_inv (sy_store y) \<and> (\<forall>k sub. sy_streams y sub = Some k \<longleftrightarrow> sub \<in> set (subsOf (sy_store y) k)) \<and>
     (\<forall>sub \<ge> st_next (sy_store y). sy_wire y sub = []) \<and>
     (\<forall>p q pd qd sub. sy_pods y p = Some pd \<longrightarrow> sy_pods y q = Some qd \<longrightarrow>
        pd_conn pd = Some sub \<longrightarrow> pd_conn qd = Some sub \<longrightarrow> p = q)"

definition log_inv :: "('w, 'key, 'pub, 'waf) Program \<Rightarrow> ('w, 'waf) System \<Rightarrow> bool" where
  "log_inv P y \<longleftrightarrow>
     (\<forall>k b. Get (sy_store y) k = Some b \<longrightarrow> sy_log y k \<noteq> [] \<and> last (sy_log y k) = b) \<and>
     (\<forall>k. \<forall>b \<in> set (sy_log y k). \<exists>w \<in> sy_past y. publishes (pg_Kube P) (pg_Reconciler P) w k b)"

definition sys_inv :: "('w, 'key, 'pub, 'waf) Program \<Rightarrow> ('w, 'waf) System \<Rightarrow> bool" where
  "sys_inv P y \<longleftrightarrow> streams_inv y \<and> log_inv P y \<and> (\<forall>p pd. sy_pods y p = Some pd \<longrightarrow> pod_past P pd \<and> pod_flow y pd)"

lemma streams_invD:
  assumes "streams_inv y"
  shows "store_inv (sy_store y)" "sy_streams y sub = Some k \<longleftrightarrow> sub \<in> set (subsOf (sy_store y) k)"
    "st_next (sy_store y) \<le> sub \<Longrightarrow> sy_wire y sub = []" "st_next (sy_store y) \<le> sub \<Longrightarrow> sy_streams y sub = None"
    "sy_pods y p = Some pd \<Longrightarrow> sy_pods y q = Some qd \<Longrightarrow> pd_conn pd = Some sub \<Longrightarrow> pd_conn qd = Some sub \<Longrightarrow> p = q"
proof -
  show s: "store_inv (sy_store y)" and k: "sy_streams y sub = Some k \<longleftrightarrow> sub \<in> set (subsOf (sy_store y) k)" for sub k
    using assms by (simp_all add: streams_inv_def)
  show "sy_wire y sub = []" if "st_next (sy_store y) \<le> sub"
    using assms that by (simp add: streams_inv_def)
  show "sy_streams y sub = None" if "st_next (sy_store y) \<le> sub"
    using that k [of sub] store_invD(3) [OF s, of sub] by (cases "sy_streams y sub") auto
  show "p = q" if "sy_pods y p = Some pd" "sy_pods y q = Some qd" "pd_conn pd = Some sub" "pd_conn qd = Some sub"
    using assms that unfolding streams_inv_def by blast
qed

text \<open>A step that leaves a pod's stream, the log and the bundle of its engine alone leaves its flow alone.\<close>

lemma pod_flow_cong:
  assumes "pod_flow y pd" and "st_next (sy_store y) \<le> st_next (sy_store y')"
    and "sy_log y' (podKey pd) = sy_log y (podKey pd)" and "Get (sy_store y') (podKey pd) = Get (sy_store y) (podKey pd)"
    and "\<And>sub. pd_conn pd = Some sub \<Longrightarrow> waiting y' sub = waiting y sub \<and> sy_streams y' sub = sy_streams y sub"
  shows "pod_flow y' pd"
proof -
  have "pending y' pd = pending y pd"
    using assms(5) by (simp add: pending_def split: option.splits)
  moreover have "sub < st_next (sy_store y') \<and> (\<forall>k. sy_streams y' sub = Some k \<longrightarrow>
      k = podKey pd \<and> latest (Get (sy_store y') k) (pd_seen pd @ waiting y' sub))" if "pd_conn pd = Some sub" for sub
    using assms(1,2,4) assms(5) [OF that] that by (auto simp: pod_flow_def)
  ultimately show ?thesis
    using assms(1,3) by (simp add: pod_flow_def)
qed

lemma flow_pods [simp]:
  "waiting (y\<lparr>sy_pods := ps\<rparr>) = waiting y" "pending (y\<lparr>sy_pods := ps\<rparr>) = pending y"
  "pod_flow (y\<lparr>sy_pods := ps\<rparr>) = pod_flow y"
  "waiting (y\<lparr>sy_world := w\<rparr>) = waiting y" "pending (y\<lparr>sy_world := w\<rparr>) = pending y"
  "pod_flow (y\<lparr>sy_world := w\<rparr>) = pod_flow y"
proof -
  show w: "waiting (y\<lparr>sy_pods := ps\<rparr>) = waiting y" "waiting (y\<lparr>sy_world := w\<rparr>) = waiting y"
    by (simp_all add: waiting_def fun_eq_iff)
  show p: "pending (y\<lparr>sy_pods := ps\<rparr>) = pending y" "pending (y\<lparr>sy_world := w\<rparr>) = pending y"
    by (simp_all add: pending_def fun_eq_iff w split: option.split)
  show "pod_flow (y\<lparr>sy_pods := ps\<rparr>) = pod_flow y" "pod_flow (y\<lparr>sy_world := w\<rparr>) = pod_flow y"
    by (simp_all add: pod_flow_def fun_eq_iff w p)
qed

text \<open>A pod without a stream keeps its flow.\<close>

lemma pod_flow_closed: "pod_flow y pd \<Longrightarrow> sy_log y' (podKey pd) = sy_log y (podKey pd) \<Longrightarrow> pod_flow y' (pd\<lparr>pd_conn := None\<rparr>)"
  by (auto simp: pod_flow_def pending_def podKey_def dest: in_order_prefix)

subsection \<open>The steps keep the invariant\<close>

lemma took_bundle:
  assumes "store_inv s" and "Subscribe_loop [TakeBundle None] s sub [] = (StreamOpen, s', [m])"
  obtains b where "st_chans s sub = [b]" "m = toPB b" "s' = s\<lparr>st_chans := (st_chans s)(sub := [])\<rparr>"
proof -
  from assms(2) obtain b ch where b: "st_chans s sub = b # ch" "m = toPB b" "s' = s\<lparr>st_chans := (st_chans s)(sub := ch)\<rparr>"
    by (auto simp: recvBundle_def chanRecv_def split: option.splits list.splits)
  with store_invD(1) [OF assms(1), of sub] have "ch = []" by (simp add: chanCap_def)
  with b that show thesis by blast
qed

lemma sys_inv_send:
  assumes inv: "sys_inv P y" and k: "sy_streams y sub = Some k"
    and t: "Subscribe_loop [TakeBundle None] (sy_store y) sub [] = (StreamOpen, s, [m])"
  shows "sys_inv P (y\<lparr>sy_store := s, sy_wire := (sy_wire y)(sub := sy_wire y sub @ [m])\<rparr>)" (is "sys_inv P ?y'")
proof -
  have st: "streams_inv y" using inv by (simp add: sys_inv_def)
  note d = streams_invD [OF st]
  obtain b where b: "st_chans (sy_store y) sub = [b]" "m = toPB b"
    "s = (sy_store y)\<lparr>st_chans := (st_chans (sy_store y))(sub := [])\<rparr>"
    using d(1) t by (rule took_bundle)
  have s [simp]: "subsOf s = subsOf (sy_store y)" "st_next s = st_next (sy_store y)" "Get s = Get (sy_store y)"
    by (simp_all add: b subsOf_def Get_def fun_eq_iff)
  have "store_inv s"
    by (rule recvBundle_inv [OF d(1), of sub b]) (simp add: recvBundle_def chanRecv_def b)
  moreover have "sub < st_next (sy_store y)" using k d(4) [of sub] by (metis leI option.distinct(1))
  ultimately have "streams_inv ?y'"
    using st by (auto simp: streams_inv_def)
  moreover have "waiting ?y' sub' = waiting y sub'" for sub'
    using k by (simp add: waiting_def b)
  then have "pod_flow ?y' pd" if "pod_flow y pd" for pd
    using that by (auto intro!: pod_flow_cong [of y pd ?y'])
  moreover have "log_inv P ?y'" using inv by (simp add: sys_inv_def log_inv_def)
  ultimately show ?thesis using inv by (simp add: sys_inv_def)
qed

lemma sys_inv_receive:
  assumes inv: "sys_inv P y" and p: "sy_pods y p = Some pd" "pd_conn pd = Some sub" and m: "sy_wire y sub = m # ms"
  shows "sys_inv P (y\<lparr>sy_wire := (sy_wire y)(sub := ms), sy_pods := (sy_pods y)(p \<mapsto> onMessage (pg_NewWAF P) now oc m pd)\<rparr>)"
    (is "sys_inv P ?y'")
proof -
  have st: "streams_inv y" and pd: "pod_past P pd" "pod_flow y pd"
    using inv p by (simp_all add: sys_inv_def)
  let ?pd = "onMessage (pg_NewWAF P) now oc m pd"
  have w: "waiting y sub = m # waiting ?y' sub" "\<And>sub'. sub' \<noteq> sub \<Longrightarrow> waiting ?y' sub' = waiting y sub'"
    using m by (simp_all add: waiting_def)
  have conn [simp]: "pd_conn ?pd = Some sub" "podKey ?pd = podKey pd" "pd_cfg ?pd = pd_cfg pd" "pd_start ?pd = pd_start pd"
    by (simp_all add: onMessage_def p podKey_def)
  have "pod_past P ?pd"
    using pd(1) unfolding pod_past_def conn by (auto simp: onMessage_def handlerStep_def)
  moreover have "pod_flow ?y' ?pd"
    using pd(2) p(2) w(1) unfolding pod_flow_def conn by (auto simp: onMessage_def pending_def)
  moreover have "pod_flow ?y' qd" if "sy_pods y q = Some qd" "q \<noteq> p" for q qd
  proof (rule pod_flow_cong [of y qd])
    show "pod_flow y qd" using inv that by (simp add: sys_inv_def)
    show "waiting ?y' sub' = waiting y sub' \<and> sy_streams ?y' sub' = sy_streams y sub'" if "pd_conn qd = Some sub'" for sub'
      using w(2) [of sub'] streams_invD(5) [OF st p(1) \<open>sy_pods y q = Some qd\<close> p(2)] that \<open>q \<noteq> p\<close> by auto
  qed simp_all
  moreover have "streams_inv ?y'"
    using st p m by (auto simp: streams_inv_def onMessage_def split: if_splits)
  moreover have "log_inv P ?y'" using inv by (simp add: sys_inv_def log_inv_def)
  ultimately show ?thesis using inv by (auto simp: sys_inv_def)
qed

lemma logChanges_deliveredTo:
  assumes "\<And>k. k \<in> A \<Longrightarrow> \<not> isDuplicate s k b"
  shows "logChanges s (deliveredTo s A b) log k = (if k \<in> A then log k @ [b] else log k)"
  using assms [of k] by (auto simp: logChanges_def Get_def isDuplicate_def dest: sym)

lemma pod_flow_published:
  assumes st: "streams_inv y" and flow: "pod_flow y pd"
    and y': "sy_store y' = deliveredTo (sy_store y) A b" "sy_streams y' = sy_streams y" "sy_wire y' = sy_wire y"
    and log: "sy_log y' (podKey pd) = (if podKey pd \<in> A then sy_log y (podKey pd) @ [b] else sy_log y (podKey pd))"
  shows "pod_flow y' pd"
proof (cases "podKey pd \<in> A")
  case False
  have "waiting y' sub = waiting y sub" if "pd_conn pd = Some sub" for sub
  proof (cases "sy_streams y sub")
    case (Some k)
    then have "k = podKey pd" using flow that by (simp add: pod_flow_def)
    with Some have "\<not> (\<exists>k \<in> A. sub \<in> set (subsOf (sy_store y) k))"
      using False streams_invD(1,2) [OF st] store_invD(4) by metis
    then show ?thesis by (simp add: waiting_def y')
  qed (simp add: waiting_def y')
  then show ?thesis
    using False log by (intro pod_flow_cong [OF flow]) (simp_all add: y' Get_def)
next
  case True
  let ?e = "ofPB (toPB b)"
  have l: "logged y' (podKey pd) = logged y (podKey pd) @ [?e]" using True log by simp
  have w: "waiting y' sub = sy_wire y sub @ [toPB b]" if "sy_streams y sub = Some (podKey pd)" for sub
  proof -
    have "sub \<in> set (subsOf (sy_store y) (podKey pd))" using that streams_invD(2) [OF st] by simp
    with True that show ?thesis by (auto simp: waiting_def y')
  qed
  have order: "in_order (logged y (podKey pd)) (handled pd @ map ofPB (pending y pd))"
    using flow by (simp add: pod_flow_def)
  have "in_order (logged y' (podKey pd)) (handled pd @ map ofPB (pending y' pd))"
  proof (cases "\<exists>sub. pd_conn pd = Some sub \<and> sy_streams y sub = Some (podKey pd)")
    case True
    then obtain sub where sub: "pd_conn pd = Some sub" "sy_streams y sub = Some (podKey pd)" by blast
    have "in_order (logged y (podKey pd)) (handled pd @ map ofPB (sy_wire y sub))"
      using order in_order_prefix [of _ "handled pd @ map ofPB (sy_wire y sub)"] sub by (simp add: pending_def waiting_def)
    from in_order_last [OF in_order_grow [OF this, of "[?e]"]] show ?thesis
      unfolding l by (simp add: pending_def sub w)
  next
    case False
    then have "pending y' pd = pending y pd"
      using flow by (auto simp: pending_def waiting_def pod_flow_def y' split: option.splits)
    with in_order_grow [OF order] show ?thesis unfolding l by simp
  qed
  moreover have "latest (Get (sy_store y') k) (pd_seen pd @ waiting y' sub)"
    if "pd_conn pd = Some sub" "sy_streams y sub = Some k" for sub k
  proof -
    have "k = podKey pd" using flow that by (simp add: pod_flow_def)
    with True that w show ?thesis by (simp add: latest_def Get_def y')
  qed
  ultimately show ?thesis using flow by (simp add: pod_flow_def y')
qed

lemma sys_inv_publish:
  assumes inv: "sys_inv P y"
    and pub: "\<And>k. k \<in> A \<Longrightarrow> \<not> isDuplicate (sy_store y) k b \<and> publishes (pg_Kube P) (pg_Reconciler P) (sy_world y) k b"
    and s: "s = deliveredTo (sy_store y) A b"
  shows "sys_inv P (y\<lparr>sy_world := w, sy_store := s, sy_log := logChanges (sy_store y) s (sy_log y),
    sy_past := insert (sy_world y) (sy_past y)\<rparr>)" (is "sys_inv P ?y'")
proof -
  have st: "streams_inv y" using inv by (simp add: sys_inv_def)
  have log: "sy_log ?y' k = (if k \<in> A then sy_log y k @ [b] else sy_log y k)" for k
    using pub by (simp add: s logChanges_deliveredTo)
  have "streams_inv ?y'"
    using st deliveredTo_inv [OF streams_invD(1) [OF st]] by (simp add: streams_inv_def s)
  moreover have "log_inv P ?y'"
    using inv pub unfolding log_inv_def sys_inv_def log by (auto simp: s Get_def)
  moreover have "pod_flow ?y' pd" if "pod_flow y pd" for pd
    by (rule pod_flow_published [OF st that _ _ _ log]) (simp_all add: s)
  ultimately show ?thesis using inv by (simp add: sys_inv_def)
qed

lemma opened_stream:
  assumes "rpcSubscribe srv peer ns name s [] = Inr (StreamOpen, s', [])"
  shows "s' = subscribed s (mkKey ns name)"
  using assms
  by (auto simp: rpcSubscribe_def subscribeClientCertInterceptor_def Server_Subscribe_def Store_Subscribe_eq
      split: sum.splits if_splits)

lemma Get_subscribed [simp]: "Get (subscribed s k) = Get s" "Get (unsub s k sub) = Get s"
  by (simp_all add: Get_def fun_eq_iff)

text \<open>A stream that is opened: nothing changes for the pods that do not own it.\<close>

lemma sys_inv_foreign:
  assumes inv: "sys_inv P y"
  shows "sys_inv P (y\<lparr>sy_store := subscribed (sy_store y) k, sy_streams := (sy_streams y)(st_next (sy_store y) \<mapsto> k)\<rparr>)"
    (is "sys_inv P ?y'")
proof -
  have st: "streams_inv y" using inv by (simp add: sys_inv_def)
  have new: "k' = k \<Longrightarrow> False" if "st_next (sy_store y) \<in> set (subsOf (sy_store y) k')" for k'
    using that store_invD(3) [OF streams_invD(1) [OF st]] by blast
  have "streams_inv ?y'"
    using st subscribed_inv [OF streams_invD(1) [OF st], of k] store_invD(3) [OF streams_invD(1) [OF st]]
    by (auto simp: streams_inv_def)
  moreover have "log_inv P ?y'" using inv by (simp add: sys_inv_def log_inv_def)
  moreover have "pod_flow ?y' pd" if "pod_flow y pd" for pd
    using that by (intro pod_flow_cong [OF that]) (auto simp: pod_flow_def waiting_def)
  ultimately show ?thesis using inv by (simp add: sys_inv_def)
qed

lemma sys_inv_setPod:
  assumes inv: "sys_inv P y" and pd: "pod_past P pd" "pod_flow y pd"
    and own: "\<And>q qd. sy_pods y q = Some qd \<Longrightarrow> pd_conn pd \<noteq> None \<Longrightarrow> pd_conn qd \<noteq> pd_conn pd"
  shows "sys_inv P (y\<lparr>sy_pods := (sy_pods y)(p \<mapsto> pd)\<rparr>)" (is "sys_inv P ?y'")
proof -
  have "streams_inv ?y'"
    using inv own unfolding sys_inv_def streams_inv_def by (auto split: if_splits)
  moreover have "log_inv P ?y'" using inv by (simp add: sys_inv_def log_inv_def)
  ultimately show ?thesis using inv pd by (simp add: sys_inv_def)
qed

lemma sys_inv_connect:
  assumes inv: "sys_inv P y" and p: "sy_pods y p = Some pd" "pd_conn pd = None"
  shows "sys_inv P (y\<lparr>sy_store := subscribed (sy_store y) (podKey pd),
    sy_streams := (sy_streams y)(st_next (sy_store y) \<mapsto> podKey pd),
    sy_pods := (sy_pods y)(p \<mapsto> pd\<lparr>pd_conn := Some (st_next (sy_store y)), pd_seen := []\<rparr>)\<rparr>)"
proof -
  let ?sub = "st_next (sy_store y)"
  let ?y = "y\<lparr>sy_store := subscribed (sy_store y) (podKey pd), sy_streams := (sy_streams y)(?sub \<mapsto> podKey pd)\<rparr>"
  let ?pd = "pd\<lparr>pd_conn := Some ?sub, pd_seen := []\<rparr>"
  have st: "streams_inv y" and log: "log_inv P y" and pd: "pod_past P pd" "pod_flow y pd"
    using inv p by (simp_all add: sys_inv_def)
  have w: "waiting ?y ?sub = map toPB (case Get (sy_store y) (podKey pd) of None \<Rightarrow> [] | Some b \<Rightarrow> [b])"
    using streams_invD(3) [OF st, of ?sub] by (simp add: waiting_def Get_def)
  have order: "in_order (logged y (podKey pd)) (handled pd)"
    using pd(2) p(2) by (simp add: pod_flow_def pending_def)
  have "in_order (logged y (podKey pd)) (handled pd @ map ofPB (waiting ?y ?sub))"
  proof (cases "Get (sy_store y) (podKey pd)")
    case (Some b)
    then have "sy_log y (podKey pd) \<noteq> []" "last (sy_log y (podKey pd)) = b" using log by (auto simp: log_inv_def)
    with in_order_last [OF order] show ?thesis unfolding w by (simp add: Some last_map)
  qed (simp add: order w)
  moreover have "latest (Get (sy_store y) (podKey pd)) (waiting ?y ?sub)"
    unfolding w by (simp add: latest_def split: option.splits)
  moreover have "podKey ?pd = podKey pd" by (simp add: podKey_def)
  ultimately have "pod_flow ?y ?pd" by (simp add: pod_flow_def pending_def)
  moreover have "pod_past P ?pd" using pd(1) by (auto simp: pod_past_def)
  moreover have "pd_conn qd \<noteq> Some ?sub" if "sy_pods y q = Some qd" for q qd
    using inv that by (auto simp: sys_inv_def pod_flow_def)
  ultimately have "sys_inv P (?y\<lparr>sy_pods := (sy_pods ?y)(p \<mapsto> ?pd)\<rparr>)"
    using sys_inv_foreign [OF inv, of "podKey pd"] by (intro sys_inv_setPod) auto
  then show ?thesis by simp
qed

lemma sys_inv_returned:
  assumes inv: "sys_inv P y" and k: "sy_streams y sub = Some k"
    and s: "\<exists>ch. length ch \<le> chanCap \<and> s = (sy_store y)\<lparr>st_chans := (st_chans (sy_store y))(sub := ch)\<rparr>"
  shows "sys_inv P (y\<lparr>sy_store := unsub s k sub, sy_streams := (sy_streams y)(sub := None)\<rparr>)" (is "sys_inv P ?y'")
proof -
  have st: "streams_inv y" using inv by (simp add: sys_inv_def)
  have [simp]: "subsOf s = subsOf (sy_store y)" "st_next s = st_next (sy_store y)" "Get s = Get (sy_store y)"
    "sub' \<noteq> sub \<Longrightarrow> st_chans s sub' = st_chans (sy_store y) sub'" "st_subscribers s = st_subscribers (sy_store y)" for sub'
    using s by (auto simp: subsOf_def Get_def fun_eq_iff)
  have "length (st_chans s sub') \<le> chanCap" for sub'
    using s store_invD(1) [OF streams_invD(1) [OF st]] by auto
  then have "store_inv s"
    using streams_invD(1) [OF st] by (simp add: store_inv_def)
  moreover have "sy_streams ?y' sub' = Some k' \<longleftrightarrow> sub' \<in> set (subsOf (unsub s k sub) k')" for sub' k'
    using k streams_invD(2) [OF st, of sub'] store_invD(4) [OF streams_invD(1) [OF st], of sub k k'] by auto
  ultimately have "streams_inv ?y'"
    using st unsub_inv [of s k sub] by (simp add: streams_inv_def)
  moreover have "log_inv P ?y'" using inv by (simp add: sys_inv_def log_inv_def)
  moreover have "pod_flow ?y' pd" if flow: "pod_flow y pd" for pd
  proof (cases "pd_conn pd = Some sub")
    case True
    have "pending y pd = pending ?y' pd @ map toPB (st_chans (sy_store y) sub)"
      using True k by (simp add: pending_def waiting_def)
    with flow True show ?thesis
      using in_order_prefix [of _ "handled pd @ map ofPB (pending ?y' pd)"] by (auto simp: pod_flow_def)
  next
    case False
    then show ?thesis by (intro pod_flow_cong [OF flow]) (auto simp: waiting_def)
  qed
  ultimately show ?thesis using inv by (simp add: sys_inv_def)
qed

lemma sys_inv_init: "sys_inv P (initSystem w)"
  by (simp add: sys_inv_def streams_inv_def log_inv_def initSystem_def store_inv_NewStore)
    (simp add: NewStore_def Get_def subsOf_def)

lemma pod_past_start:
  assumes "startPod (pg_NewWAF P) readFile urlParse now cfg fs = Inr pd"
  shows "pod_past P pd" "pd_conn pd = None" "pd_hist pd = []"
proof -
  show "pd_conn pd = None" and h: "pd_hist pd = []"
    using assms by (auto simp: startPod_def Let_def split: sum.splits)
  have "pd_cfg pd = cfg" "pd_engine pd = pd_start pd" "pd_seen pd = []"
    using assms by (auto simp: startPod_def Let_def split: sum.splits)
  moreover from this have "\<exists>readFile urlParse now fs pd0.
      startPod (pg_NewWAF P) readFile urlParse now (pd_cfg pd) fs = Inr pd0 \<and> pd_start pd = pd_start pd0"
    using assms by blast
  ultimately show "pod_past P pd" by (simp add: pod_past_def h)
qed

lemma sys_inv_restart:
  assumes inv: "sys_inv P y"
  shows "sys_inv P (y\<lparr>sy_store := NewStore, sy_streams := Map.empty, sy_wire := (\<lambda>_. []),
      sy_pods := map_option (\<lambda>pd. pd\<lparr>pd_conn := None\<rparr>) \<circ> sy_pods y\<rparr>)" (is "sys_inv P ?y'")
proof -
  have "pod_past P (pd\<lparr>pd_conn := None\<rparr>) \<and> pod_flow ?y' (pd\<lparr>pd_conn := None\<rparr>)" if "sy_pods y p = Some pd" for p pd
    using inv that pod_flow_closed [of y pd ?y'] by (auto simp: sys_inv_def pod_past_def)
  moreover have "streams_inv ?y'"
    by (auto simp: streams_inv_def store_inv_NewStore) (simp_all add: NewStore_def subsOf_def)
  moreover have "log_inv P ?y'"
    using inv by (auto simp: sys_inv_def log_inv_def) (simp_all add: NewStore_def Get_def)
  ultimately show ?thesis by (auto simp: sys_inv_def)
qed

text \<open>The stores of a handler that returns: the bundle it failed to send is gone.\<close>

lemma returned_store:
  assumes "store_inv s" and "Subscribe_loop [ev] s sub [] = (out, s', [])" and "ev = CtxDone \<or> (\<exists>err. ev = TakeBundle (Some err))"
  shows "\<exists>ch. length ch \<le> chanCap \<and> s' = s\<lparr>st_chans := (st_chans s)(sub := ch)\<rparr>"
proof (cases "recvBundle s sub")
  case None
  with assms have "s' = s" by auto
  with store_invD(1) [OF assms(1), of sub] show ?thesis by (intro exI [of _ "st_chans s sub"]) simp
next
  case (Some bs)
  then obtain b ch where b: "st_chans s sub = b # ch" "snd bs = s\<lparr>st_chans := (st_chans s)(sub := ch)\<rparr>"
    by (auto simp: recvBundle_def chanRecv_def split: option.splits list.splits)
  have "s' = s \<or> s' = snd bs" using assms(2,3) Some by (auto split: prod.splits)
  moreover have "length ch \<le> chanCap" using store_invD(1) [OF assms(1), of sub] b by simp
  ultimately show ?thesis
    using b store_invD(1) [OF assms(1), of sub] by (metis (no_types) Store.surjective Store.update_convs(3) fun_upd_triv)
qed

lemma deliver_step_inv:
  assumes "deliver_step P y y'" and inv: "sys_inv P y"
  shows "sys_inv P y'"
  using assms(1)
proof (cases rule: deliver_step.cases)
  case (send sub k s m)
  with sys_inv_send [OF inv send(2,3)] show ?thesis by simp
next
  case (receive p pd sub m ms now oc)
  with sys_inv_receive [OF inv receive(2-4)] show ?thesis by simp
qed

lemma sys_step_inv:
  assumes "sys_step P y y'" and inv: "sys_inv P y"
  shows "sys_inv P y'"
proof -
  have store: "store_inv (sy_store y)" using inv by (simp add: sys_inv_def streams_inv_def)
  from assms(1) show ?thesis
  proof (cases rule: sys_step.cases)
    case deliver
    then show ?thesis using inv by (rule deliver_step_inv)
  next
    case (cluster w)
    then show ?thesis using inv by (simp add: sys_inv_def streams_inv_def log_inv_def)
  next
    case (ruleset req res s w)
    obtain A b where "s = deliveredTo (sy_store y) A b"
      "\<forall>k \<in> A. \<not> isDuplicate (sy_store y) k b \<and> rulesetPublishes (pg_Kube P) (sy_world y) k b"
      using RuleSet_Reconcile_effect [OF store ruleset(2)] by auto
    with sys_inv_publish [OF inv, of A b s w] ruleset(1) show ?thesis by (simp add: publishes_def)
  next
    case (engine req res s w)
    obtain A b where "s = deliveredTo (sy_store y) A b"
      "\<forall>k \<in> A. \<not> isDuplicate (sy_store y) k b \<and> enginePublishes (pg_Kube P) (pg_Reconciler P) (sy_world y) k b"
      using Engine_Reconcile_effect [OF store engine(2)] by auto
    with sys_inv_publish [OF inv, of A b s w] engine(1) show ?thesis by (simp add: publishes_def)
  next
    case (start readFile urlParse now cfg fs pd p)
    have "pod_flow y pd" using pod_past_start(2,3) [OF start(2)] by (simp add: pod_flow_def pending_def)
    then show ?thesis
      unfolding start(1) by (rule sys_inv_setPod [OF inv pod_past_start(1) [OF start(2)]]) (simp add: pod_past_start(2) [OF start(2)])
  next
    case (stop p)
    then show ?thesis using inv by (auto simp: sys_inv_def streams_inv_def log_inv_def split: if_splits)
  next
    case (connect p pd peer s)
    moreover have "s = subscribed (sy_store y) (podKey pd)" using opened_stream [OF connect(5)] by (simp add: podKey_def)
    ultimately show ?thesis using sys_inv_connect [OF inv] by simp
  next
    case (foreign peer ns name s)
    with sys_inv_foreign [OF inv] opened_stream [OF foreign(2)] show ?thesis by simp
  next
    case (returned sub k ev out s)
    from sys_inv_returned [OF inv returned(2) returned_store [OF store returned(3,4)]] returned(1) show ?thesis by simp
  next
    case (lost p pd)
    have "pod_past P (pd\<lparr>pd_conn := None\<rparr>)" "pod_flow y (pd\<lparr>pd_conn := None\<rparr>)"
      using inv lost(2) pod_flow_closed [of y pd y] by (auto simp: sys_inv_def pod_past_def)
    then show ?thesis unfolding lost(1) by (rule sys_inv_setPod [OF inv]) simp
  next
    case restart
    then show ?thesis using sys_inv_restart [OF inv] by simp
  qed
qed

lemma sys_reach_inv: "sys_reach P y \<Longrightarrow> sys_inv P y"
  by (induction rule: sys_reach.induct) (auto intro: sys_inv_init sys_step_inv)

subsection \<open>What a pod runs\<close>

abbreviation podWAF :: "'waf Pod \<Rightarrow> 'waf option" where
  "podWAF pd \<equiv> Current (eg_provider (pd_engine pd))"

abbreviation podState :: "'waf Pod \<Rightarrow> ProviderState" where
  "podState pd \<equiv> State (eg_provider (pd_engine pd))"

lemma startPod_Inr:
  assumes "startPod newWAF readFile urlParse now cfg fs = Inr pd"
  obtains seclang waf where "readFile (cfg_RuleFilePath cfg) = Inr seclang" "parseText newWAF seclang = Inr waf"
    "ap_waf (eg_provider (pd_start pd)) = Some waf" "ps_SHA256 (ap_state (eg_provider (pd_start pd))) = sha256hex seclang"
  using assms
  by (auto simp: startPod_def Run_start_def loadInitialWAF_def NewAtomicProvider_def sha256Hex_def Let_def
      split: sum.splits option.splits prod.splits if_splits)

lemma ofPB_toPB [simp]:
  "eb_Compiled (ofPB (toPB b)) = b_Compiled b" "eb_SHA256 (ofPB (toPB b)) = b_SHA256 b"
  "eb_RuleSetName (ofPB (toPB b)) = b_RuleSetName b"
  by (simp_all add: ofPB_def toPB_def)

lemma pod_flow_handled: "pod_flow y pd \<Longrightarrow> in_order (logged y (podKey pd)) (handled pd)"
  unfolding pod_flow_def by (rule in_order_prefix [OF conjunct1])

text \<open>Every bundle a pod handled was published for its engine by a reconcile of the run.\<close>

lemma handled_published:
  assumes "sys_inv P y" and "sy_pods y p = Some pd" and "e \<in> set (handled pd)"
  obtains b w where "e = ofPB (toPB b)" "w \<in> sy_past y" "publishes (pg_Kube P) (pg_Reconciler P) w (podKey pd) b"
proof -
  have flow: "pod_flow y pd" and log: "log_inv P y" using assms(1,2) by (simp_all add: sys_inv_def)
  from in_order_subset [OF pod_flow_handled [OF flow]] assms(3) obtain b where
    "b \<in> set (sy_log y (podKey pd))" "e = ofPB (toPB b)" by auto
  moreover from this log obtain w where "w \<in> sy_past y" "publishes (pg_Kube P) (pg_Reconciler P) w (podKey pd) b"
    unfolding log_inv_def by blast
  ultimately show thesis by (intro that)
qed

lemma pod_active:
  assumes "sys_inv P y" and "sy_pods y p = Some pd"
  shows "\<exists>waf seclang. ap_waf (eg_provider (pd_engine pd)) = Some waf \<and> parseText (pg_NewWAF P) seclang = Inr waf \<and>
    ps_SHA256 (ap_state (eg_provider (pd_engine pd))) = sha256hex seclang \<and>
    (ap_waf (eg_provider (pd_start pd)) = Some waf \<and> ps_SHA256 (ap_state (eg_provider (pd_start pd))) = sha256hex seclang \<or>
     (\<exists>w \<in> sy_past y. \<exists>b. publishes (pg_Kube P) (pg_Reconciler P) w (podKey pd) b \<and> b_Compiled b = seclang \<and>
        ps_RuleSetName (ap_state (eg_provider (pd_engine pd))) = b_RuleSetName b))"
proof -
  let ?h = "handlerStep (pg_NewWAF P) (cfg_BundleCachePath (pd_cfg pd))"
  let ?good = "filter (parsable (\<lambda>x. parseText (pg_NewWAF P) (eb_Compiled (snd (snd x))))) (pd_hist pd)"
  have past: "pod_past P pd" using assms by (simp add: sys_inv_def)
  then have eng: "pd_engine pd = fold ?h (pd_hist pd) (pd_start pd)" by (simp add: pod_past_def)
  note run = bundle_handler.reload_run [of "pg_NewWAF P" "cfg_BundleCachePath (pd_cfg pd)" "pd_hist pd" "pd_start pd",
      folded eng]
  show ?thesis
  proof (cases "?good = []")
    case True
    from past obtain readFile urlParse now fs pd0 where
      "startPod (pg_NewWAF P) readFile urlParse now (pd_cfg pd) fs = Inr pd0" "pd_start pd = pd_start pd0"
      by (auto simp: pod_past_def)
    with True run show ?thesis
      by (elim startPod_Inr) auto
  next
    case False
    let ?x = "last ?good"
    from False run obtain waf where w: "parseText (pg_NewWAF P) (eb_Compiled (snd (snd ?x))) = Inr waf"
      "ap_waf (eg_provider (pd_engine pd)) = Some waf"
      "stateTag (ap_state (eg_provider (pd_engine pd))) = bundleTag (snd (snd ?x))"
      by (cases ?good) (auto split: if_splits)
    have "?x \<in> set (pd_hist pd)" using last_in_set [OF False] by simp
    then have "snd (snd ?x) \<in> set (handled pd)" by force
    then obtain b w' where b: "snd (snd ?x) = ofPB (toPB b)" "w' \<in> sy_past y"
      "publishes (pg_Kube P) (pg_Reconciler P) w' (podKey pd) b"
      using handled_published [OF assms] by blast
    moreover have "b_SHA256 b = sha256hex (b_Compiled b)" using publishes_compiled [OF b(3)] by blast
    ultimately show ?thesis
      using w by (intro exI [of _ waf] exI [of _ "b_Compiled b"]) auto
  qed
qed

subsection \<open>Deliveries come to rest\<close>

definition backlog :: "('w, 'waf) System \<Rightarrow> nat" where
  "backlog y = (\<Sum>sub < st_next (sy_store y). 2 * length (st_chans (sy_store y) sub) + length (sy_wire y sub))"

lemma sum_less_at:
  fixes f g :: "nat \<Rightarrow> nat"
  assumes "i < n" and "f i < g i" and "\<And>j. j \<noteq> i \<Longrightarrow> f j = g j"
  shows "(\<Sum>j < n. f j) < (\<Sum>j < n. g j)"
proof (rule sum_strict_mono_ex1)
  show "\<forall>j \<in> {..<n}. f j \<le> g j" using assms(2,3) by (metis less_imp_le order_refl)
  show "\<exists>j \<in> {..<n}. f j < g j" using assms(1,2) by auto
qed simp

lemma deliver_backlog:
  assumes "deliver_step P y y'" and inv: "sys_inv P y"
  shows "backlog y' < backlog y"
  using assms(1)
proof (cases rule: deliver_step.cases)
  case (send sub k s m)
  have st: "streams_inv y" using inv by (simp add: sys_inv_def)
  obtain b where b: "st_chans (sy_store y) sub = [b]" "s = (sy_store y)\<lparr>st_chans := (st_chans (sy_store y))(sub := [])\<rparr>"
    using streams_invD(1) [OF st] send(3) by (rule took_bundle)
  have "sub < st_next (sy_store y)" using send(2) streams_invD(4) [OF st, of sub] by (metis leI option.distinct(1))
  then show ?thesis
    unfolding send(1) backlog_def by (auto simp: b intro!: sum_less_at)
next
  case (receive p pd sub m ms now oc)
  have "sub < st_next (sy_store y)" using inv receive(2,3) by (simp add: sys_inv_def pod_flow_def)
  then show ?thesis
    unfolding receive(1) backlog_def using receive(4) by (auto intro!: sum_less_at)
qed

text \<open>A delivery changes neither the stored bundles nor who is connected.\<close>

definition same_links :: "('w, 'waf) System \<Rightarrow> ('w, 'waf) System \<Rightarrow> bool" where
  "same_links y y' \<longleftrightarrow> Get (sy_store y') = Get (sy_store y) \<and> sy_streams y' = sy_streams y \<and>
     (\<forall>p. map_option (\<lambda>pd. (pd_conn pd, podKey pd)) (sy_pods y' p) = map_option (\<lambda>pd. (pd_conn pd, podKey pd)) (sy_pods y p))"

lemma deliver_links:
  assumes "deliver_step P y y'"
  shows "same_links y y'"
  using assms
  by (cases rule: deliver_step.cases)
    (auto simp: same_links_def Get_def fun_eq_iff recvBundle_def podKey_def onMessage_def split: option.splits prod.splits)

lemma stored_digest:
  assumes "sys_inv P y" and "Get (sy_store y) k = Some b"
  shows "b_SHA256 b = sha256hex (b_Compiled b)"
proof -
  from assms have "sy_log y k \<noteq> []" "last (sy_log y k) = b" by (simp_all add: sys_inv_def log_inv_def)
  then have "b \<in> set (sy_log y k)" using last_in_set by blast
  with assms(1) obtain w where "publishes (pg_Kube P) (pg_Reconciler P) w k b" unfolding sys_inv_def log_inv_def by blast
  from publishes_compiled [OF this] show ?thesis by blast
qed

lemma deliver_run:
  assumes "(deliver_step P ^^ n) y y'" and "sys_inv P y"
  shows "sys_inv P y' \<and> backlog y' + n \<le> backlog y \<and> same_links y y'"
  using assms
proof (induction n arbitrary: y')
  case (Suc n)
  then obtain z where z: "(deliver_step P ^^ n) y z" "deliver_step P z y'" by auto
  note zy = Suc.IH [OF z(1) Suc.prems(2)]
  have "same_links y y'" using zy deliver_links [OF z(2)] by (simp add: same_links_def)
  with zy deliver_backlog [OF z(2)] deliver_step_inv [OF z(2)] show ?case by fastforce
qed (simp add: same_links_def)

text \<open>Every run of deliveries can be completed.\<close>

lemma deliver_completes: "sys_inv P y \<Longrightarrow> \<exists>m z. (deliver_step P ^^ m) y z \<and> (\<nexists>z'. deliver_step P z z')"
proof (induction "backlog y" arbitrary: y rule: less_induct)
  case less
  show ?case
  proof (cases "\<exists>z. deliver_step P y z")
    case True
    then obtain z where z: "deliver_step P y z" by blast
    obtain m z' where "(deliver_step P ^^ m) z z'" "\<nexists>z''. deliver_step P z' z''"
      using less.hyps [OF deliver_backlog [OF z less.prems] deliver_step_inv [OF z less.prems]] by blast
    with relpowp_Suc_I2 [where P = "deliver_step P", OF z] show ?thesis by blast
  next
    case False
    then show ?thesis by (intro exI [of _ 0] exI [of _ y]) simp
  qed
qed

text \<open>When no delivery is possible, nothing waits for a pod whose stream is open.\<close>

lemma settled_empty:
  assumes "\<nexists>y'. deliver_step P y y'" and "sy_pods y p = Some pd" and "pd_conn pd = Some sub" and "sy_streams y sub = Some k"
  shows "waiting y sub = []"
proof -
  have "sy_wire y sub = []"
  proof (rule ccontr)
    assume "sy_wire y sub \<noteq> []"
    then obtain m ms where "sy_wire y sub = m # ms" by (cases "sy_wire y sub") auto
    from deliver_step.receive [OF assms(2,3) this] assms(1) show False by blast
  qed
  moreover have "st_chans (sy_store y) sub = []"
  proof (rule ccontr)
    assume "st_chans (sy_store y) sub \<noteq> []"
    then obtain s m where "Subscribe_loop [TakeBundle None] (sy_store y) sub [] = (StreamOpen, s, [m])"
      by (cases "st_chans (sy_store y) sub") (auto simp: recvBundle_def chanRecv_def)
    from deliver_step.send [OF assms(4) this] assms(1) show False by blast
  qed
  ultimately show ?thesis by (simp add: waiting_def)
qed

lemma Swap_LastError:
  "parseText newWAF (eb_Compiled b) = Inl err \<Longrightarrow>
   ps_LastError (ap_state (eg_provider (handlerStep newWAF cachePath (now, oc, b) e))) = ''parse failed: '' @ err"
  by (cases rule: Swap_cases [of newWAF "eb_Compiled b"]) (simp_all add: handler_provider swapStep_def failedState_def)

lemma settled_current:
  assumes inv: "sys_inv P y" and settled: "\<nexists>y'. deliver_step P y y'"
    and p: "sy_pods y p = Some pd" "pd_conn pd = Some sub" "sy_streams y sub \<noteq> None"
    and b: "Get (sy_store y) (podKey pd) = Some b"
  shows "case parseText (pg_NewWAF P) (b_Compiled b) of
      Inr waf \<Rightarrow> podWAF pd = Some waf \<and> ps_SHA256 (podState pd) = b_SHA256 b \<and> ps_RuleSetName (podState pd) = b_RuleSetName b
    | Inl err \<Rightarrow> ps_LastError (podState pd) = ''parse failed: '' @ err"
proof -
  let ?h = "handlerStep (pg_NewWAF P) (cfg_BundleCachePath (pd_cfg pd))"
  have past: "pod_past P pd" and flow: "pod_flow y pd" using inv p(1) by (simp_all add: sys_inv_def)
  obtain k where k: "sy_streams y sub = Some k" using p(3) by blast
  have "latest (Some b) (pd_seen pd)"
    using flow p(2) k b settled_empty [OF settled p(1,2) k] by (auto simp: pod_flow_def)
  then obtain seen where "pd_seen pd = seen @ [toPB b]" by (auto simp: latest_def) (metis append_butlast_last_id)
  with past obtain old where "handled pd = old @ map ofPB seen @ [ofPB (toPB b)]" by (auto simp: pod_past_def)
  then obtain xs now oc where "pd_hist pd = xs @ [(now, oc, ofPB (toPB b))]"
    by (cases "pd_hist pd" rule: rev_cases) auto
  with past have eng: "pd_engine pd = ?h (now, oc, ofPB (toPB b)) (fold ?h xs (pd_start pd))" by (simp add: pod_past_def)
  show ?thesis
  proof (cases "parseText (pg_NewWAF P) (b_Compiled b)")
    case (Inl err)
    then show ?thesis by (simp add: eng State_def Swap_LastError)
  next
    case (Inr waf)
    with bundle_handler.reload_ok [of "pg_NewWAF P" "(now, oc, ofPB (toPB b))" waf] show ?thesis
      by (simp add: eng Current_def State_def)
  qed
qed

text \<open>A run of deliveries that has come to rest, seen from its start.\<close>

lemma delivered_current:
  assumes inv: "sys_inv P y" and run: "(deliver_step P ^^ n) y y'" "\<nexists>y''. deliver_step P y' y''"
    and p: "sy_pods y p = Some pd" "pd_conn pd = Some sub" "sy_streams y sub \<noteq> None" "Get (sy_store y) (podKey pd) = Some b"
  shows "\<exists>pd'. sy_pods y' p = Some pd' \<and> (case parseText (pg_NewWAF P) (b_Compiled b) of
      Inr waf \<Rightarrow> podWAF pd' = Some waf \<and> ps_SHA256 (podState pd') = b_SHA256 b \<and> ps_RuleSetName (podState pd') = b_RuleSetName b
    | Inl err \<Rightarrow> ps_LastError (podState pd') = ''parse failed: '' @ err)"
proof -
  note y' = deliver_run [OF run(1) inv]
  have "map_option (\<lambda>pd. (pd_conn pd, podKey pd)) (sy_pods y' p) = Some (Some sub, podKey pd)"
    using y' p by (simp add: same_links_def)
  then obtain pd' where pd': "sy_pods y' p = Some pd'" "pd_conn pd' = Some sub" "podKey pd' = podKey pd" by auto
  moreover have "sy_streams y' sub \<noteq> None" "Get (sy_store y') (podKey pd') = Some b"
    using y' p pd' by (simp_all add: same_links_def)
  ultimately show ?thesis
    using settled_current [OF conjunct1 [OF y'] run(2) pd'(1,2)] by (intro exI [of _ pd'] conjI)
qed

subsection \<open>The loops of the code are runs of these steps\<close>

text \<open>The handler's loop on waiting bundles, and the receive loop of \<open>runStream\<close> on messages.\<close>


lemma Subscribe_loop_acc:
  "Subscribe_loop evs s sub (sent @ xs) = (case Subscribe_loop evs s sub xs of (out, s', ms) \<Rightarrow> (out, s', sent @ ms))"
  by (induction evs s sub xs arbitrary: sent rule: Subscribe_loop.induct)
    (simp_all split: option.splits prod.splits)

lemma Subscribe_loop_steps:
  assumes "sy_streams y sub = Some k" and "Subscribe_loop (replicate n (TakeBundle None)) (sy_store y) sub [] = (StreamOpen, s, ms)"
  shows "(deliver_step P ^^ length ms) y (y\<lparr>sy_store := s, sy_wire := (sy_wire y)(sub := sy_wire y sub @ ms)\<rparr>)"
  using assms
proof (induction n arbitrary: y ms)
  case 0
  then show ?case by simp
next
  case (Suc n)
  show ?case
  proof (cases "recvBundle (sy_store y) sub")
    case None
    with Suc show ?thesis by simp
  next
    case (Some bs)
    then obtain b s1 where b: "recvBundle (sy_store y) sub = Some (b, s1)" by (cases bs) auto
    let ?y1 = "y\<lparr>sy_store := s1, sy_wire := (sy_wire y)(sub := sy_wire y sub @ [toPB b])\<rparr>"
    obtain ms' where ms: "ms = toPB b # ms'" "Subscribe_loop (replicate n (TakeBundle None)) s1 sub [] = (StreamOpen, s, ms')"
      using Suc.prems(2) b Subscribe_loop_acc [of _ s1 sub "[toPB b]" "[]"] by (auto split: prod.splits)
    have "deliver_step P y ?y1"
      by (rule deliver_step.send [OF Suc.prems(1)]) (simp add: b)
    moreover have "(deliver_step P ^^ length ms') ?y1 (?y1\<lparr>sy_store := s, sy_wire := (sy_wire ?y1)(sub := sy_wire ?y1 sub @ ms')\<rparr>)"
      by (rule Suc.IH) (use Suc.prems(1) ms(2) in simp_all)
    ultimately have "(deliver_step P ^^ Suc (length ms')) y (?y1\<lparr>sy_store := s, sy_wire := (sy_wire ?y1)(sub := sy_wire ?y1 sub @ ms')\<rparr>)"
      by (rule relpowp_Suc_I2)
    moreover have "?y1\<lparr>sy_store := s, sy_wire := (sy_wire ?y1)(sub := sy_wire ?y1 sub @ ms')\<rparr> =
        y\<lparr>sy_store := s, sy_wire := (sy_wire y)(sub := sy_wire y sub @ ms)\<rparr>"
      by (rule System.equality) (simp_all add: ms fun_eq_iff)
    ultimately show ?thesis by (simp only: ms length_Cons)
  qed
qed

lemma receive_steps:
  assumes "sy_pods y p = Some pd" and "pd_conn pd = Some sub" and "sy_wire y sub = ms @ rest"
  shows "\<exists>y' pd'. (deliver_step P ^^ length ms) y y' \<and> sy_pods y' p = Some pd' \<and> sy_wire y' sub = rest \<and>
    pd_engine pd' = fold (\<lambda>m. newBundleHandler (pg_NewWAF P) (cfg_BundleCachePath (pd_cfg pd)) now oc (ofPB m)) ms (pd_engine pd)"
  using assms
proof (induction ms arbitrary: y pd)
  case Nil
  then show ?case by auto
next
  case (Cons m ms)
  let ?pd = "onMessage (pg_NewWAF P) now oc m pd"
  let ?y = "y\<lparr>sy_wire := (sy_wire y)(sub := ms @ rest), sy_pods := (sy_pods y)(p \<mapsto> ?pd)\<rparr>"
  have step: "deliver_step P y ?y" using Cons.prems by (intro deliver_step.receive) simp_all
  have pd: "pd_conn ?pd = Some sub" "pd_cfg ?pd = pd_cfg pd"
    "pd_engine ?pd = newBundleHandler (pg_NewWAF P) (cfg_BundleCachePath (pd_cfg pd)) now oc (ofPB m) (pd_engine pd)"
    by (simp_all add: onMessage_def Cons.prems)
  obtain y' pd' where y': "(deliver_step P ^^ length ms) ?y y'" "sy_pods y' p = Some pd'" "sy_wire y' sub = rest"
    "pd_engine pd' = fold (\<lambda>m. newBundleHandler (pg_NewWAF P) (cfg_BundleCachePath (pd_cfg pd)) now oc (ofPB m)) ms (pd_engine ?pd)"
    using Cons.IH [of ?y ?pd] pd(1,2) by auto
  have "(deliver_step P ^^ length (m # ms)) y y'"
    using relpowp_Suc_I2 [where P = "deliver_step P", OF step y'(1)] by (simp del: relpowp.simps)
  with y' pd(3) show ?case by (intro exI [of _ y'] exI [of _ pd']) simp
qed

lemma runStream_steps:
  assumes "sy_pods y p = Some pd" and "pd_conn pd = Some sub" and "sy_wire y sub = ms @ rest"
    and "cd_NewClient D (gc_OperatorAddr cfg) (MutualTLS tls) w = (None, w1)"
    and "cd_Subscribe D (gc_OperatorAddr cfg) (MutualTLS tls) (gc_EngineNamespace cfg) (gc_EngineName cfg) w1 = (Inr (ms, err), w2)"
  shows "\<exists>y' pd'. (deliver_step P ^^ length ms) y y' \<and> sy_pods y' p = Some pd' \<and>
    fst (snd (runStream D cfg (newBundleHandler (pg_NewWAF P) (cfg_BundleCachePath (pd_cfg pd)) now oc) (Some tls) (pd_engine pd) w))
      = pd_engine pd'"
  using receive_steps [OF assms(1-3), of P now oc] assms(4,5) by (auto simp: runStream_def Let_def split: option.splits)

subsection \<open>Properties\<close>

text \<open>
  C4. A pod reports what it runs, and runs only what it may: after any run of the system, whatever was published, sent,
  lost or restarted in between, a pod that started has a firewall; it is the one of a text whose SHA-256 the pod reports;
  and this text is the rule file the pod started with, or a reconcile of the run published it for the pod's own engine, as
  the compilation of sources without conflicts and under the name the pod reports.
\<close>

theorem pod_reports_what_it_runs:
  assumes "sys_reach P y" and "sy_pods y p = Some pd"
  shows "\<exists>waf seclang. podWAF pd = Some waf \<and> parseText (pg_NewWAF P) seclang = Inr waf \<and>
    ps_SHA256 (podState pd) = sha256hex seclang \<and>
    (Current (eg_provider (pd_start pd)) = Some waf \<and> ps_SHA256 (State (eg_provider (pd_start pd))) = sha256hex seclang \<or>
     (\<exists>w \<in> sy_past y. \<exists>b sources cb. publishes (pg_Kube P) (pg_Reconciler P) w (podKey pd) b \<and> b_Compiled b = seclang \<and>
        Compile sources = Inr cb \<and> seclang = concat (map writeSource sources) \<and>
        ps_RuleSetName (podState pd) = b_RuleSetName b))"
proof -
  obtain waf seclang where w: "podWAF pd = Some waf" "parseText (pg_NewWAF P) seclang = Inr waf"
    "ps_SHA256 (podState pd) = sha256hex seclang"
    and src: "Current (eg_provider (pd_start pd)) = Some waf \<and> ps_SHA256 (State (eg_provider (pd_start pd))) = sha256hex seclang \<or>
     (\<exists>w \<in> sy_past y. \<exists>b. publishes (pg_Kube P) (pg_Reconciler P) w (podKey pd) b \<and> b_Compiled b = seclang \<and>
        ps_RuleSetName (podState pd) = b_RuleSetName b)"
    using pod_active [OF sys_reach_inv [OF assms(1)] assms(2)] unfolding Current_def State_def by blast
  from src show ?thesis
  proof (elim disjE bexE exE conjE)
    fix w' b
    assume b: "w' \<in> sy_past y" "publishes (pg_Kube P) (pg_Reconciler P) w' (podKey pd) b" "b_Compiled b = seclang"
      "ps_RuleSetName (podState pd) = b_RuleSetName b"
    obtain sources cb where "Compile sources = Inr cb" "seclang = concat (map writeSource sources)"
      using publishes_compiled [OF b(2)] b(3) by blast
    with w b show ?thesis by blast
  qed (use w in blast)
qed

text \<open>
  C10. A pod never goes back to an older bundle: the bundles it has handled since it started, followed by those still on
  their way to it, are bundles of its engine in the order in which they were published, also across lost streams,
  reconnects and restarts of the operator.
\<close>

theorem pod_never_rolls_back:
  assumes "sys_reach P y" and "sy_pods y p = Some pd"
  shows "in_order (logged y (podKey pd)) (handled pd @ map ofPB (pending y pd))"
  using sys_reach_inv [OF assms(1)] assms(2) by (simp add: sys_inv_def pod_flow_def)

text \<open>
  C5. Deliveries come to rest, and then every connected pod is up to date: a run of sends and receives has at most
  \<open>backlog\<close> steps and can be completed; once it is, every pod that had an open stream runs the firewall of the bundle stored
  for its engine and reports its digest and name, or, if its parser rejects that text, reports the parser's error.
\<close>

theorem deliveries_settle:
  assumes "sys_reach P y" and "(deliver_step P ^^ n) y y'"
  shows "n \<le> backlog y \<and> (\<exists>m z. (deliver_step P ^^ m) y' z \<and> (\<nexists>z'. deliver_step P z z')) \<and>
    ((\<nexists>y''. deliver_step P y' y'') \<longrightarrow>
     (\<forall>p pd sub b. sy_pods y p = Some pd \<and> pd_conn pd = Some sub \<and> sy_streams y sub \<noteq> None \<and>
        Get (sy_store y) (podKey pd) = Some b \<longrightarrow>
        (\<exists>pd'. sy_pods y' p = Some pd' \<and>
           (case parseText (pg_NewWAF P) (b_Compiled b) of
              Inr waf \<Rightarrow> podWAF pd' = Some waf \<and> ps_SHA256 (podState pd') = b_SHA256 b \<and>
                ps_RuleSetName (podState pd') = b_RuleSetName b
            | Inl err \<Rightarrow> ps_LastError (podState pd') = ''parse failed: '' @ err))))"
proof (intro conjI impI allI)
  note inv = sys_reach_inv [OF assms(1)]
  note run = deliver_run [OF assms(2) inv]
  show "n \<le> backlog y" using run by simp
  show "\<exists>m z. (deliver_step P ^^ m) y' z \<and> (\<nexists>z'. deliver_step P z z')" using run deliver_completes by blast
qed (use delivered_current [OF sys_reach_inv [OF assms(1)] assms(2)] in blast)

text \<open>
  C3. The status of a rule set comes true. When a reconcile of the running system has read and compiled the sources of a
  rule set and its status was accepted, the deliveries that follow come to rest, and then every pod that was connected
  and whose engine uses the set runs the firewall of a text with the digest in that status, and reports this digest; or
  its parser rejects that text, and it reports why.
\<close>

theorem rule_set_status_comes_true:
  assumes "sys_reach P y" and "K = pg_Kube P"
    and "k_GetRuleSet K req (sy_world y) = (Inr rs, w1)"
    and "collectSources K rs w1 = (Inr (sources, ''''), w2)" and "Compile sources = Inr cb"
    and "rs' = RuleSet_compiled K (k_Now K w2) rs cb"
    and "RuleSet_patchStatusIfChanged K rs rs' w2 = (Inr res, w3)"
    and "k_ListEngines K (Some (rs_Namespace rs)) w3 = (Inr items, w4)"
    and "e \<in> set items" "es_RuleSetRef (en_Spec e) = rs_Name rs"
  shows "\<exists>y1. sys_step P y y1 \<and> sy_world y1 = w4 \<and>
    RuleSet_Reconcile K (Some (sy_store y)) req (sy_world y) = Some (Inr emptyResult, Some (sy_store y1), w4) \<and>
    (\<exists>n z. (deliver_step P ^^ n) y1 z \<and> n \<le> backlog y1 \<and> (\<nexists>z'. deliver_step P z z')) \<and>
    (\<forall>n z p pd sub. (deliver_step P ^^ n) y1 z \<longrightarrow> (\<nexists>z'. deliver_step P z z') \<longrightarrow> sy_pods y p = Some pd \<longrightarrow>
       pd_conn pd = Some sub \<longrightarrow> sy_streams y sub \<noteq> None \<longrightarrow> podKey pd = engKey e \<longrightarrow>
       (\<exists>pd' seclang. sy_pods z p = Some pd' \<and> sha256hex seclang = rst_CompiledHash (rs_Status rs') \<and>
          (case parseText (pg_NewWAF P) seclang of
             Inr waf \<Rightarrow> podWAF pd' = Some waf \<and> ps_SHA256 (podState pd') = rst_CompiledHash (rs_Status rs')
           | Inl err \<Rightarrow> ps_LastError (podState pd') = ''parse failed: '' @ err)))"
proof -
  have inv: "sys_inv P y" using assms(1) by (rule sys_reach_inv)
  then have "store_inv (sy_store y)" by (simp add: sys_inv_def streams_inv_def)
  then obtain s where s: "publishItems (rs_Name rs) cb (k_Now K w4) items (sy_store y) = Some s"
    "map_option b_SHA256 (Get s (engKey e)) = Some (cb_SHA256 cb)"
    by (rule publishItems_spec) (use assms(9,10) in blast)
  have "res = emptyResult" using rule_set_patch.patch_result [of K rs rs' w2 res] assms(7) by simp
  then have r: "RuleSet_Reconcile K (Some (sy_store y)) req (sy_world y) = Some (Inr emptyResult, Some s, w4)"
    using assms(3-8) s(1) by (simp add: RuleSet_Reconcile_def publishToEngines_def)
  define y1 where "y1 = y\<lparr>sy_world := w4, sy_store := s, sy_log := logChanges (sy_store y) s (sy_log y),
      sy_past := insert (sy_world y) (sy_past y)\<rparr>"
  have y1: "sys_step P y y1" using sys_step.ruleset [OF r [unfolded assms(2)]] by (simp add: y1_def)
  note inv1 = sys_step_inv [OF y1 inv]
  obtain b where b: "Get (sy_store y1) (engKey e) = Some b" "b_SHA256 b = cb_SHA256 cb" using s(2) by (auto simp: y1_def)
  have h: "rst_CompiledHash (rs_Status rs') = b_SHA256 b" "sha256hex (b_Compiled b) = b_SHA256 b"
    using stored_digest [OF inv1 b(1)] b(2) by (simp_all add: assms(6) RuleSet_compiled_def)
  have now: "\<exists>pd' seclang. sy_pods z p = Some pd' \<and> sha256hex seclang = rst_CompiledHash (rs_Status rs') \<and>
      (case parseText (pg_NewWAF P) seclang of
         Inr waf \<Rightarrow> podWAF pd' = Some waf \<and> ps_SHA256 (podState pd') = rst_CompiledHash (rs_Status rs')
       | Inl err \<Rightarrow> ps_LastError (podState pd') = ''parse failed: '' @ err)"
    if "(deliver_step P ^^ n) y1 z" "\<nexists>z'. deliver_step P z z'" "sy_pods y p = Some pd" "pd_conn pd = Some sub"
      "sy_streams y sub \<noteq> None" "podKey pd = engKey e" for n z p pd sub
  proof -
    have "sy_pods y1 p = Some pd" "sy_streams y1 sub \<noteq> None" "Get (sy_store y1) (podKey pd) = Some b"
      using that(3,5,6) b(1) by (simp_all add: y1_def)
    from delivered_current [OF inv1 that(1,2) this(1) that(4) this(2,3)] show ?thesis
      unfolding h(1) by (elim exE, intro exI [of _ "b_Compiled b"] exI) (auto simp: h(2) split: sum.splits)
  qed
  have rest: "\<exists>n z. (deliver_step P ^^ n) y1 z \<and> n \<le> backlog y1 \<and> (\<nexists>z'. deliver_step P z z')"
  proof -
    obtain n z where n: "(deliver_step P ^^ n) y1 z" "\<nexists>z'. deliver_step P z z'" using deliver_completes [OF inv1] by blast
    with deliver_run [OF n(1) inv1] show ?thesis by (metis add_leD2)
  qed
  have "sy_world y1 = w4" "sy_store y1 = s" by (simp_all add: y1_def)
  with r y1 rest show ?thesis using now by (intro exI [of _ y1] conjI) blast+
qed

subsection \<open>Witnesses\<close>

definition demoProgram :: "(demoWorld, string, string, string) Program" where
  "demoProgram = \<lparr>pg_Kube = demoKube, pg_Reconciler = demoReconciler, pg_Server = demoServer, pg_NewWAF = demoNewWAF\<rparr>"

lemma demo_stream_opens:
  "rpcSubscribe demoServer (Some (TLSInfo [[demoLeaf]])) ''ns'' ''e'' s [] = Inr (StreamOpen, subscribed s (mkKey ''ns'' ''e''), [])"
proof -
  have "Subscribe_checks demoServer (Some (TLSInfo [[demoLeaf]])) ''ns'' ''e'' = Inr ()"
    using checks_tls [of demoServer demoCA demoLeaf "[]" "[]" "''ns''" "''e''"]
    by (simp add: demoServer_def demoLeaf_def clientTemplate_def clientCN_def validIdentity_def slash_def)
  then show ?thesis
    by (simp add: rpcSubscribe_def subscribeClientCertInterceptor_def requireVerifiedClientCert_def Server_Subscribe_def
        Store_Subscribe_eq)
qed

text \<open>A run: a pod starts, the rule set is reconciled, the pod opens its stream.\<close>

lemma demo_system:
  obtains y pd sub b where "sys_reach demoProgram y" "sy_pods y 0 = Some pd" "podKey pd = mkKey ''ns'' ''e''" "pd_conn pd = Some sub"
    "sy_streams y sub \<noteq> None" "Get (sy_store y) (podKey pd) = Some b" "b_Compiled b = concat (map writeSource demoSources)"
proof -
  let ?k = "mkKey ''ns'' ''e''"
  obtain pd where "startPod demoNewWAF (\<lambda>f. Inr ''SecAction'') (\<lambda>u. None) 1 demoConfig Map.empty = Inr pd"
    using demo_run_starts [of demoConfig] by (auto simp: startPod_def Let_def)
  then have start: "startPod (pg_NewWAF demoProgram) (\<lambda>f. Inr ''SecAction'') (\<lambda>u. None) 1 demoConfig Map.empty = Inr pd"
    by (simp add: demoProgram_def)
  have pd: "pd_cfg pd = demoConfig" "pd_conn pd = None"
    using start by (auto simp: startPod_def Let_def split: sum.splits)
  have key: "podKey pd = ?k" by (simp add: podKey_def pd demoConfig_def)
  obtain cb w3 where b: "Compile demoSources = Inr cb"
    and p: "RuleSet_patchStatusIfChanged demoKube demoRuleSet
      (RuleSet_compiled demoKube (k_Now demoKube demoCluster) demoRuleSet cb) demoCluster = (Inr emptyResult, w3)"
    and l: "k_ListEngines demoKube (Some (rs_Namespace demoRuleSet)) w3 = (Inr [demoEngine], w3)"
    by (rule demo_reconcile)
  let ?b = "bundleOf ''r'' cb (k_Now demoKube w3)"
  let ?s = "deliveredTo NewStore {?k} ?b"
  have new: "\<not> isDuplicate NewStore ?k ?b" by (simp add: isDuplicate_def NewStore_def)
  have r: "RuleSet_Reconcile demoKube (Some NewStore) (''ns'', ''r'') demoCluster = Some (Inr emptyResult, Some ?s, w3)"
    using demo_cluster_objects demo_collect b p l new publishEach_same [OF store_inv_NewStore, of ?b "[?k]"]
    by (simp add: RuleSet_Reconcile_def publishToEngines_def publishItems_each cong: conj_cong)
  define y1 where "y1 = (initSystem demoCluster :: (demoWorld, string) System)\<lparr>sy_pods := [0 \<mapsto> pd]\<rparr>"
  have y1: "sys_reach demoProgram y1"
    using sys_reach.step [OF sys_reach.init sys_step.start [OF start]] by (simp add: y1_def initSystem_def)
  have "RuleSet_Reconcile (pg_Kube demoProgram) (Some (sy_store y1)) (''ns'', ''r'') (sy_world y1) =
      Some (Inr emptyResult, Some ?s, w3)"
    using r by (simp add: y1_def initSystem_def demoProgram_def)
  from sys_reach.step [OF y1 sys_step.ruleset [OF this]]
  obtain y2 where y2: "sys_reach demoProgram y2" "sy_pods y2 0 = Some pd" "sy_store y2 = ?s"
    by (rule that) (simp_all add: y1_def)
  have "rpcSubscribe (pg_Server demoProgram) (Some (TLSInfo [[demoLeaf]])) (ek_ns (podKey pd)) (ek_name (podKey pd)) (sy_store y2) []
      = Inr (StreamOpen, subscribed ?s ?k, [])"
    by (simp add: y2 key demoProgram_def demo_stream_opens)
  moreover have "cfg_OperatorAddr (pd_cfg pd) \<noteq> ''''" by (simp add: pd demoConfig_def)
  ultimately have "sys_step demoProgram y2 (y2\<lparr>sy_store := subscribed ?s ?k, sy_streams := (sy_streams y2)(st_next ?s \<mapsto> ?k),
      sy_pods := (sy_pods y2)(0 \<mapsto> pd\<lparr>pd_conn := Some (st_next ?s), pd_seen := []\<rparr>)\<rparr>)"
    using sys_step.connect [of y2 0 pd demoProgram "Some (TLSInfo [[demoLeaf]])" "subscribed ?s ?k"] y2 pd(2) key by simp
  from sys_reach.step [OF y2(1) this] show thesis
    by (rule that [of _ "pd\<lparr>pd_conn := Some (st_next ?s), pd_seen := []\<rparr>" "st_next ?s" ?b])
      (use key b in \<open>simp_all add: podKey_def bundleOf_def Compile_Inr_iff Get_def\<close>)
qed

lemma sys_reach_deliver: "sys_reach P y \<Longrightarrow> (deliver_step P ^^ n) y y' \<Longrightarrow> sys_reach P y'"
  by (induction n arbitrary: y') (auto intro: sys_reach.step sys_step.deliver)

lemma demo_parses: "parseText demoNewWAF (concat (map writeSource demoSources)) = Inr (concat (map writeSource demoSources))"
  by (simp add: BuildWAF_def demoNewWAF_def demoSources_def writeSource_def)

theorem deliveries_settle_witness:
  "\<exists>n y y' pd. sys_reach demoProgram y \<and> (deliver_step demoProgram ^^ n) y y' \<and> sy_pods y' 0 = Some pd \<and>
     podWAF pd = Some (concat (map writeSource demoSources))"
proof -
  obtain y pd sub b where y: "sys_reach demoProgram y" and pd: "sy_pods y 0 = Some pd" "pd_conn pd = Some sub"
    "sy_streams y sub \<noteq> None" "Get (sy_store y) (podKey pd) = Some b" and b: "b_Compiled b = concat (map writeSource demoSources)"
    by (rule demo_system)
  obtain n y' where n: "(deliver_step demoProgram ^^ n) y y'" "\<nexists>z. deliver_step demoProgram y' z"
    using deliver_completes [OF sys_reach_inv [OF y]] by blast
  have "parseText (pg_NewWAF demoProgram) (b_Compiled b) = Inr (concat (map writeSource demoSources))"
    using demo_parses by (simp add: demoProgram_def b)
  with deliveries_settle [OF y n(1), THEN conjunct2, THEN conjunct2, THEN mp, OF n(2), rule_format, of 0 pd sub b] pd
  obtain pd' where "sy_pods y' 0 = Some pd'" "podWAF pd' = Some (concat (map writeSource demoSources))" by auto
  with y n(1) show ?thesis by blast
qed

theorem pod_reports_what_it_runs_witness:
  "\<exists>y pd waf seclang. sys_reach demoProgram y \<and> sy_pods y 0 = Some pd \<and> podWAF pd = Some waf \<and>
     parseText demoNewWAF seclang = Inr waf \<and> ps_SHA256 (podState pd) = sha256hex seclang"
proof -
  obtain y pd where y: "sys_reach demoProgram y" "sy_pods y 0 = Some pd" by (rule demo_system)
  from pod_reports_what_it_runs [OF y] have "\<exists>waf seclang. podWAF pd = Some waf \<and> parseText demoNewWAF seclang = Inr waf \<and>
      ps_SHA256 (podState pd) = sha256hex seclang"
    by (auto simp: demoProgram_def)
  with y show ?thesis by blast
qed

theorem pod_never_rolls_back_witness:
  "\<exists>y pd. sys_reach demoProgram y \<and> sy_pods y 0 = Some pd \<and> pd_conn pd \<noteq> None \<and>
     in_order (logged y (mkKey ''ns'' ''e'')) (handled pd @ map ofPB (pending y pd))"
proof -
  obtain y pd sub where y: "sys_reach demoProgram y" "sy_pods y 0 = Some pd"
    and pd: "podKey pd = mkKey ''ns'' ''e''" "pd_conn pd = Some sub" by (rule demo_system)
  with pod_never_rolls_back [OF y] show ?thesis unfolding pd(1) by (intro exI [of _ y] exI [of _ pd]) simp
qed

theorem rule_set_status_comes_true_witness:
  "\<exists>y y1 n z pd' seclang b. sys_reach demoProgram y \<and> sys_step demoProgram y y1 \<and> (deliver_step demoProgram ^^ n) y1 z \<and>
     Compile demoSources = Inr b \<and> sy_pods z 0 = Some pd' \<and> sha256hex seclang = cb_SHA256 b \<and>
     (\<forall>waf. parseText demoNewWAF seclang = Inr waf \<longrightarrow> podWAF pd' = Some waf)"
proof -
  obtain y0 pd sub where y0: "sys_reach demoProgram y0" and pd: "sy_pods y0 0 = Some pd" "podKey pd = mkKey ''ns'' ''e''"
    "pd_conn pd = Some sub" "sy_streams y0 sub \<noteq> None" by (rule demo_system)
  define y where "y = y0\<lparr>sy_world := demoCluster\<rparr>"
  have y: "sys_reach demoProgram y" unfolding y_def by (rule sys_reach.step [OF y0 sys_step.cluster])
  obtain b w3 where b: "Compile demoSources = Inr b"
    and p: "RuleSet_patchStatusIfChanged demoKube demoRuleSet
      (RuleSet_compiled demoKube (k_Now demoKube demoCluster) demoRuleSet b) demoCluster = (Inr emptyResult, w3)"
    and l: "k_ListEngines demoKube (Some (rs_Namespace demoRuleSet)) w3 = (Inr [demoEngine], w3)"
    by (rule demo_reconcile)
  have K: "demoKube = pg_Kube demoProgram" by (simp add: demoProgram_def)
  have g: "k_GetRuleSet demoKube (''ns'', ''r'') (sy_world y) = (Inr demoRuleSet, demoCluster)"
    using demo_cluster_objects by (simp add: y_def)
  have e: "demoEngine \<in> set [demoEngine]" "es_RuleSetRef (en_Spec demoEngine) = rs_Name demoRuleSet"
    using demo_cluster_objects by simp_all
  have c: "sy_pods y 0 = Some pd" "sy_streams y sub \<noteq> None" "podKey pd = engKey demoEngine"
    using pd demo_cluster_objects by (simp_all add: y_def)
  let ?h = "rst_CompiledHash (rs_Status (RuleSet_compiled demoKube (k_Now demoKube demoCluster) demoRuleSet b))"
  let ?Q = "\<lambda>pd' seclang. sha256hex seclang = ?h \<and> (case parseText (pg_NewWAF demoProgram) seclang of
      Inr waf \<Rightarrow> podWAF pd' = Some waf \<and> ps_SHA256 (podState pd') = ?h
    | Inl err \<Rightarrow> ps_LastError (podState pd') = ''parse failed: '' @ err)"
  obtain y1 n z where y1: "sys_step demoProgram y y1" "(deliver_step demoProgram ^^ n) y1 z"
    and "\<exists>pd' seclang. sy_pods z 0 = Some pd' \<and> ?Q pd' seclang"
    using rule_set_status_comes_true [OF y K g demo_collect b refl p l e] c pd(3) by blast
  then obtain pd' seclang where q: "sy_pods z 0 = Some pd'" "sha256hex seclang = ?h" "case parseText (pg_NewWAF demoProgram) seclang of
      Inr waf \<Rightarrow> podWAF pd' = Some waf \<and> ps_SHA256 (podState pd') = ?h
    | Inl err \<Rightarrow> ps_LastError (podState pd') = ''parse failed: '' @ err" by blast
  have "?h = cb_SHA256 b" by (simp add: RuleSet_compiled_def)
  moreover have "\<forall>waf. parseText demoNewWAF seclang = Inr waf \<longrightarrow> podWAF pd' = Some waf"
    using q(3) by (auto simp: demoProgram_def)
  ultimately show ?thesis using y y1 b q(1,2) by metis
qed

end
