(* ===== verification/Deep_Copy.thy ===== *)
theory Deep_Copy
  imports Kube
begin

text \<open>
  The generated copies of \<open>api/v1/zz_generated.deepcopy.go\<close>, over an explicit heap: a pointer, a slice and a map are
  addresses of cells, a struct is a record that holds addresses, and \<open>DeepCopyInto\<close> returns the value it writes
  together with the heap. The reconcilers write the status of a copy in place and compare it with the original, and
  the other theories model both as values; what justifies that is proved here. The locale \<open>deep_copier\<close> is the
  contract: a copy reads like its original, lives in new cells only, and leaves the old cells alone. The copies of
  the Kubernetes types (\<open>ObjectMeta\<close>, \<open>ListMeta\<close>, \<open>ResourceRequirements\<close>, \<open>Time\<close>, \<open>Condition\<close>) are parameters that
  satisfy it. The last part is the registration of the kinds (\<open>groupversion_info.go\<close>) in the scheme of the operator.
\<close>

subsection \<open>Structs\<close>

type_synonym addr = nat

record TypeMeta =
  tm_Kind :: string
  tm_APIVersion :: string

record hObjectMeta =
  hm_Name :: string
  hm_Namespace :: string
  hm_Generation :: int
  hm_ResourceVersion :: string
  hm_Labels :: "addr option"
  hm_Annotations :: "addr option"
  hm_OwnerReferences :: "addr option"

record hListMeta =
  hl_ResourceVersion :: string
  hl_Continue :: string
  hl_RemainingItemCount :: "addr option"

record hResources =
  hr_Limits :: "addr option"
  hr_Requests :: "addr option"

record hSecRulesStatus =
  hsrt_Conditions :: "addr option"
  hsrt_ObservedGeneration :: int
  hsrt_ParsedRuleCount :: int32

record hSecRules =
  hsr_TypeMeta :: TypeMeta
  hsr_Meta :: hObjectMeta
  hsr_Spec :: SecRulesSpec
  hsr_Status :: hSecRulesStatus

record hClusterSecRulesStatus =
  hcsrt_Conditions :: "addr option"
  hcsrt_ObservedGeneration :: int
  hcsrt_ParsedRuleCount :: int32

record hClusterSecRules =
  hcsr_TypeMeta :: TypeMeta
  hcsr_Meta :: hObjectMeta
  hcsr_Spec :: ClusterSecRulesSpec
  hcsr_Status :: hClusterSecRulesStatus

record hRuleSetSpec =
  hrss_Sources :: "addr option"

record hRuleSetStatus =
  hrst_Conditions :: "addr option"
  hrst_ObservedGeneration :: int
  hrst_CompiledHash :: string
  hrst_RuleCount :: int32
  hrst_LastCompiledAt :: "addr option"

record hRuleSet =
  hrs_TypeMeta :: TypeMeta
  hrs_Meta :: hObjectMeta
  hrs_Spec :: hRuleSetSpec
  hrs_Status :: hRuleSetStatus

record hEngineSpec =
  hes_Type :: string
  hes_RuleSetRef :: string
  hes_Replicas :: "addr option"
  hes_Image :: "addr option"
  hes_Listener :: ListenerConfig
  hes_Upstream :: UpstreamConfig
  hes_Mode :: string
  hes_Resources :: hResources

record hEngineStatus =
  het_Conditions :: "addr option"
  het_ObservedGeneration :: int
  het_ReadyReplicas :: int32
  het_AppliedRuleSetHash :: string

record hEngine =
  hen_TypeMeta :: TypeMeta
  hen_Meta :: hObjectMeta
  hen_Spec :: hEngineSpec
  hen_Status :: hEngineStatus

text \<open>The four list types differ in the items only.\<close>

record hList =
  hli_TypeMeta :: TypeMeta
  hli_ListMeta :: hListMeta
  hli_Items :: "addr option"

subsection \<open>The heap\<close>

datatype cell =
    CConditions "Condition list" | CSources "SourceRef list" | CInt32 int32 | CString string | CTime time
  | CInt64 int | CMap "string \<rightharpoonup> string" | COwners "string list"
  | CSecRules "hSecRules list" | CClusterSecRules "hClusterSecRules list" | CRuleSets "hRuleSet list"
  | CEngines "hEngine list"

record heap =
  hp_cells :: "addr \<rightharpoonup> cell"
  hp_next :: addr

definition heap_ok :: "heap \<Rightarrow> bool" where
  "heap_ok h \<longleftrightarrow> (\<forall>a \<in> dom (hp_cells h). a < hp_next h)"

definition allocCell :: "cell \<Rightarrow> heap \<Rightarrow> addr \<times> heap" where
  "allocCell c h = (hp_next h, h\<lparr>hp_cells := (hp_cells h)(hp_next h \<mapsto> c), hp_next := hp_next h + 1\<rparr>)"

text \<open>A later heap has the cells of the earlier one unchanged.\<close>

definition heap_keeps :: "heap \<Rightarrow> heap \<Rightarrow> bool" where
  "heap_keeps h h' \<longleftrightarrow> heap_ok h' \<and> (\<forall>a \<in> dom (hp_cells h). hp_cells h' a = hp_cells h a)"

fun getConditions :: "cell \<Rightarrow> Condition list option" where
  "getConditions (CConditions xs) = Some xs" | "getConditions _ = None"

fun getSources :: "cell \<Rightarrow> SourceRef list option" where
  "getSources (CSources xs) = Some xs" | "getSources _ = None"

fun getInt32 :: "cell \<Rightarrow> int32 option" where
  "getInt32 (CInt32 x) = Some x" | "getInt32 _ = None"

fun getString :: "cell \<Rightarrow> string option" where
  "getString (CString x) = Some x" | "getString _ = None"

fun getTime :: "cell \<Rightarrow> time option" where
  "getTime (CTime x) = Some x" | "getTime _ = None"

fun getInt64 :: "cell \<Rightarrow> int option" where
  "getInt64 (CInt64 x) = Some x" | "getInt64 _ = None"

fun getMap :: "cell \<Rightarrow> (string \<rightharpoonup> string) option" where
  "getMap (CMap x) = Some x" | "getMap _ = None"

fun getOwners :: "cell \<Rightarrow> string list option" where
  "getOwners (COwners x) = Some x" | "getOwners _ = None"

fun getSecRulesItems :: "cell \<Rightarrow> hSecRules list option" where
  "getSecRulesItems (CSecRules x) = Some x" | "getSecRulesItems _ = None"

fun getClusterSecRulesItems :: "cell \<Rightarrow> hClusterSecRules list option" where
  "getClusterSecRulesItems (CClusterSecRules x) = Some x" | "getClusterSecRulesItems _ = None"

fun getRuleSetItems :: "cell \<Rightarrow> hRuleSet list option" where
  "getRuleSetItems (CRuleSets x) = Some x" | "getRuleSetItems _ = None"

fun getEngineItems :: "cell \<Rightarrow> hEngine list option" where
  "getEngineItems (CEngines x) = Some x" | "getEngineItems _ = None"

definition load :: "(cell \<Rightarrow> 'v option) \<Rightarrow> heap \<Rightarrow> addr \<Rightarrow> 'v option" where
  "load get h a = (case hp_cells h a of None \<Rightarrow> None | Some c \<Rightarrow> get c)"

lemma heap_keeps_refl: "heap_ok h \<Longrightarrow> heap_keeps h h"
  by (simp add: heap_keeps_def)

lemma heap_keeps_trans: "heap_keeps h h' \<Longrightarrow> heap_keeps h' h'' \<Longrightarrow> heap_keeps h h''"
  by (simp add: heap_keeps_def dom_def)

lemma heap_keeps_dom: "heap_keeps h h' \<Longrightarrow> dom (hp_cells h) \<subseteq> dom (hp_cells h')"
  by (auto simp: heap_keeps_def dom_def)

lemma heap_keeps_ok: "heap_keeps h h' \<Longrightarrow> heap_ok h'"
  by (simp add: heap_keeps_def)

lemma allocCell_ext:
  assumes "heap_ok h" and "allocCell c h = (a, h')"
  shows "heap_keeps h h'" "a \<notin> dom (hp_cells h)" "hp_cells h' a = Some c"
  using assms by (auto simp: allocCell_def heap_ok_def heap_keeps_def less_Suc_eq)

subsection \<open>The contract of a copy\<close>

text \<open>
  \<open>rd h x\<close> is the value of \<open>x\<close> in \<open>h\<close> and \<open>ft h x\<close> the cells it is read from. A value depends on its cells only; a
  copy of a value whose cells exist reads the same and has new cells only.
\<close>

locale deep_copier =
  fixes copy :: "'a \<Rightarrow> heap \<Rightarrow> 'a \<times> heap" and rd :: "heap \<Rightarrow> 'a \<Rightarrow> 'b" and ft :: "heap \<Rightarrow> 'a \<Rightarrow> addr set"
  assumes frame: "\<forall>a \<in> ft h x. hp_cells h' a = hp_cells h a \<Longrightarrow> rd h' x = rd h x \<and> ft h' x = ft h x"
    and copied: "heap_ok h \<Longrightarrow> ft h x \<subseteq> dom (hp_cells h) \<Longrightarrow> copy x h = (y, h') \<Longrightarrow>
      heap_keeps h h' \<and> rd h' y = rd h x \<and> ft h' y \<subseteq> dom (hp_cells h') - dom (hp_cells h)"
begin

lemma frame_ext:
  assumes "heap_keeps h h'" and "ft h x \<subseteq> dom (hp_cells h)"
  shows "rd h' x = rd h x \<and> ft h' x = ft h x \<and> ft h' x \<subseteq> dom (hp_cells h')"
proof -
  have "rd h' x = rd h x \<and> ft h' x = ft h x"
    using assms by (intro frame) (auto simp: heap_keeps_def)
  with assms heap_keeps_dom [OF assms(1)] show ?thesis by auto
qed

text \<open>A copy taken later, when other fields have been copied already.\<close>

lemma copied_later:
  assumes "heap_keeps h h1" and "ft h x \<subseteq> dom (hp_cells h)" and "copy x h1 = (y, h2)"
  shows "heap_keeps h h2 \<and> heap_keeps h1 h2 \<and> rd h2 y = rd h x \<and> ft h2 y \<subseteq> dom (hp_cells h2) - dom (hp_cells h)"
proof -
  have "ft h1 x \<subseteq> dom (hp_cells h1)" "rd h1 x = rd h x" using frame_ext [OF assms(1,2)] by auto
  then have "heap_keeps h1 h2" "rd h2 y = rd h x" "ft h2 y \<subseteq> dom (hp_cells h2) - dom (hp_cells h1)"
    using copied [OF heap_keeps_ok [OF assms(1)] _ assms(3)] by auto
  with heap_keeps_trans [OF assms(1)] heap_keeps_dom [OF assms(1)] show ?thesis by blast
qed

text \<open>Isolation: writes to the cells of the copy do not show in the original, nor the other way round.\<close>

lemma isolated:
  assumes "heap_ok h" and "ft h x \<subseteq> dom (hp_cells h)" and "copy x h = (y, h')"
  shows "rd h' y = rd h x \<and> rd h' x = rd h x \<and> ft h' y \<inter> ft h' x = {} \<and>
    (\<forall>h2. (\<forall>a. a \<notin> ft h' y \<longrightarrow> hp_cells h2 a = hp_cells h' a) \<longrightarrow> rd h2 x = rd h x) \<and>
    (\<forall>h2. (\<forall>a. a \<notin> ft h' x \<longrightarrow> hp_cells h2 a = hp_cells h' a) \<longrightarrow> rd h2 y = rd h x)"
proof -
  note c = copied [OF assms]
  have x: "rd h' x = rd h x" "ft h' x = ft h x"
    using frame_ext [of h h' x] c assms(2) by auto
  with c assms(2) have disj: "ft h' y \<inter> ft h' x = {}" by auto
  have "rd h2 x = rd h x" if "\<forall>a. a \<notin> ft h' y \<longrightarrow> hp_cells h2 a = hp_cells h' a" for h2
    using frame [of h' x h2] that disj x by auto
  moreover have "rd h2 y = rd h x" if "\<forall>a. a \<notin> ft h' x \<longrightarrow> hp_cells h2 a = hp_cells h' a" for h2
    using frame [of h' y h2] that disj c by auto
  ultimately show ?thesis using c x disj by blast
qed

end

subsection \<open>Copies of the shapes of fields\<close>

definition valCopy :: "('a \<Rightarrow> 'a) \<Rightarrow> 'a \<Rightarrow> heap \<Rightarrow> 'a \<times> heap" where
  "valCopy f x h = (f x, h)"

lemma val_copier: "(\<And>x. f x = x) \<Longrightarrow> deep_copier (valCopy f) (\<lambda>h x. x) (\<lambda>h x. {})"
  by unfold_locales (auto simp: valCopy_def heap_keeps_refl)

fun listCopy :: "('a \<Rightarrow> heap \<Rightarrow> 'a \<times> heap) \<Rightarrow> 'a list \<Rightarrow> heap \<Rightarrow> 'a list \<times> heap" where
  "listCopy copy [] h = ([], h)"
| "listCopy copy (x # xs) h =
     (case copy x h of (y, h1) \<Rightarrow> (case listCopy copy xs h1 of (ys, h2) \<Rightarrow> (y # ys, h2)))"

lemma pair_copier:
  assumes "deep_copier c1 r1 f1" and "deep_copier c2 r2 f2"
  shows "deep_copier (\<lambda>(x, y) h. case c1 x h of (x', h1) \<Rightarrow> (case c2 y h1 of (y', h2) \<Rightarrow> ((x', y'), h2)))
    (\<lambda>h (x, y). (r1 h x, r2 h y)) (\<lambda>h (x, y). f1 h x \<union> f2 h y)"
proof (unfold_locales, goal_cases)
  case (1 h p h')
  then show ?case
    using deep_copier.frame [OF assms(1), of h "fst p" h'] deep_copier.frame [OF assms(2), of h "snd p" h']
    by (auto split: prod.splits)
next
  case (2 h p q h2)
  obtain x y where p: "p = (x, y)" by fastforce
  obtain x' h1 where x: "c1 x h = (x', h1)" by fastforce
  from 2 p x obtain y' where y: "c2 y h1 = (y', h2)" and q: "q = (x', y')" by (auto split: prod.splits)
  have f: "f1 h x \<subseteq> dom (hp_cells h)" "f2 h y \<subseteq> dom (hp_cells h)" using 2(2) by (auto simp: p)
  have a: "heap_keeps h h1" "r1 h1 x' = r1 h x" "f1 h1 x' \<subseteq> dom (hp_cells h1) - dom (hp_cells h)"
    using deep_copier.copied [OF assms(1) 2(1) f(1) x] by auto
  have b: "heap_keeps h h2" "heap_keeps h1 h2" "r2 h2 y' = r2 h y" "f2 h2 y' \<subseteq> dom (hp_cells h2) - dom (hp_cells h)"
    using deep_copier.copied_later [OF assms(2) a(1) f(2) y] by auto
  have "r1 h2 x' = r1 h x" "f1 h2 x' \<subseteq> dom (hp_cells h2) - dom (hp_cells h)"
    using deep_copier.frame_ext [OF assms(1) b(2), of x'] a by auto
  with b show ?case by (auto simp: p q)
qed

lemma list_copier:
  assumes "deep_copier c r f"
  shows "deep_copier (listCopy c) (\<lambda>h xs. map (r h) xs) (\<lambda>h xs. \<Union>x \<in> set xs. f h x)"
proof (unfold_locales, goal_cases)
  case (1 h xs h')
  then have "r h' x = r h x \<and> f h' x = f h x" if "x \<in> set xs" for x
    using that by (intro deep_copier.frame [OF assms]) auto
  then show ?case by auto
next
  case (2 h xs ys h')
  then show ?case
  proof (induction xs arbitrary: h ys)
    case Nil
    then show ?case by (auto simp: heap_keeps_refl)
  next
    case (Cons x xs)
    obtain y h1 where y: "c x h = (y, h1)" by fastforce
    from Cons.prems(3) y obtain zs where z: "listCopy c xs h1 = (zs, h')" "ys = y # zs" by (auto split: prod.splits)
    have fx: "f h x \<subseteq> dom (hp_cells h)" and fs: "\<forall>z \<in> set xs. f h z \<subseteq> dom (hp_cells h)" using Cons.prems(2) by auto
    have a: "heap_keeps h h1" "r h1 y = r h x" "f h1 y \<subseteq> dom (hp_cells h1) - dom (hp_cells h)"
      using deep_copier.copied [OF assms Cons.prems(1) fx y] by auto
    have s: "\<forall>z \<in> set xs. r h1 z = r h z \<and> f h1 z \<subseteq> dom (hp_cells h1)"
      using deep_copier.frame_ext [OF assms a(1)] fs by blast
    have b: "heap_keeps h1 h'" "map (r h') zs = map (r h1) xs"
      "(\<Union>z \<in> set zs. f h' z) \<subseteq> dom (hp_cells h') - dom (hp_cells h1)"
      using Cons.IH [OF heap_keeps_ok [OF a(1)] _ z(1)] s by blast+
    have "r h' y = r h x" "f h' y \<subseteq> dom (hp_cells h') - dom (hp_cells h)"
      using deep_copier.frame_ext [OF assms b(1), of y] a by auto
    moreover have "map (r h1) xs = map (r h) xs" using s by simp
    moreover have "(\<Union>z \<in> set zs. f h' z) \<subseteq> dom (hp_cells h') - dom (hp_cells h)"
      using b(3) heap_keeps_dom [OF a(1)] by blast
    ultimately show ?case
      using b heap_keeps_trans [OF a(1) b(1)] by (simp add: z(2))
  qed
qed

text \<open>
  A pointer or slice field: nil stays nil, and otherwise a new cell gets the copy of the content. The code makes the
  slice before it copies the elements into it; here the cell is written once, with the copied elements.
\<close>

definition boxCopy ::
  "('v \<Rightarrow> cell) \<Rightarrow> (cell \<Rightarrow> 'v option) \<Rightarrow> ('v \<Rightarrow> heap \<Rightarrow> 'v \<times> heap) \<Rightarrow> addr option \<Rightarrow> heap \<Rightarrow> addr option \<times> heap" where
  "boxCopy con get copy p h =
     (case p of
        None \<Rightarrow> (None, h)
      | Some a \<Rightarrow>
          (case load get h a of
             None \<Rightarrow> (None, h)
           | Some v \<Rightarrow>
               (case copy v h of (v', h1) \<Rightarrow> (case allocCell (con v') h1 of (a', h2) \<Rightarrow> (Some a', h2)))))"

definition readBox :: "(cell \<Rightarrow> 'v option) \<Rightarrow> (heap \<Rightarrow> 'v \<Rightarrow> 'b) \<Rightarrow> heap \<Rightarrow> addr option \<Rightarrow> 'b option" where
  "readBox get rd h p = (case p of None \<Rightarrow> None | Some a \<Rightarrow> map_option (rd h) (load get h a))"

definition footBox :: "(cell \<Rightarrow> 'v option) \<Rightarrow> (heap \<Rightarrow> 'v \<Rightarrow> addr set) \<Rightarrow> heap \<Rightarrow> addr option \<Rightarrow> addr set" where
  "footBox get ft h p =
     (case p of
        None \<Rightarrow> {}
      | Some a \<Rightarrow> insert a (case load get h a of None \<Rightarrow> {} | Some v \<Rightarrow> ft h v))"

lemma box_copier:
  assumes c: "deep_copier c r f" and get: "\<And>v. get (con v) = Some v"
  shows "deep_copier (boxCopy con get c) (readBox get r) (footBox get f)"
proof (unfold_locales, goal_cases)
  case (1 h p h')
  show ?case
  proof (cases p)
    case None
    then show ?thesis by (simp add: readBox_def footBox_def)
  next
    case (Some a)
    with 1 have l: "load get h' a = load get h a" by (simp add: load_def footBox_def)
    show ?thesis
    proof (cases "load get h a")
      case None
      with Some l show ?thesis by (simp add: readBox_def footBox_def)
    next
      case (Some v)
      with 1 \<open>p = Some a\<close> have "\<forall>a \<in> f h v. hp_cells h' a = hp_cells h a" by (simp add: footBox_def)
      from deep_copier.frame [OF c this] Some \<open>p = Some a\<close> l show ?thesis
        by (simp add: readBox_def footBox_def)
    qed
  qed
next
  case (2 h p q h')
  show ?case
  proof (cases "\<exists>a v. p = Some a \<and> load get h a = Some v")
    case False
    with 2 show ?thesis
      by (auto simp: boxCopy_def readBox_def footBox_def heap_keeps_refl split: option.splits)
  next
    case True
    then obtain a v where p: "p = Some a" "load get h a = Some v" by blast
    obtain v' h1 where v: "c v h = (v', h1)" by fastforce
    obtain a' where al: "allocCell (con v') h1 = (a', h')" and q: "q = Some a'"
      using 2 p v by (auto simp: boxCopy_def split: prod.splits)
    have "f h v \<subseteq> dom (hp_cells h)" using 2(2) p by (simp add: footBox_def)
    from deep_copier.copied [OF c 2(1) this v]
    have k: "heap_keeps h h1" "r h1 v' = r h v" "f h1 v' \<subseteq> dom (hp_cells h1) - dom (hp_cells h)" by auto
    note alloc = allocCell_ext [OF heap_keeps_ok [OF k(1)] al]
    have n: "r h' v' = r h v" "f h' v' \<subseteq> dom (hp_cells h') - dom (hp_cells h)"
      using deep_copier.frame_ext [OF c alloc(1), of v'] k by auto
    have l: "load get h' a' = Some v'" using alloc(3) get by (simp add: load_def)
    have "a' \<in> dom (hp_cells h') - dom (hp_cells h)" using alloc(2,3) heap_keeps_dom [OF k(1)] by auto
    with n l p show ?thesis
      using heap_keeps_trans [OF k(1) alloc(1)] by (simp add: q readBox_def footBox_def)
  qed
qed

text \<open>A struct: the fields \<open>sel\<close> are copied and written with \<open>upd\<close>; the value is built from the others and the copy.\<close>

lemma field_copier:
  assumes "deep_copier c r f" and "\<And>x v. sel (upd v x) = v" and "\<And>x v. build (upd v x) = build x"
    and "\<And>x h. copy x h = (case c (sel x) h of (v, h') \<Rightarrow> (upd v x, h'))"
    and "\<And>x h. rd h x = build x (r h (sel x))" and "\<And>x h. ft h x = f h (sel x)"
  shows "deep_copier copy rd ft"
proof (unfold_locales, goal_cases)
  case (1 h x h')
  then show ?case using deep_copier.frame [OF assms(1), of h "sel x" h'] by (simp add: assms(5,6))
next
  case (2 h x y h')
  then obtain v where "c (sel x) h = (v, h')" "y = upd v x" by (auto simp: assms(4) split: prod.splits)
  with deep_copier.copied [OF assms(1) 2(1), of "sel x" v h'] 2(2) show ?case by (simp add: assms(2,3,5,6))
qed

subsection \<open>The generated functions\<close>

record DeepCopyDeps =
  dd_ObjectMeta :: "hObjectMeta \<Rightarrow> heap \<Rightarrow> hObjectMeta \<times> heap"
  dd_ListMeta :: "hListMeta \<Rightarrow> heap \<Rightarrow> hListMeta \<times> heap"
  dd_ResourceRequirements :: "hResources \<Rightarrow> heap \<Rightarrow> hResources \<times> heap"
  dd_Time :: "addr option \<Rightarrow> heap \<Rightarrow> addr option \<times> heap"
  dd_Condition :: "Condition \<Rightarrow> Condition"

text \<open>\<open>DeepCopy\<close>: nil for nil, and otherwise a new struct that \<open>DeepCopyInto\<close> fills.\<close>

definition newCopy :: "('a \<Rightarrow> heap \<Rightarrow> 'a \<times> heap) \<Rightarrow> 'a option \<Rightarrow> heap \<Rightarrow> 'a option \<times> heap" where
  "newCopy into p h =
     (case p of None \<Rightarrow> (None, h) | Some x \<Rightarrow> (case into x h of (y, h') \<Rightarrow> (Some y, h')))"

definition copyConditions :: "DeepCopyDeps \<Rightarrow> addr option \<Rightarrow> heap \<Rightarrow> addr option \<times> heap" where
  "copyConditions D = boxCopy CConditions getConditions (listCopy (valCopy (dd_Condition D)))"

definition copySources :: "addr option \<Rightarrow> heap \<Rightarrow> addr option \<times> heap" where
  "copySources = boxCopy CSources getSources (valCopy (\<lambda>xs. xs))"

definition copyInt32 :: "addr option \<Rightarrow> heap \<Rightarrow> addr option \<times> heap" where
  "copyInt32 = boxCopy CInt32 getInt32 (valCopy (\<lambda>x. x))"

definition copyString :: "addr option \<Rightarrow> heap \<Rightarrow> addr option \<times> heap" where
  "copyString = boxCopy CString getString (valCopy (\<lambda>x. x))"

definition SecRulesSpec_DeepCopyInto :: "SecRulesSpec \<Rightarrow> heap \<Rightarrow> SecRulesSpec \<times> heap" where
  "SecRulesSpec_DeepCopyInto src h = (src, h)"

definition SecRulesSpec_DeepCopy :: "SecRulesSpec option \<Rightarrow> heap \<Rightarrow> SecRulesSpec option \<times> heap" where
  "SecRulesSpec_DeepCopy = newCopy SecRulesSpec_DeepCopyInto"

definition ClusterSecRulesSpec_DeepCopyInto :: "ClusterSecRulesSpec \<Rightarrow> heap \<Rightarrow> ClusterSecRulesSpec \<times> heap" where
  "ClusterSecRulesSpec_DeepCopyInto src h = (src, h)"

definition ClusterSecRulesSpec_DeepCopy :: "ClusterSecRulesSpec option \<Rightarrow> heap \<Rightarrow> ClusterSecRulesSpec option \<times> heap" where
  "ClusterSecRulesSpec_DeepCopy = newCopy ClusterSecRulesSpec_DeepCopyInto"

definition ListenerConfig_DeepCopyInto :: "ListenerConfig \<Rightarrow> heap \<Rightarrow> ListenerConfig \<times> heap" where
  "ListenerConfig_DeepCopyInto src h = (src, h)"

definition ListenerConfig_DeepCopy :: "ListenerConfig option \<Rightarrow> heap \<Rightarrow> ListenerConfig option \<times> heap" where
  "ListenerConfig_DeepCopy = newCopy ListenerConfig_DeepCopyInto"

definition UpstreamConfig_DeepCopyInto :: "UpstreamConfig \<Rightarrow> heap \<Rightarrow> UpstreamConfig \<times> heap" where
  "UpstreamConfig_DeepCopyInto src h = (src, h)"

definition UpstreamConfig_DeepCopy :: "UpstreamConfig option \<Rightarrow> heap \<Rightarrow> UpstreamConfig option \<times> heap" where
  "UpstreamConfig_DeepCopy = newCopy UpstreamConfig_DeepCopyInto"

definition SourceRef_DeepCopyInto :: "SourceRef \<Rightarrow> heap \<Rightarrow> SourceRef \<times> heap" where
  "SourceRef_DeepCopyInto src h = (src, h)"

definition SourceRef_DeepCopy :: "SourceRef option \<Rightarrow> heap \<Rightarrow> SourceRef option \<times> heap" where
  "SourceRef_DeepCopy = newCopy SourceRef_DeepCopyInto"

definition SecRulesStatus_DeepCopyInto :: "DeepCopyDeps \<Rightarrow> hSecRulesStatus \<Rightarrow> heap \<Rightarrow> hSecRulesStatus \<times> heap" where
  "SecRulesStatus_DeepCopyInto D src h =
     (let out = src in
      case copyConditions D (hsrt_Conditions src) h of (conds, h1) \<Rightarrow> (out\<lparr>hsrt_Conditions := conds\<rparr>, h1))"

definition SecRulesStatus_DeepCopy :: "DeepCopyDeps \<Rightarrow> hSecRulesStatus option \<Rightarrow> heap \<Rightarrow> hSecRulesStatus option \<times> heap" where
  "SecRulesStatus_DeepCopy D = newCopy (SecRulesStatus_DeepCopyInto D)"

definition SecRules_DeepCopyInto :: "DeepCopyDeps \<Rightarrow> hSecRules \<Rightarrow> heap \<Rightarrow> hSecRules \<times> heap" where
  "SecRules_DeepCopyInto D src h =
     (let out = src\<lparr>hsr_TypeMeta := hsr_TypeMeta src\<rparr> in
      case dd_ObjectMeta D (hsr_Meta src) h of
        (m, h1) \<Rightarrow>
     (let out = out\<lparr>hsr_Meta := m, hsr_Spec := hsr_Spec src\<rparr> in
      case SecRulesStatus_DeepCopyInto D (hsr_Status src) h1 of
        (st, h2) \<Rightarrow> (out\<lparr>hsr_Status := st\<rparr>, h2)))"

definition SecRules_DeepCopy :: "DeepCopyDeps \<Rightarrow> hSecRules option \<Rightarrow> heap \<Rightarrow> hSecRules option \<times> heap" where
  "SecRules_DeepCopy D = newCopy (SecRules_DeepCopyInto D)"

definition ClusterSecRulesStatus_DeepCopyInto :: "DeepCopyDeps \<Rightarrow> hClusterSecRulesStatus \<Rightarrow> heap \<Rightarrow> hClusterSecRulesStatus \<times> heap" where
  "ClusterSecRulesStatus_DeepCopyInto D src h =
     (let out = src in
      case copyConditions D (hcsrt_Conditions src) h of (conds, h1) \<Rightarrow> (out\<lparr>hcsrt_Conditions := conds\<rparr>, h1))"

definition ClusterSecRulesStatus_DeepCopy :: "DeepCopyDeps \<Rightarrow> hClusterSecRulesStatus option \<Rightarrow> heap \<Rightarrow> hClusterSecRulesStatus option \<times> heap" where
  "ClusterSecRulesStatus_DeepCopy D = newCopy (ClusterSecRulesStatus_DeepCopyInto D)"

definition ClusterSecRules_DeepCopyInto :: "DeepCopyDeps \<Rightarrow> hClusterSecRules \<Rightarrow> heap \<Rightarrow> hClusterSecRules \<times> heap" where
  "ClusterSecRules_DeepCopyInto D src h =
     (let out = src\<lparr>hcsr_TypeMeta := hcsr_TypeMeta src\<rparr> in
      case dd_ObjectMeta D (hcsr_Meta src) h of
        (m, h1) \<Rightarrow>
     (let out = out\<lparr>hcsr_Meta := m, hcsr_Spec := hcsr_Spec src\<rparr> in
      case ClusterSecRulesStatus_DeepCopyInto D (hcsr_Status src) h1 of
        (st, h2) \<Rightarrow> (out\<lparr>hcsr_Status := st\<rparr>, h2)))"

definition ClusterSecRules_DeepCopy :: "DeepCopyDeps \<Rightarrow> hClusterSecRules option \<Rightarrow> heap \<Rightarrow> hClusterSecRules option \<times> heap" where
  "ClusterSecRules_DeepCopy D = newCopy (ClusterSecRules_DeepCopyInto D)"

definition RuleSetSpec_DeepCopyInto :: "hRuleSetSpec \<Rightarrow> heap \<Rightarrow> hRuleSetSpec \<times> heap" where
  "RuleSetSpec_DeepCopyInto src h =
     (let out = src in
      case copySources (hrss_Sources src) h of (srcs, h1) \<Rightarrow> (out\<lparr>hrss_Sources := srcs\<rparr>, h1))"

definition RuleSetSpec_DeepCopy :: "hRuleSetSpec option \<Rightarrow> heap \<Rightarrow> hRuleSetSpec option \<times> heap" where
  "RuleSetSpec_DeepCopy = newCopy RuleSetSpec_DeepCopyInto"

definition RuleSetStatus_DeepCopyInto :: "DeepCopyDeps \<Rightarrow> hRuleSetStatus \<Rightarrow> heap \<Rightarrow> hRuleSetStatus \<times> heap" where
  "RuleSetStatus_DeepCopyInto D src h =
     (let out = src in
      case copyConditions D (hrst_Conditions src) h of
        (conds, h1) \<Rightarrow>
     (let out = out\<lparr>hrst_Conditions := conds\<rparr> in
      case dd_Time D (hrst_LastCompiledAt src) h1 of
        (t, h2) \<Rightarrow> (out\<lparr>hrst_LastCompiledAt := t\<rparr>, h2)))"

definition RuleSetStatus_DeepCopy :: "DeepCopyDeps \<Rightarrow> hRuleSetStatus option \<Rightarrow> heap \<Rightarrow> hRuleSetStatus option \<times> heap" where
  "RuleSetStatus_DeepCopy D = newCopy (RuleSetStatus_DeepCopyInto D)"

definition RuleSet_DeepCopyInto :: "DeepCopyDeps \<Rightarrow> hRuleSet \<Rightarrow> heap \<Rightarrow> hRuleSet \<times> heap" where
  "RuleSet_DeepCopyInto D src h =
     (let out = src\<lparr>hrs_TypeMeta := hrs_TypeMeta src\<rparr> in
      case dd_ObjectMeta D (hrs_Meta src) h of
        (m, h1) \<Rightarrow>
     (let out = out\<lparr>hrs_Meta := m\<rparr> in
      case RuleSetSpec_DeepCopyInto (hrs_Spec src) h1 of
        (sp, h2) \<Rightarrow>
     (let out = out\<lparr>hrs_Spec := sp\<rparr> in
      case RuleSetStatus_DeepCopyInto D (hrs_Status src) h2 of
        (st, h3) \<Rightarrow> (out\<lparr>hrs_Status := st\<rparr>, h3))))"

definition RuleSet_DeepCopy :: "DeepCopyDeps \<Rightarrow> hRuleSet option \<Rightarrow> heap \<Rightarrow> hRuleSet option \<times> heap" where
  "RuleSet_DeepCopy D = newCopy (RuleSet_DeepCopyInto D)"

definition EngineSpec_DeepCopyInto :: "DeepCopyDeps \<Rightarrow> hEngineSpec \<Rightarrow> heap \<Rightarrow> hEngineSpec \<times> heap" where
  "EngineSpec_DeepCopyInto D src h =
     (let out = src\<lparr>hes_RuleSetRef := hes_RuleSetRef src\<rparr> in
      case copyInt32 (hes_Replicas src) h of
        (n, h1) \<Rightarrow>
     (let out = out\<lparr>hes_Replicas := n\<rparr> in
      case copyString (hes_Image src) h1 of
        (i, h2) \<Rightarrow>
     (let out = out\<lparr>hes_Image := i, hes_Listener := hes_Listener src, hes_Upstream := hes_Upstream src\<rparr> in
      case dd_ResourceRequirements D (hes_Resources src) h2 of
        (r, h3) \<Rightarrow> (out\<lparr>hes_Resources := r\<rparr>, h3))))"

definition EngineSpec_DeepCopy :: "DeepCopyDeps \<Rightarrow> hEngineSpec option \<Rightarrow> heap \<Rightarrow> hEngineSpec option \<times> heap" where
  "EngineSpec_DeepCopy D = newCopy (EngineSpec_DeepCopyInto D)"

definition EngineStatus_DeepCopyInto :: "DeepCopyDeps \<Rightarrow> hEngineStatus \<Rightarrow> heap \<Rightarrow> hEngineStatus \<times> heap" where
  "EngineStatus_DeepCopyInto D src h =
     (let out = src in
      case copyConditions D (het_Conditions src) h of (conds, h1) \<Rightarrow> (out\<lparr>het_Conditions := conds\<rparr>, h1))"

definition EngineStatus_DeepCopy :: "DeepCopyDeps \<Rightarrow> hEngineStatus option \<Rightarrow> heap \<Rightarrow> hEngineStatus option \<times> heap" where
  "EngineStatus_DeepCopy D = newCopy (EngineStatus_DeepCopyInto D)"

definition Engine_DeepCopyInto :: "DeepCopyDeps \<Rightarrow> hEngine \<Rightarrow> heap \<Rightarrow> hEngine \<times> heap" where
  "Engine_DeepCopyInto D src h =
     (let out = src\<lparr>hen_TypeMeta := hen_TypeMeta src\<rparr> in
      case dd_ObjectMeta D (hen_Meta src) h of
        (m, h1) \<Rightarrow>
     (let out = out\<lparr>hen_Meta := m\<rparr> in
      case EngineSpec_DeepCopyInto D (hen_Spec src) h1 of
        (sp, h2) \<Rightarrow>
     (let out = out\<lparr>hen_Spec := sp\<rparr> in
      case EngineStatus_DeepCopyInto D (hen_Status src) h2 of
        (st, h3) \<Rightarrow> (out\<lparr>hen_Status := st\<rparr>, h3))))"

definition Engine_DeepCopy :: "DeepCopyDeps \<Rightarrow> hEngine option \<Rightarrow> heap \<Rightarrow> hEngine option \<times> heap" where
  "Engine_DeepCopy D = newCopy (Engine_DeepCopyInto D)"

definition SecRulesList_DeepCopyInto :: "DeepCopyDeps \<Rightarrow> hList \<Rightarrow> heap \<Rightarrow> hList \<times> heap" where
  "SecRulesList_DeepCopyInto D src h =
     (let out = src\<lparr>hli_TypeMeta := hli_TypeMeta src\<rparr> in
      case dd_ListMeta D (hli_ListMeta src) h of
        (m, h1) \<Rightarrow>
     (let out = out\<lparr>hli_ListMeta := m\<rparr> in
      case boxCopy CSecRules getSecRulesItems (listCopy (SecRules_DeepCopyInto D)) (hli_Items src) h1 of
        (items, h2) \<Rightarrow> (out\<lparr>hli_Items := items\<rparr>, h2)))"

definition SecRulesList_DeepCopy :: "DeepCopyDeps \<Rightarrow> hList option \<Rightarrow> heap \<Rightarrow> hList option \<times> heap" where
  "SecRulesList_DeepCopy D = newCopy (SecRulesList_DeepCopyInto D)"

definition ClusterSecRulesList_DeepCopyInto :: "DeepCopyDeps \<Rightarrow> hList \<Rightarrow> heap \<Rightarrow> hList \<times> heap" where
  "ClusterSecRulesList_DeepCopyInto D src h =
     (let out = src\<lparr>hli_TypeMeta := hli_TypeMeta src\<rparr> in
      case dd_ListMeta D (hli_ListMeta src) h of
        (m, h1) \<Rightarrow>
     (let out = out\<lparr>hli_ListMeta := m\<rparr> in
      case boxCopy CClusterSecRules getClusterSecRulesItems (listCopy (ClusterSecRules_DeepCopyInto D)) (hli_Items src) h1 of
        (items, h2) \<Rightarrow> (out\<lparr>hli_Items := items\<rparr>, h2)))"

definition ClusterSecRulesList_DeepCopy :: "DeepCopyDeps \<Rightarrow> hList option \<Rightarrow> heap \<Rightarrow> hList option \<times> heap" where
  "ClusterSecRulesList_DeepCopy D = newCopy (ClusterSecRulesList_DeepCopyInto D)"

definition RuleSetList_DeepCopyInto :: "DeepCopyDeps \<Rightarrow> hList \<Rightarrow> heap \<Rightarrow> hList \<times> heap" where
  "RuleSetList_DeepCopyInto D src h =
     (let out = src\<lparr>hli_TypeMeta := hli_TypeMeta src\<rparr> in
      case dd_ListMeta D (hli_ListMeta src) h of
        (m, h1) \<Rightarrow>
     (let out = out\<lparr>hli_ListMeta := m\<rparr> in
      case boxCopy CRuleSets getRuleSetItems (listCopy (RuleSet_DeepCopyInto D)) (hli_Items src) h1 of
        (items, h2) \<Rightarrow> (out\<lparr>hli_Items := items\<rparr>, h2)))"

definition RuleSetList_DeepCopy :: "DeepCopyDeps \<Rightarrow> hList option \<Rightarrow> heap \<Rightarrow> hList option \<times> heap" where
  "RuleSetList_DeepCopy D = newCopy (RuleSetList_DeepCopyInto D)"

definition EngineList_DeepCopyInto :: "DeepCopyDeps \<Rightarrow> hList \<Rightarrow> heap \<Rightarrow> hList \<times> heap" where
  "EngineList_DeepCopyInto D src h =
     (let out = src\<lparr>hli_TypeMeta := hli_TypeMeta src\<rparr> in
      case dd_ListMeta D (hli_ListMeta src) h of
        (m, h1) \<Rightarrow>
     (let out = out\<lparr>hli_ListMeta := m\<rparr> in
      case boxCopy CEngines getEngineItems (listCopy (Engine_DeepCopyInto D)) (hli_Items src) h1 of
        (items, h2) \<Rightarrow> (out\<lparr>hli_Items := items\<rparr>, h2)))"

definition EngineList_DeepCopy :: "DeepCopyDeps \<Rightarrow> hList option \<Rightarrow> heap \<Rightarrow> hList option \<times> heap" where
  "EngineList_DeepCopy D = newCopy (EngineList_DeepCopyInto D)"

text \<open>\<open>runtime.Object\<close>: an interface value, \<open>None\<close> when it is nil.\<close>

datatype Object = OSecRules hSecRules | OClusterSecRules hClusterSecRules | ORuleSet hRuleSet | OEngine hEngine
  | OSecRulesList hList | OClusterSecRulesList hList | ORuleSetList hList | OEngineList hList

definition asObject :: "('a \<Rightarrow> Object) \<Rightarrow> 'a option \<times> heap \<Rightarrow> Object option \<times> heap" where
  "asObject con r = (case r of (Some c, h) \<Rightarrow> (Some (con c), h) | (None, h) \<Rightarrow> (None, h))"

definition SecRules_DeepCopyObject :: "DeepCopyDeps \<Rightarrow> hSecRules option \<Rightarrow> heap \<Rightarrow> Object option \<times> heap" where
  "SecRules_DeepCopyObject D p h = asObject OSecRules (SecRules_DeepCopy D p h)"

definition ClusterSecRules_DeepCopyObject :: "DeepCopyDeps \<Rightarrow> hClusterSecRules option \<Rightarrow> heap \<Rightarrow> Object option \<times> heap" where
  "ClusterSecRules_DeepCopyObject D p h = asObject OClusterSecRules (ClusterSecRules_DeepCopy D p h)"

definition RuleSet_DeepCopyObject :: "DeepCopyDeps \<Rightarrow> hRuleSet option \<Rightarrow> heap \<Rightarrow> Object option \<times> heap" where
  "RuleSet_DeepCopyObject D p h = asObject ORuleSet (RuleSet_DeepCopy D p h)"

definition Engine_DeepCopyObject :: "DeepCopyDeps \<Rightarrow> hEngine option \<Rightarrow> heap \<Rightarrow> Object option \<times> heap" where
  "Engine_DeepCopyObject D p h = asObject OEngine (Engine_DeepCopy D p h)"

definition SecRulesList_DeepCopyObject :: "DeepCopyDeps \<Rightarrow> hList option \<Rightarrow> heap \<Rightarrow> Object option \<times> heap" where
  "SecRulesList_DeepCopyObject D p h = asObject OSecRulesList (SecRulesList_DeepCopy D p h)"

definition ClusterSecRulesList_DeepCopyObject :: "DeepCopyDeps \<Rightarrow> hList option \<Rightarrow> heap \<Rightarrow> Object option \<times> heap" where
  "ClusterSecRulesList_DeepCopyObject D p h = asObject OClusterSecRulesList (ClusterSecRulesList_DeepCopy D p h)"

definition RuleSetList_DeepCopyObject :: "DeepCopyDeps \<Rightarrow> hList option \<Rightarrow> heap \<Rightarrow> Object option \<times> heap" where
  "RuleSetList_DeepCopyObject D p h = asObject ORuleSetList (RuleSetList_DeepCopy D p h)"

definition EngineList_DeepCopyObject :: "DeepCopyDeps \<Rightarrow> hList option \<Rightarrow> heap \<Rightarrow> Object option \<times> heap" where
  "EngineList_DeepCopyObject D p h = asObject OEngineList (EngineList_DeepCopy D p h)"

text \<open>The method call on an interface value.\<close>

fun DeepCopyObject :: "DeepCopyDeps \<Rightarrow> Object \<Rightarrow> heap \<Rightarrow> Object option \<times> heap" where
  "DeepCopyObject D (OSecRules x) h = SecRules_DeepCopyObject D (Some x) h"
| "DeepCopyObject D (OClusterSecRules x) h = ClusterSecRules_DeepCopyObject D (Some x) h"
| "DeepCopyObject D (ORuleSet x) h = RuleSet_DeepCopyObject D (Some x) h"
| "DeepCopyObject D (OEngine x) h = Engine_DeepCopyObject D (Some x) h"
| "DeepCopyObject D (OSecRulesList x) h = SecRulesList_DeepCopyObject D (Some x) h"
| "DeepCopyObject D (OClusterSecRulesList x) h = ClusterSecRulesList_DeepCopyObject D (Some x) h"
| "DeepCopyObject D (ORuleSetList x) h = RuleSetList_DeepCopyObject D (Some x) h"
| "DeepCopyObject D (OEngineList x) h = EngineList_DeepCopyObject D (Some x) h"

subsection \<open>Values and cells\<close>

definition slice :: "'a list option \<Rightarrow> 'a list" where
  "slice v = (case v of None \<Rightarrow> [] | Some xs \<Rightarrow> xs)"

definition goMap :: "(string \<rightharpoonup> string) option \<Rightarrow> string \<rightharpoonup> string" where
  "goMap v = (case v of None \<Rightarrow> Map.empty | Some m \<Rightarrow> m)"

text \<open>A field whose content has no addresses.\<close>

abbreviation readFlat :: "(cell \<Rightarrow> 'v option) \<Rightarrow> heap \<Rightarrow> addr option \<Rightarrow> 'v option" where
  "readFlat get \<equiv> readBox get (\<lambda>h x. x)"

abbreviation footFlat :: "(cell \<Rightarrow> 'v option) \<Rightarrow> heap \<Rightarrow> addr option \<Rightarrow> addr set" where
  "footFlat get \<equiv> footBox get (\<lambda>h x. {})"

definition readMeta :: "heap \<Rightarrow> hObjectMeta \<Rightarrow> ObjectMeta" where
  "readMeta h m =
     \<lparr>om_Name = hm_Name m, om_Namespace = hm_Namespace m, om_Generation = hm_Generation m,
      om_ResourceVersion = hm_ResourceVersion m, om_Labels = goMap (readFlat getMap h (hm_Labels m)),
      om_Annotations = goMap (readFlat getMap h (hm_Annotations m)),
      om_OwnerReferences = slice (readFlat getOwners h (hm_OwnerReferences m))\<rparr>"

definition footMeta :: "heap \<Rightarrow> hObjectMeta \<Rightarrow> addr set" where
  "footMeta h m = footFlat getMap h (hm_Labels m) \<union> (footFlat getMap h (hm_Annotations m)
     \<union> footFlat getOwners h (hm_OwnerReferences m))"

definition readListMeta :: "heap \<Rightarrow> hListMeta \<Rightarrow> string \<times> string \<times> int option" where
  "readListMeta h m = (hl_ResourceVersion m, hl_Continue m, readFlat getInt64 h (hl_RemainingItemCount m))"

definition footListMeta :: "heap \<Rightarrow> hListMeta \<Rightarrow> addr set" where
  "footListMeta h m = footFlat getInt64 h (hl_RemainingItemCount m)"

definition readResources :: "heap \<Rightarrow> hResources \<Rightarrow> ResourceRequirements" where
  "readResources h r = \<lparr>rr_Limits = goMap (readFlat getMap h (hr_Limits r)), rr_Requests = goMap (readFlat getMap h (hr_Requests r))\<rparr>"

definition footResources :: "heap \<Rightarrow> hResources \<Rightarrow> addr set" where
  "footResources h r = footFlat getMap h (hr_Limits r) \<union> footFlat getMap h (hr_Requests r)"

text \<open>The copies of the Kubernetes types are deep, and the copy of a condition is equal to it.\<close>

definition deepcopy_laws :: "DeepCopyDeps \<Rightarrow> bool" where
  "deepcopy_laws D \<longleftrightarrow>
     deep_copier (dd_ObjectMeta D) readMeta footMeta \<and> deep_copier (dd_ListMeta D) readListMeta footListMeta \<and>
     deep_copier (dd_ResourceRequirements D) readResources footResources \<and>
     deep_copier (dd_Time D) (readFlat getTime) (footFlat getTime) \<and> (\<forall>c. dd_Condition D c = c)"

definition readSecRulesStatus :: "heap \<Rightarrow> hSecRulesStatus \<Rightarrow> SecRulesStatus" where
  "readSecRulesStatus h s = \<lparr>srt_Conditions = slice (readFlat getConditions h (hsrt_Conditions s)), srt_ObservedGeneration = hsrt_ObservedGeneration s, srt_ParsedRuleCount = hsrt_ParsedRuleCount s\<rparr>"

definition footSecRulesStatus :: "heap \<Rightarrow> hSecRulesStatus \<Rightarrow> addr set" where
  "footSecRulesStatus h s = footFlat getConditions h (hsrt_Conditions s)"

definition readSecRules :: "heap \<Rightarrow> hSecRules \<Rightarrow> TypeMeta \<times> SecRules" where
  "readSecRules h x = (hsr_TypeMeta x,
     \<lparr>sr_Meta = readMeta h (hsr_Meta x), sr_Spec = hsr_Spec x, sr_Status = readSecRulesStatus h (hsr_Status x)\<rparr>)"

definition footSecRules :: "heap \<Rightarrow> hSecRules \<Rightarrow> addr set" where
  "footSecRules h x = footMeta h (hsr_Meta x) \<union> footSecRulesStatus h (hsr_Status x)"

definition readClusterSecRulesStatus :: "heap \<Rightarrow> hClusterSecRulesStatus \<Rightarrow> ClusterSecRulesStatus" where
  "readClusterSecRulesStatus h s = \<lparr>csrt_Conditions = slice (readFlat getConditions h (hcsrt_Conditions s)), csrt_ObservedGeneration = hcsrt_ObservedGeneration s, csrt_ParsedRuleCount = hcsrt_ParsedRuleCount s\<rparr>"

definition footClusterSecRulesStatus :: "heap \<Rightarrow> hClusterSecRulesStatus \<Rightarrow> addr set" where
  "footClusterSecRulesStatus h s = footFlat getConditions h (hcsrt_Conditions s)"

definition readClusterSecRules :: "heap \<Rightarrow> hClusterSecRules \<Rightarrow> TypeMeta \<times> ClusterSecRules" where
  "readClusterSecRules h x = (hcsr_TypeMeta x,
     \<lparr>csr_Meta = readMeta h (hcsr_Meta x), csr_Spec = hcsr_Spec x, csr_Status = readClusterSecRulesStatus h (hcsr_Status x)\<rparr>)"

definition footClusterSecRules :: "heap \<Rightarrow> hClusterSecRules \<Rightarrow> addr set" where
  "footClusterSecRules h x = footMeta h (hcsr_Meta x) \<union> footClusterSecRulesStatus h (hcsr_Status x)"

definition readRuleSetSpec :: "heap \<Rightarrow> hRuleSetSpec \<Rightarrow> RuleSetSpec" where
  "readRuleSetSpec h s = \<lparr>rss_Sources = slice (readFlat getSources h (hrss_Sources s))\<rparr>"

definition footRuleSetSpec :: "heap \<Rightarrow> hRuleSetSpec \<Rightarrow> addr set" where
  "footRuleSetSpec h s = footFlat getSources h (hrss_Sources s)"

definition readRuleSetStatus :: "heap \<Rightarrow> hRuleSetStatus \<Rightarrow> RuleSetStatus" where
  "readRuleSetStatus h s =
     \<lparr>rst_Conditions = slice (readFlat getConditions h (hrst_Conditions s)),
      rst_ObservedGeneration = hrst_ObservedGeneration s, rst_CompiledHash = hrst_CompiledHash s,
      rst_RuleCount = hrst_RuleCount s, rst_LastCompiledAt = readFlat getTime h (hrst_LastCompiledAt s)\<rparr>"

definition footRuleSetStatus :: "heap \<Rightarrow> hRuleSetStatus \<Rightarrow> addr set" where
  "footRuleSetStatus h s = footFlat getConditions h (hrst_Conditions s) \<union> footFlat getTime h (hrst_LastCompiledAt s)"

definition readRuleSet :: "heap \<Rightarrow> hRuleSet \<Rightarrow> TypeMeta \<times> RuleSet" where
  "readRuleSet h x = (hrs_TypeMeta x,
     \<lparr>rs_Meta = readMeta h (hrs_Meta x), rs_Spec = readRuleSetSpec h (hrs_Spec x),
      rs_Status = readRuleSetStatus h (hrs_Status x)\<rparr>)"

definition footRuleSet :: "heap \<Rightarrow> hRuleSet \<Rightarrow> addr set" where
  "footRuleSet h x = footMeta h (hrs_Meta x) \<union> (footRuleSetSpec h (hrs_Spec x) \<union> footRuleSetStatus h (hrs_Status x))"

definition readEngineSpec :: "heap \<Rightarrow> hEngineSpec \<Rightarrow> EngineSpec" where
  "readEngineSpec h s =
     \<lparr>es_Type = hes_Type s, es_RuleSetRef = hes_RuleSetRef s, es_Replicas = readFlat getInt32 h (hes_Replicas s),
      es_Image = readFlat getString h (hes_Image s), es_Listener = hes_Listener s, es_Upstream = hes_Upstream s,
      es_Mode = hes_Mode s, es_Resources = readResources h (hes_Resources s)\<rparr>"

definition footEngineSpec :: "heap \<Rightarrow> hEngineSpec \<Rightarrow> addr set" where
  "footEngineSpec h s = footFlat getInt32 h (hes_Replicas s) \<union>
     (footFlat getString h (hes_Image s) \<union> footResources h (hes_Resources s))"

definition readEngineStatus :: "heap \<Rightarrow> hEngineStatus \<Rightarrow> EngineStatus" where
  "readEngineStatus h s = \<lparr>et_Conditions = slice (readFlat getConditions h (het_Conditions s)), et_ObservedGeneration = het_ObservedGeneration s, et_ReadyReplicas = het_ReadyReplicas s, et_AppliedRuleSetHash = het_AppliedRuleSetHash s\<rparr>"

definition footEngineStatus :: "heap \<Rightarrow> hEngineStatus \<Rightarrow> addr set" where
  "footEngineStatus h s = footFlat getConditions h (het_Conditions s)"

definition readEngine :: "heap \<Rightarrow> hEngine \<Rightarrow> TypeMeta \<times> Engine" where
  "readEngine h x = (hen_TypeMeta x,
     \<lparr>en_Meta = readMeta h (hen_Meta x), en_Spec = readEngineSpec h (hen_Spec x),
      en_Status = readEngineStatus h (hen_Status x)\<rparr>)"

definition footEngine :: "heap \<Rightarrow> hEngine \<Rightarrow> addr set" where
  "footEngine h x = footMeta h (hen_Meta x) \<union> (footEngineSpec h (hen_Spec x) \<union> footEngineStatus h (hen_Status x))"

type_synonym 'o listValue = "TypeMeta \<times> (string \<times> string \<times> int option) \<times> 'o list"

definition readList :: "(cell \<Rightarrow> 'h list option) \<Rightarrow> (heap \<Rightarrow> 'h \<Rightarrow> 'o) \<Rightarrow> heap \<Rightarrow> hList \<Rightarrow> 'o listValue" where
  "readList get rd h l =
     (hli_TypeMeta l, readListMeta h (hli_ListMeta l), slice (readBox get (\<lambda>h xs. map (rd h) xs) h (hli_Items l)))"

definition footList :: "(cell \<Rightarrow> 'h list option) \<Rightarrow> (heap \<Rightarrow> 'h \<Rightarrow> addr set) \<Rightarrow> heap \<Rightarrow> hList \<Rightarrow> addr set" where
  "footList get ft h l =
     footListMeta h (hli_ListMeta l) \<union> footBox get (\<lambda>h xs. \<Union>x \<in> set xs. ft h x) h (hli_Items l)"

datatype objectValue = VSecRules "TypeMeta \<times> SecRules" | VClusterSecRules "TypeMeta \<times> ClusterSecRules"
  | VRuleSet "TypeMeta \<times> RuleSet" | VEngine "TypeMeta \<times> Engine"
  | VSecRulesList "(TypeMeta \<times> SecRules) listValue" | VClusterSecRulesList "(TypeMeta \<times> ClusterSecRules) listValue"
  | VRuleSetList "(TypeMeta \<times> RuleSet) listValue" | VEngineList "(TypeMeta \<times> Engine) listValue"

fun readObject :: "heap \<Rightarrow> Object \<Rightarrow> objectValue" where
  "readObject h (OSecRules x) = VSecRules (readSecRules h x)"
| "readObject h (OClusterSecRules x) = VClusterSecRules (readClusterSecRules h x)"
| "readObject h (ORuleSet x) = VRuleSet (readRuleSet h x)"
| "readObject h (OEngine x) = VEngine (readEngine h x)"
| "readObject h (OSecRulesList x) = VSecRulesList (readList getSecRulesItems readSecRules h x)"
| "readObject h (OClusterSecRulesList x) = VClusterSecRulesList (readList getClusterSecRulesItems readClusterSecRules h x)"
| "readObject h (ORuleSetList x) = VRuleSetList (readList getRuleSetItems readRuleSet h x)"
| "readObject h (OEngineList x) = VEngineList (readList getEngineItems readEngine h x)"

fun footObject :: "heap \<Rightarrow> Object \<Rightarrow> addr set" where
  "footObject h (OSecRules x) = footSecRules h x"
| "footObject h (OClusterSecRules x) = footClusterSecRules h x"
| "footObject h (ORuleSet x) = footRuleSet h x"
| "footObject h (OEngine x) = footEngine h x"
| "footObject h (OSecRulesList x) = footList getSecRulesItems footSecRules h x"
| "footObject h (OClusterSecRulesList x) = footList getClusterSecRulesItems footClusterSecRules h x"
| "footObject h (ORuleSetList x) = footList getRuleSetItems footRuleSet h x"
| "footObject h (OEngineList x) = footList getEngineItems footEngine h x"

subsection \<open>Every type is copied deeply\<close>

lemmas flat_box = box_copier [OF val_copier]

lemma conditions_copier:
  assumes "\<forall>c. dd_Condition D c = c"
  shows "deep_copier (copyConditions D) (readFlat getConditions) (footFlat getConditions)"
  using box_copier [OF list_copier [OF val_copier [of "dd_Condition D"]], of getConditions CConditions] assms
  by (simp add: copyConditions_def)

interpretation sources_copy: deep_copier copySources "readFlat getSources" "footFlat getSources"
  unfolding copySources_def by (rule flat_box) simp_all

interpretation int32_copy: deep_copier copyInt32 "readFlat getInt32" "footFlat getInt32"
  unfolding copyInt32_def by (rule flat_box) simp_all

interpretation string_copy: deep_copier copyString "readFlat getString" "footFlat getString"
  unfolding copyString_def by (rule flat_box) simp_all

interpretation ruleset_spec_copy: deep_copier RuleSetSpec_DeepCopyInto readRuleSetSpec footRuleSetSpec
  by (rule field_copier [OF sources_copy.deep_copier_axioms, where sel = hrss_Sources and upd = "\<lambda>v x. x\<lparr>hrss_Sources := v\<rparr>"
        and build = "\<lambda>x v. \<lparr>rss_Sources = slice v\<rparr>"])
    (simp_all add: RuleSetSpec_DeepCopyInto_def readRuleSetSpec_def footRuleSetSpec_def)

lemma secrules_status_copier:
  assumes "deepcopy_laws D"
  shows "deep_copier (SecRulesStatus_DeepCopyInto D) readSecRulesStatus footSecRulesStatus"
proof -
  have c: "deep_copier (copyConditions D) (readFlat getConditions) (footFlat getConditions)"
    using assms by (simp add: deepcopy_laws_def conditions_copier)
  show ?thesis
    by (rule field_copier [OF c, where sel = hsrt_Conditions and upd = "\<lambda>v x. x\<lparr>hsrt_Conditions := v\<rparr>"
          and build = "\<lambda>x v. \<lparr>srt_Conditions = slice v, srt_ObservedGeneration = hsrt_ObservedGeneration x, srt_ParsedRuleCount = hsrt_ParsedRuleCount x\<rparr>"])
      (simp_all add: SecRulesStatus_DeepCopyInto_def readSecRulesStatus_def footSecRulesStatus_def)
qed

lemma clustersecrules_status_copier:
  assumes "deepcopy_laws D"
  shows "deep_copier (ClusterSecRulesStatus_DeepCopyInto D) readClusterSecRulesStatus footClusterSecRulesStatus"
proof -
  have c: "deep_copier (copyConditions D) (readFlat getConditions) (footFlat getConditions)"
    using assms by (simp add: deepcopy_laws_def conditions_copier)
  show ?thesis
    by (rule field_copier [OF c, where sel = hcsrt_Conditions and upd = "\<lambda>v x. x\<lparr>hcsrt_Conditions := v\<rparr>"
          and build = "\<lambda>x v. \<lparr>csrt_Conditions = slice v, csrt_ObservedGeneration = hcsrt_ObservedGeneration x, csrt_ParsedRuleCount = hcsrt_ParsedRuleCount x\<rparr>"])
      (simp_all add: ClusterSecRulesStatus_DeepCopyInto_def readClusterSecRulesStatus_def footClusterSecRulesStatus_def)
qed

lemma engine_status_copier:
  assumes "deepcopy_laws D"
  shows "deep_copier (EngineStatus_DeepCopyInto D) readEngineStatus footEngineStatus"
proof -
  have c: "deep_copier (copyConditions D) (readFlat getConditions) (footFlat getConditions)"
    using assms by (simp add: deepcopy_laws_def conditions_copier)
  show ?thesis
    by (rule field_copier [OF c, where sel = het_Conditions and upd = "\<lambda>v x. x\<lparr>het_Conditions := v\<rparr>"
          and build = "\<lambda>x v. \<lparr>et_Conditions = slice v, et_ObservedGeneration = het_ObservedGeneration x, et_ReadyReplicas = het_ReadyReplicas x, et_AppliedRuleSetHash = het_AppliedRuleSetHash x\<rparr>"])
      (simp_all add: EngineStatus_DeepCopyInto_def readEngineStatus_def footEngineStatus_def)
qed

lemma secrules_copier:
  assumes "deepcopy_laws D"
  shows "deep_copier (SecRules_DeepCopyInto D) readSecRules footSecRules"
proof -
  have m: "deep_copier (dd_ObjectMeta D) readMeta footMeta" using assms by (simp add: deepcopy_laws_def)
  show ?thesis
    by (rule field_copier [OF pair_copier [OF m secrules_status_copier [OF assms]],
          where sel = "\<lambda>x. (hsr_Meta x, hsr_Status x)" and upd = "\<lambda>(m, s) x. x\<lparr>hsr_Meta := m, hsr_Status := s\<rparr>"
          and build = "\<lambda>x (m, s). (hsr_TypeMeta x, \<lparr>sr_Meta = m, sr_Spec = hsr_Spec x, sr_Status = s\<rparr>)"])
      (auto simp: SecRules_DeepCopyInto_def readSecRules_def footSecRules_def Let_def split: prod.splits)
qed

lemma clustersecrules_copier:
  assumes "deepcopy_laws D"
  shows "deep_copier (ClusterSecRules_DeepCopyInto D) readClusterSecRules footClusterSecRules"
proof -
  have m: "deep_copier (dd_ObjectMeta D) readMeta footMeta" using assms by (simp add: deepcopy_laws_def)
  show ?thesis
    by (rule field_copier [OF pair_copier [OF m clustersecrules_status_copier [OF assms]],
          where sel = "\<lambda>x. (hcsr_Meta x, hcsr_Status x)" and upd = "\<lambda>(m, s) x. x\<lparr>hcsr_Meta := m, hcsr_Status := s\<rparr>"
          and build = "\<lambda>x (m, s). (hcsr_TypeMeta x, \<lparr>csr_Meta = m, csr_Spec = hcsr_Spec x, csr_Status = s\<rparr>)"])
      (auto simp: ClusterSecRules_DeepCopyInto_def readClusterSecRules_def footClusterSecRules_def Let_def split: prod.splits)
qed

lemma ruleset_status_copier:
  assumes "deepcopy_laws D"
  shows "deep_copier (RuleSetStatus_DeepCopyInto D) readRuleSetStatus footRuleSetStatus"
proof -
  have c: "deep_copier (copyConditions D) (readFlat getConditions) (footFlat getConditions)"
    and t: "deep_copier (dd_Time D) (readFlat getTime) (footFlat getTime)"
    using assms by (simp_all add: deepcopy_laws_def conditions_copier)
  show ?thesis
    by (rule field_copier [OF pair_copier [OF c t],
          where sel = "\<lambda>x. (hrst_Conditions x, hrst_LastCompiledAt x)"
          and upd = "\<lambda>(c, t) x. x\<lparr>hrst_Conditions := c, hrst_LastCompiledAt := t\<rparr>"
          and build = "\<lambda>x (c, t). \<lparr>rst_Conditions = slice c, rst_ObservedGeneration = hrst_ObservedGeneration x,
            rst_CompiledHash = hrst_CompiledHash x, rst_RuleCount = hrst_RuleCount x, rst_LastCompiledAt = t\<rparr>"])
      (auto simp: RuleSetStatus_DeepCopyInto_def readRuleSetStatus_def footRuleSetStatus_def Let_def split: prod.splits)
qed

lemma ruleset_copier:
  assumes "deepcopy_laws D"
  shows "deep_copier (RuleSet_DeepCopyInto D) readRuleSet footRuleSet"
proof -
  have m: "deep_copier (dd_ObjectMeta D) readMeta footMeta" using assms by (simp add: deepcopy_laws_def)
  show ?thesis
    by (rule field_copier [OF pair_copier [OF m pair_copier [OF ruleset_spec_copy.deep_copier_axioms ruleset_status_copier [OF assms]]],
          where sel = "\<lambda>x. (hrs_Meta x, hrs_Spec x, hrs_Status x)"
          and upd = "\<lambda>(m, p, s) x. x\<lparr>hrs_Meta := m, hrs_Spec := p, hrs_Status := s\<rparr>"
          and build = "\<lambda>x (m, p, s). (hrs_TypeMeta x, \<lparr>rs_Meta = m, rs_Spec = p, rs_Status = s\<rparr>)"])
      (auto simp: RuleSet_DeepCopyInto_def readRuleSet_def footRuleSet_def Let_def split: prod.splits)
qed

lemma engine_spec_copier:
  assumes "deepcopy_laws D"
  shows "deep_copier (EngineSpec_DeepCopyInto D) readEngineSpec footEngineSpec"
proof -
  have r: "deep_copier (dd_ResourceRequirements D) readResources footResources" using assms by (simp add: deepcopy_laws_def)
  show ?thesis
    by (rule field_copier [OF pair_copier [OF int32_copy.deep_copier_axioms pair_copier [OF string_copy.deep_copier_axioms r]],
          where sel = "\<lambda>x. (hes_Replicas x, hes_Image x, hes_Resources x)"
          and upd = "\<lambda>(n, i, r) x. x\<lparr>hes_Replicas := n, hes_Image := i, hes_Resources := r\<rparr>"
          and build = "\<lambda>x (n, i, r). \<lparr>es_Type = hes_Type x, es_RuleSetRef = hes_RuleSetRef x, es_Replicas = n, es_Image = i,
            es_Listener = hes_Listener x, es_Upstream = hes_Upstream x, es_Mode = hes_Mode x, es_Resources = r\<rparr>"])
      (auto simp: EngineSpec_DeepCopyInto_def readEngineSpec_def footEngineSpec_def Let_def split: prod.splits)
qed

lemma engine_copier:
  assumes "deepcopy_laws D"
  shows "deep_copier (Engine_DeepCopyInto D) readEngine footEngine"
proof -
  have m: "deep_copier (dd_ObjectMeta D) readMeta footMeta" using assms by (simp add: deepcopy_laws_def)
  show ?thesis
    by (rule field_copier [OF pair_copier [OF m pair_copier [OF engine_spec_copier [OF assms] engine_status_copier [OF assms]]],
          where sel = "\<lambda>x. (hen_Meta x, hen_Spec x, hen_Status x)"
          and upd = "\<lambda>(m, p, s) x. x\<lparr>hen_Meta := m, hen_Spec := p, hen_Status := s\<rparr>"
          and build = "\<lambda>x (m, p, s). (hen_TypeMeta x, \<lparr>en_Meta = m, en_Spec = p, en_Status = s\<rparr>)"])
      (auto simp: Engine_DeepCopyInto_def readEngine_def footEngine_def Let_def split: prod.splits)
qed

text \<open>The four lists share one proof.\<close>

lemma items_copier:
  assumes "deepcopy_laws D" and "deep_copier into rd ft" and "\<And>v. get (con v) = Some v"
    and "\<And>src h. listInto src h =
      (let out = src\<lparr>hli_TypeMeta := hli_TypeMeta src\<rparr> in
       case dd_ListMeta D (hli_ListMeta src) h of
         (m, h1) \<Rightarrow>
      (let out = out\<lparr>hli_ListMeta := m\<rparr> in
       case boxCopy con get (listCopy into) (hli_Items src) h1 of
         (items, h2) \<Rightarrow> (out\<lparr>hli_Items := items\<rparr>, h2)))"
  shows "deep_copier listInto (readList get rd) (footList get ft)"
proof -
  have m: "deep_copier (dd_ListMeta D) readListMeta footListMeta" using assms(1) by (simp add: deepcopy_laws_def)
  note b = box_copier [OF list_copier [OF assms(2)] assms(3)]
  show ?thesis
    by (rule field_copier [OF pair_copier [OF m b], where sel = "\<lambda>x. (hli_ListMeta x, hli_Items x)"
          and upd = "\<lambda>(m, i) x. x\<lparr>hli_ListMeta := m, hli_Items := i\<rparr>" and build = "\<lambda>x (m, i). (hli_TypeMeta x, m, slice i)"])
      (auto simp: assms(4) readList_def footList_def Let_def split: prod.splits)
qed

lemma list_copiers:
  assumes "deepcopy_laws D"
  shows "deep_copier (SecRulesList_DeepCopyInto D) (readList getSecRulesItems readSecRules) (footList getSecRulesItems footSecRules)"
    and "deep_copier (ClusterSecRulesList_DeepCopyInto D) (readList getClusterSecRulesItems readClusterSecRules)
      (footList getClusterSecRulesItems footClusterSecRules)"
    and "deep_copier (RuleSetList_DeepCopyInto D) (readList getRuleSetItems readRuleSet) (footList getRuleSetItems footRuleSet)"
    and "deep_copier (EngineList_DeepCopyInto D) (readList getEngineItems readEngine) (footList getEngineItems footEngine)"
  by (intro items_copier [OF assms secrules_copier [OF assms], where con = CSecRules]
        items_copier [OF assms clustersecrules_copier [OF assms], where con = CClusterSecRules]
        items_copier [OF assms ruleset_copier [OF assms], where con = CRuleSets]
        items_copier [OF assms engine_copier [OF assms], where con = CEngines];
      simp add: SecRulesList_DeepCopyInto_def ClusterSecRulesList_DeepCopyInto_def RuleSetList_DeepCopyInto_def
        EngineList_DeepCopyInto_def)+

lemmas copy_object_defs = SecRules_DeepCopyObject_def ClusterSecRules_DeepCopyObject_def RuleSet_DeepCopyObject_def
  Engine_DeepCopyObject_def SecRulesList_DeepCopyObject_def ClusterSecRulesList_DeepCopyObject_def
  RuleSetList_DeepCopyObject_def EngineList_DeepCopyObject_def SecRules_DeepCopy_def ClusterSecRules_DeepCopy_def
  RuleSet_DeepCopy_def Engine_DeepCopy_def SecRulesList_DeepCopy_def ClusterSecRulesList_DeepCopy_def
  RuleSetList_DeepCopy_def EngineList_DeepCopy_def

text \<open>A copy in an interface value: nil exactly for nil, and otherwise what \<open>DeepCopyInto\<close> wrote.\<close>

lemma asObject_newCopy:
  "asObject con (newCopy into (Some x) h) = (Some (con (fst (into x h))), snd (into x h))"
  "asObject con (newCopy into None h) = (None, h)"
  by (simp_all add: asObject_def newCopy_def split: prod.splits)

text \<open>What \<open>isolated\<close> says of one copy, for the reader \<open>rd\<close> and the cells \<open>ft\<close>.\<close>

definition isolatedCopy ::
  "(heap \<Rightarrow> 'a \<Rightarrow> 'b) \<Rightarrow> (heap \<Rightarrow> 'a \<Rightarrow> addr set) \<Rightarrow> 'a \<Rightarrow> heap \<Rightarrow> 'a \<Rightarrow> heap \<Rightarrow> bool" where
  "isolatedCopy rd ft x h y h' \<longleftrightarrow>
     rd h' y = rd h x \<and> rd h' x = rd h x \<and> ft h' y \<inter> ft h' x = {} \<and>
     (\<forall>h2. (\<forall>a. a \<notin> ft h' y \<longrightarrow> hp_cells h2 a = hp_cells h' a) \<longrightarrow> rd h2 x = rd h x) \<and>
     (\<forall>h2. (\<forall>a. a \<notin> ft h' x \<longrightarrow> hp_cells h2 a = hp_cells h' a) \<longrightarrow> rd h2 y = rd h x)"

lemma copier_isolates:
  "deep_copier c rd ft \<Longrightarrow> heap_ok h \<Longrightarrow> ft h x \<subseteq> dom (hp_cells h) \<Longrightarrow>
   isolatedCopy rd ft x h (fst (c x h)) (snd (c x h))"
  unfolding isolatedCopy_def by (rule deep_copier.isolated) simp_all

lemma isolatedCopy_object:
  assumes "isolatedCopy rd ft x h y h'" and "\<And>h z. readObject h (con z) = v (rd h z)" and "\<And>h z. footObject h (con z) = ft h z"
  shows "isolatedCopy readObject footObject (con x) h (con y) h'"
  using assms(1) by (simp add: isolatedCopy_def assms(2,3))

lemma object_case:
  assumes "deep_copier into rd ft" and "heap_ok h" and "footObject h (con x) \<subseteq> dom (hp_cells h)"
    and "\<And>h z. readObject h (con z) = v (rd h z)" and "\<And>h z. footObject h (con z) = ft h z"
    and "DeepCopyObject D (con x) h = asObject con (newCopy into (Some x) h)"
  shows "\<exists>copy h'. DeepCopyObject D (con x) h = (Some copy, h') \<and> isolatedCopy readObject footObject (con x) h copy h'"
  using isolatedCopy_object [OF copier_isolates [OF assms(1,2)] assms(4,5), of x] assms(3)
  by (simp add: assms(5,6) asObject_newCopy)

lemma object_copier:
  assumes "deepcopy_laws D" and "heap_ok h" and "footObject h obj \<subseteq> dom (hp_cells h)"
  shows "\<exists>copy h'. DeepCopyObject D obj h = (Some copy, h') \<and> isolatedCopy readObject footObject obj h copy h'"
proof (cases obj)
  case (OSecRules x)
  show ?thesis using assms(3) unfolding OSecRules
    by (intro object_case [OF secrules_copier [OF assms(1)] assms(2)]) (simp_all add: copy_object_defs)
next
  case (OClusterSecRules x)
  show ?thesis using assms(3) unfolding OClusterSecRules
    by (intro object_case [OF clustersecrules_copier [OF assms(1)] assms(2)]) (simp_all add: copy_object_defs)
next
  case (ORuleSet x)
  show ?thesis using assms(3) unfolding ORuleSet
    by (intro object_case [OF ruleset_copier [OF assms(1)] assms(2)]) (simp_all add: copy_object_defs)
next
  case (OEngine x)
  show ?thesis using assms(3) unfolding OEngine
    by (intro object_case [OF engine_copier [OF assms(1)] assms(2)]) (simp_all add: copy_object_defs)
next
  case (OSecRulesList x)
  show ?thesis using assms(3) unfolding OSecRulesList
    by (intro object_case [OF list_copiers(1) [OF assms(1)] assms(2)]) (simp_all add: copy_object_defs)
next
  case (OClusterSecRulesList x)
  show ?thesis using assms(3) unfolding OClusterSecRulesList
    by (intro object_case [OF list_copiers(2) [OF assms(1)] assms(2)]) (simp_all add: copy_object_defs)
next
  case (ORuleSetList x)
  show ?thesis using assms(3) unfolding ORuleSetList
    by (intro object_case [OF list_copiers(3) [OF assms(1)] assms(2)]) (simp_all add: copy_object_defs)
next
  case (OEngineList x)
  show ?thesis using assms(3) unfolding OEngineList
    by (intro object_case [OF list_copiers(4) [OF assms(1)] assms(2)]) (simp_all add: copy_object_defs)
qed

subsection \<open>Properties\<close>

text \<open>
  C26. A deep copy is independent: the copy of any of the eight registered object types, lists included, is not nil,
  reads like its original, and shares no cell with it, so that whatever is written afterwards to the cells of the
  copy, the original keeps its value, and whatever is written to the cells of the original, the copy keeps it. This
  is what lets a reconciler edit \<open>statusPatch := obj.DeepCopy()\<close> in place and compare it with the object it read.
\<close>

theorem deep_copy_independent:
  assumes "deepcopy_laws D" and "heap_ok h" and "footObject h obj \<subseteq> dom (hp_cells h)"
  shows "\<exists>copy h'. DeepCopyObject D obj h = (Some copy, h') \<and>
    readObject h' copy = readObject h obj \<and> readObject h' obj = readObject h obj \<and>
    footObject h' copy \<inter> footObject h' obj = {} \<and>
    (\<forall>h2. (\<forall>a. a \<notin> footObject h' copy \<longrightarrow> hp_cells h2 a = hp_cells h' a) \<longrightarrow> readObject h2 obj = readObject h obj) \<and>
    (\<forall>h2. (\<forall>a. a \<notin> footObject h' obj \<longrightarrow> hp_cells h2 a = hp_cells h' a) \<longrightarrow> readObject h2 copy = readObject h obj)"
proof -
  obtain copy h' where "DeepCopyObject D obj h = (Some copy, h')" "isolatedCopy readObject footObject obj h copy h'"
    using object_copier [OF assms] by blast
  then show ?thesis unfolding isolatedCopy_def by blast
qed

text \<open>A nil receiver gives a nil interface, not an interface that holds a nil pointer.\<close>

theorem deep_copy_object_nil:
  "SecRules_DeepCopyObject D None h = (None, h)" "ClusterSecRules_DeepCopyObject D None h = (None, h)"
  "RuleSet_DeepCopyObject D None h = (None, h)" "Engine_DeepCopyObject D None h = (None, h)"
  "SecRulesList_DeepCopyObject D None h = (None, h)" "ClusterSecRulesList_DeepCopyObject D None h = (None, h)"
  "RuleSetList_DeepCopyObject D None h = (None, h)" "EngineList_DeepCopyObject D None h = (None, h)"
  by (simp_all add: copy_object_defs asObject_newCopy)

text \<open>The plain assignment \<open>*out = *in\<close> would not do: it shares the conditions, and a write shows in both.\<close>

theorem assignment_shares_conditions:
  assumes "hrst_Conditions (hrs_Status x) = Some a"
  shows "rst_Conditions (rs_Status (snd (readRuleSet (h\<lparr>hp_cells := (hp_cells h)(a \<mapsto> CConditions cs)\<rparr>) x))) = cs"
  using assms by (simp add: readRuleSet_def readRuleSetStatus_def readBox_def load_def slice_def)

subsection \<open>Witnesses\<close>

definition demoCopies :: DeepCopyDeps where
  "demoCopies =
     \<lparr>dd_ObjectMeta = (\<lambda>m h.
        case boxCopy CMap getMap (valCopy (\<lambda>x. x)) (hm_Labels m) h of (l, h1) \<Rightarrow>
        (case boxCopy CMap getMap (valCopy (\<lambda>x. x)) (hm_Annotations m) h1 of (a, h2) \<Rightarrow>
        (case boxCopy COwners getOwners (valCopy (\<lambda>x. x)) (hm_OwnerReferences m) h2 of (w, h3) \<Rightarrow>
           (m\<lparr>hm_Labels := l, hm_Annotations := a, hm_OwnerReferences := w\<rparr>, h3)))),
      dd_ListMeta = (\<lambda>m h.
        case boxCopy CInt64 getInt64 (valCopy (\<lambda>x. x)) (hl_RemainingItemCount m) h of (n, h1) \<Rightarrow>
          (m\<lparr>hl_RemainingItemCount := n\<rparr>, h1)),
      dd_ResourceRequirements = (\<lambda>r h.
        case boxCopy CMap getMap (valCopy (\<lambda>x. x)) (hr_Limits r) h of (l, h1) \<Rightarrow>
        (case boxCopy CMap getMap (valCopy (\<lambda>x. x)) (hr_Requests r) h1 of (q, h2) \<Rightarrow>
           (r\<lparr>hr_Limits := l, hr_Requests := q\<rparr>, h2))),
      dd_Time = boxCopy CTime getTime (valCopy (\<lambda>x. x)),
      dd_Condition = (\<lambda>c. c)\<rparr>"

lemma demo_meta_copier: "deep_copier (dd_ObjectMeta demoCopies) readMeta footMeta"
proof -
  have m: "deep_copier (boxCopy CMap getMap (valCopy (\<lambda>x. x))) (readFlat getMap) (footFlat getMap)"
    and w: "deep_copier (boxCopy COwners getOwners (valCopy (\<lambda>x. x))) (readFlat getOwners) (footFlat getOwners)"
    by (rule flat_box; simp)+
  show ?thesis
    by (rule field_copier [OF pair_copier [OF m pair_copier [OF m w]],
          where sel = "\<lambda>x. (hm_Labels x, hm_Annotations x, hm_OwnerReferences x)"
          and upd = "\<lambda>(l, a, w) x. x\<lparr>hm_Labels := l, hm_Annotations := a, hm_OwnerReferences := w\<rparr>"
          and build = "\<lambda>x (l, a, w). \<lparr>om_Name = hm_Name x, om_Namespace = hm_Namespace x, om_Generation = hm_Generation x,
            om_ResourceVersion = hm_ResourceVersion x, om_Labels = goMap l, om_Annotations = goMap a,
            om_OwnerReferences = slice w\<rparr>"])
      (auto simp: demoCopies_def readMeta_def footMeta_def split: prod.splits)
qed

lemma demo_copy_laws: "deepcopy_laws demoCopies"
proof -
  have m: "deep_copier (boxCopy CMap getMap (valCopy (\<lambda>x. x))) (readFlat getMap) (footFlat getMap)"
    and t: "deep_copier (boxCopy CTime getTime (valCopy (\<lambda>x. x))) (readFlat getTime) (footFlat getTime)"
    and n: "deep_copier (boxCopy CInt64 getInt64 (valCopy (\<lambda>x. x))) (readFlat getInt64) (footFlat getInt64)"
    by (rule flat_box; simp)+
  have "deep_copier (dd_ResourceRequirements demoCopies) readResources footResources"
    by (rule field_copier [OF pair_copier [OF m m], where sel = "\<lambda>x. (hr_Limits x, hr_Requests x)"
          and upd = "\<lambda>(l, q) x. x\<lparr>hr_Limits := l, hr_Requests := q\<rparr>"
          and build = "\<lambda>x (l, q). \<lparr>rr_Limits = goMap l, rr_Requests = goMap q\<rparr>"])
      (auto simp: demoCopies_def readResources_def footResources_def split: prod.splits)
  moreover have "deep_copier (dd_ListMeta demoCopies) readListMeta footListMeta"
    by (rule field_copier [OF n, where sel = hl_RemainingItemCount and upd = "\<lambda>v x. x\<lparr>hl_RemainingItemCount := v\<rparr>"
          and build = "\<lambda>x v. (hl_ResourceVersion x, hl_Continue x, v)"])
      (auto simp: demoCopies_def readListMeta_def footListMeta_def)
  ultimately show ?thesis
    using demo_meta_copier t by (simp add: deepcopy_laws_def demoCopies_def)
qed

definition demoHeap :: heap where
  "demoHeap = \<lparr>hp_cells = [0 \<mapsto> CConditions [mkCondition ConditionReady ConditionTrue ReasonCompiled '''' 1]], hp_next = 1\<rparr>"

definition demoHRuleSet :: hRuleSet where
  "demoHRuleSet =
     \<lparr>hrs_TypeMeta = \<lparr>tm_Kind = ''RuleSet'', tm_APIVersion = ''waf.gtrfc.com/v1''\<rparr>,
      hrs_Meta = \<lparr>hm_Name = ''r'', hm_Namespace = ''ns'', hm_Generation = 1, hm_ResourceVersion = ''1'', hm_Labels = None,
        hm_Annotations = None, hm_OwnerReferences = None\<rparr>,
      hrs_Spec = \<lparr>hrss_Sources = None\<rparr>,
      hrs_Status = \<lparr>hrst_Conditions = Some 0, hrst_ObservedGeneration = 1, hrst_CompiledHash = ''h'', hrst_RuleCount = 1,
        hrst_LastCompiledAt = None\<rparr>\<rparr>"

lemma demo_foot: "footObject demoHeap (ORuleSet demoHRuleSet) = {0}"
  by (simp add: footRuleSet_def footMeta_def footRuleSetSpec_def footRuleSetStatus_def footBox_def load_def
      demoHRuleSet_def demoHeap_def)

theorem deep_copy_independent_witness:
  "\<exists>copy h'. DeepCopyObject demoCopies (ORuleSet demoHRuleSet) demoHeap = (Some copy, h') \<and>
     readObject h' copy = readObject demoHeap (ORuleSet demoHRuleSet) \<and>
     footObject h' copy \<inter> footObject h' (ORuleSet demoHRuleSet) = {}"
proof -
  have "heap_ok demoHeap" "footObject demoHeap (ORuleSet demoHRuleSet) \<subseteq> dom (hp_cells demoHeap)"
    by (simp_all only: demo_foot) (simp_all add: demoHeap_def heap_ok_def)
  from deep_copy_independent [OF demo_copy_laws this] show ?thesis by blast
qed

subsection \<open>Registration\<close>

text \<open>
  \<open>api/v1/groupversion_info.go\<close> and \<open>init\<close> of \<open>cmd/main.go\<close>. The scheme is a parameter: \<open>AddKnownTypes\<close> registers Go types
  under their names in a group and version, \<open>AddToGroupVersion\<close> the kinds that every group shares, and \<open>AddToScheme\<close> of a
  builder applies its functions in order up to the first error. A function that registers returns an error or nil.
\<close>

type_synonym 'sc schemeFunc = "'sc \<Rightarrow> string option \<times> 'sc"

record 'sc SchemeDeps =
  sm_AddKnownTypes :: "string \<times> string \<Rightarrow> string list \<Rightarrow> 'sc \<Rightarrow> 'sc"
  sm_AddToGroupVersion :: "string \<times> string \<Rightarrow> 'sc \<Rightarrow> 'sc"
  sm_Recognizes :: "'sc \<Rightarrow> string \<times> string \<Rightarrow> string \<Rightarrow> bool"
  sm_AddToScheme :: "'sc schemeFunc list \<Rightarrow> 'sc schemeFunc"

definition scheme_laws :: "'sc SchemeDeps \<Rightarrow> bool" where
  "scheme_laws S \<longleftrightarrow>
     (\<forall>gv kinds sc gv' k. sm_Recognizes S (sm_AddKnownTypes S gv kinds sc) gv' k \<longleftrightarrow>
        (gv' = gv \<and> k \<in> set kinds) \<or> sm_Recognizes S sc gv' k) \<and>
     (\<forall>gv sc gv' k. sm_Recognizes S sc gv' k \<longrightarrow> sm_Recognizes S (sm_AddToGroupVersion S gv sc) gv' k) \<and>
     (\<forall>sc. sm_AddToScheme S [] sc = (None, sc)) \<and>
     (\<forall>f fs sc. sm_AddToScheme S (f # fs) sc =
        (case f sc of (Some err, sc1) \<Rightarrow> (Some err, sc1) | (None, sc1) \<Rightarrow> sm_AddToScheme S fs sc1))"

definition SchemeGroupVersion :: "string \<times> string" where
  "SchemeGroupVersion = (''waf.gtrfc.com'', ''v1'')"

definition GroupVersion :: "string \<times> string" where
  "GroupVersion = SchemeGroupVersion"

definition addKnownTypes :: "'sc SchemeDeps \<Rightarrow> 'sc schemeFunc" where
  "addKnownTypes S scheme =
     (None, sm_AddToGroupVersion S SchemeGroupVersion
       (sm_AddKnownTypes S SchemeGroupVersion
          [''ClusterSecRules'', ''ClusterSecRulesList'', ''Engine'', ''EngineList'', ''RuleSet'', ''RuleSetList'',
           ''SecRules'', ''SecRulesList''] scheme))"

definition SchemeBuilder :: "'sc SchemeDeps \<Rightarrow> 'sc schemeFunc list" where
  "SchemeBuilder S = [addKnownTypes S]"

definition AddToScheme :: "'sc SchemeDeps \<Rightarrow> 'sc schemeFunc" where
  "AddToScheme S = sm_AddToScheme S (SchemeBuilder S)"

text \<open>
  \<open>init\<close> on the new scheme: first the types of Kubernetes, which \<open>clientgo\<close> registers, then those of the operator; an
  error makes \<open>utilruntime.Must\<close> panic, here \<open>Inl\<close>.
\<close>

definition operator_init :: "'sc SchemeDeps \<Rightarrow> 'sc schemeFunc \<Rightarrow> 'sc \<Rightarrow> 'sc result" where
  "operator_init S clientgo newScheme =
     (case clientgo newScheme of
        (Some err, sc1) \<Rightarrow> Inl err
      | (None, sc1) \<Rightarrow>
          (case AddToScheme S sc1 of (Some err, sc2) \<Rightarrow> Inl err | (None, sc2) \<Rightarrow> Inr sc2))"

fun kindOf :: "Object \<Rightarrow> string" where
  "kindOf (OSecRules x) = ''SecRules''"
| "kindOf (OClusterSecRules x) = ''ClusterSecRules''"
| "kindOf (ORuleSet x) = ''RuleSet''"
| "kindOf (OEngine x) = ''Engine''"
| "kindOf (OSecRulesList x) = ''SecRulesList''"
| "kindOf (OClusterSecRulesList x) = ''ClusterSecRulesList''"
| "kindOf (ORuleSetList x) = ''RuleSetList''"
| "kindOf (OEngineList x) = ''EngineList''"

lemma addKnownTypes_recognizes:
  assumes "scheme_laws S" and "addKnownTypes S sc = (err, sc')"
  shows "err = None \<and> sm_Recognizes S sc' SchemeGroupVersion (kindOf obj) \<and>
    (sm_Recognizes S sc gv k \<longrightarrow> sm_Recognizes S sc' gv k)"
proof -
  have "kindOf obj \<in> set [''ClusterSecRules'', ''ClusterSecRulesList'', ''Engine'', ''EngineList'', ''RuleSet'',
      ''RuleSetList'', ''SecRules'', ''SecRulesList'']"
    by (cases obj) simp_all
  moreover have "sm_Recognizes S sc' gv k" if "(gv = SchemeGroupVersion \<and> k \<in> set [''ClusterSecRules'', ''ClusterSecRulesList'',
      ''Engine'', ''EngineList'', ''RuleSet'', ''RuleSetList'', ''SecRules'', ''SecRulesList'']) \<or> sm_Recognizes S sc gv k" for gv k
    using assms that unfolding scheme_laws_def addKnownTypes_def by blast
  moreover have "err = None" using assms(2) by (simp add: addKnownTypes_def)
  ultimately show ?thesis by blast
qed

lemma operator_init_eq:
  assumes "scheme_laws S" and "clientgo sc = (None, sc1)"
  shows "operator_init S clientgo sc = Inr (snd (addKnownTypes S sc1))"
  using assms by (simp add: operator_init_def AddToScheme_def SchemeBuilder_def scheme_laws_def addKnownTypes_def)

text \<open>
  C30. Typing of the objects: when the types of Kubernetes were registered, \<open>init\<close> does not panic and leaves a scheme that
  recognises every type with a \<open>DeepCopyObject\<close> method as a kind of the group and version, and still everything that
  was registered before; the copy of an object is of the same kind, and a nil copy never reaches an interface value.
\<close>

theorem objects_registered_and_typed:
  assumes "scheme_laws S" and "clientgo newScheme = (None, sc1)"
  shows "\<exists>sc2. operator_init S clientgo newScheme = Inr sc2 \<and> sm_Recognizes S sc2 GroupVersion (kindOf obj) \<and>
    (\<forall>gv k. sm_Recognizes S sc1 gv k \<longrightarrow> sm_Recognizes S sc2 gv k) \<and>
    (\<exists>copy h'. DeepCopyObject D obj h = (Some copy, h') \<and> kindOf copy = kindOf obj)"
proof -
  have "\<exists>copy h'. DeepCopyObject D obj h = (Some copy, h') \<and> kindOf copy = kindOf obj"
    by (cases obj) (simp_all add: copy_object_defs asObject_newCopy)
  with addKnownTypes_recognizes [OF assms(1), of sc1 "fst (addKnownTypes S sc1)" "snd (addKnownTypes S sc1)"] show ?thesis
    by (simp add: operator_init_eq [where clientgo = clientgo, OF assms] GroupVersion_def)
qed

fun demoAddToScheme :: "'sc schemeFunc list \<Rightarrow> 'sc schemeFunc" where
  "demoAddToScheme [] sc = (None, sc)"
| "demoAddToScheme (f # fs) sc =
     (case f sc of (Some err, sc1) \<Rightarrow> (Some err, sc1) | (None, sc1) \<Rightarrow> demoAddToScheme fs sc1)"

definition demoScheme :: "((string \<times> string) \<times> string) set SchemeDeps" where
  "demoScheme =
     \<lparr>sm_AddKnownTypes = (\<lambda>gv kinds sc. sc \<union> Pair gv ` set kinds), sm_AddToGroupVersion = (\<lambda>gv sc. insert (gv, ''ListOptions'') sc),
      sm_Recognizes = (\<lambda>sc gv k. (gv, k) \<in> sc), sm_AddToScheme = demoAddToScheme\<rparr>"

lemma demo_scheme_laws: "scheme_laws demoScheme"
  unfolding scheme_laws_def demoScheme_def SchemeDeps.simps by auto

theorem objects_registered_and_typed_witness:
  "\<exists>sc2. operator_init demoScheme (\<lambda>sc. (None, insert ((''apps'', ''v1''), ''Deployment'') sc)) {} = Inr sc2 \<and>
     ((''waf.gtrfc.com'', ''v1''), ''RuleSet'') \<in> sc2 \<and> ((''apps'', ''v1''), ''Deployment'') \<in> sc2"
  using objects_registered_and_typed [OF demo_scheme_laws, of "\<lambda>sc. (None, insert ((''apps'', ''v1''), ''Deployment'') sc)" "{}"
      "{((''apps'', ''v1''), ''Deployment'')}" "ORuleSet demoHRuleSet"]
  by (auto simp: demoScheme_def GroupVersion_def SchemeGroupVersion_def)

end
