(* ===== verification/Spec2Isabelle.thy ===== *)
theory Spec2Isabelle
  imports Operator_Main Control_Plane Deep_Copy
begin

text \<open>
  A model of the Coraza operator and of the engines it runs, with the properties that make them correct.

  \<^bold>\<open>The program.\<close> Rule texts are custom resources (\<open>SecRules\<close>, \<open>ClusterSecRules\<close>); a \<open>RuleSet\<close> lists them in order and
  an \<open>Engine\<close> runs a set in front of an upstream. The operator compiles a set into one bundle, keeps it in an in-memory
  store, deploys the engines and streams bundles to them over gRPC with client certificates it issues itself. An engine
  inspects traffic with the Coraza library, as a reverse proxy and as an agent of HAProxy, and replaces its firewall
  whenever a bundle arrives.

  \<^bold>\<open>The theories and what they model\<close>, by files of \<open>src/\<close>:

  \<^item> \<open>Go_Prelude\<close>, \<open>Go_Flag\<close>, \<open>Sha256\<close>, \<open>Go_Json\<close>: strings, splitting, quoting, \<open>filepath\<close>, the command line flags,
    SHA-256, RFC 3339 and JSON of the Go library, and the generic lemmas.
  \<^item> \<open>Compiler\<close> (\<open>internal/compiler\<close>): recognition of directives and ids, \<open>Compile\<close>, \<open>CountRules\<close>. Lemmas: when it succeeds,
    what it returns, whom a conflict blames, and that the two counts agree.
  \<^item> \<open>Rulestore\<close> (\<open>internal/rulestore\<close>): the store with its channels of capacity one, as atomic operations with an invariant
    (\<open>store_step\<close>) and, for the section of \<open>Subscribe\<close> outside the lock, as interleaved steps (\<open>raceStep\<close>). Lemmas: with
    atomic operations subscribers see the latest bundle; with the real steps a \<open>Subscribe\<close> call that was overtaken can
    wait for ever, and a publisher can block on the channel of an overtaken subscriber with the lock held, until this
    subscriber reads, or for ever if it is leaving.
  \<^item> \<open>Api_Types\<close>, \<open>Deep_Copy\<close> (\<open>api/v1\<close>, \<open>init\<close> of \<open>cmd/main.go\<close>): the resources as values, their generated copies over an
    explicit heap, and the registration of their kinds. Lemmas: a copy reads like its original and shares nothing with
    it, which justifies that the reconcilers are modelled on values, and every copyable object is of a registered kind.
  \<^item> \<open>Kube\<close>, \<open>Source_Controllers\<close>, \<open>RuleSet_Controller\<close>, \<open>Engine_Assets\<close>, \<open>Engine_Controller\<close>, \<open>Watches\<close>
    (\<open>internal/controller\<close>, \<open>internal/engineassets\<close>): one function per reconcile over a world that each client call may
    change, the builders of the owned objects, and the registration with its watches. Lemmas: which status is written,
    that the store is changed last and with one digest, that a steady engine is left alone, and which events wake which
    objects.
  \<^item> \<open>Pki\<close>, \<open>Grpc_Server\<close> (\<open>internal/pki\<close>, \<open>internal/grpcserver\<close>): the authority, the interceptors, \<open>Subscribe\<close> and
    \<open>Enroll\<close>. Lemmas: persistence of the authority, which engine a certificate opens, what a stream carries.
  \<^item> \<open>Operator_Main\<close> (\<open>cmd/main.go\<close>): flags, bootstrap, wiring and the shutdown, with its goroutine, timer and
    select as a step relation. Lemmas: production streams are always authorised, one store is shared, the names of the
    server certificate, the exit codes and the bounded shutdown.
  \<^item> \<open>Engine_Config\<close>, \<open>Waf_Provider\<close>, \<open>Status_Page\<close>, \<open>Engine_Server\<close>, \<open>Grpc_Client\<close> (\<open>internal/enginepkg\<close>, \<open>cmd/engine\<close>):
    the environment of the engine, the provider with the order of its two atomic stores, the cache file, the text of the
    status page, the routes, \<open>Run\<close> with its goroutines as a step relation (\<open>env_step\<close> for what happens to the process,
    \<open>proc_step\<close> for what it does) and its bounded shutdown, enrolment with its files and the reconnect loop. Lemmas: a
    bad bundle leaves the last good firewall, the status page tells the state, why and when \<open>Run\<close> returns, what an
    enrolment leaves on disk and for which key, and that it is not renewed when it expires.
  \<^item> \<open>Coraza\<close>, \<open>Proxy\<close>, \<open>Spoa\<close>, \<open>Front_Ends\<close> (\<open>internal/enginepkg\<close>): the phases of the firewall library as a
    specification, the proxy and the agent that refine it, and both on a shared provider, with requests, messages and
    reloads in any order. Lemmas: every request is answered by the firewall that is active when it starts, and every
    message is counted once.
  \<^item> \<open>Control_Plane\<close>: the operator and its pods as one transition system over the functions above, with lost streams and
    restarts. Lemmas: the invariant of all reachable states, what a pod can be running, that it never goes back to an
    older bundle, that deliveries come to rest with every connected pod up to date, and that the digest in the status of
    a rule set is then the one its pods run.
  \<^item> This theory: the properties that span the components. A rule change reaches the running firewall, an edit
    wakes what it has to, a started engine reports the deployed digest, and a deployed engine gets its own stream.

  \<^bold>\<open>How code is translated.\<close> A struct is a record, an enumeration a datatype, a Go string a list of bytes, \<open>int32\<close> a 32-bit
  word, a time a number of seconds. A function that fails returns a sum with the text of its error on the left; a panic,
  a blocked send and a nil dereference are values of their own. Stateful code takes and returns its state; concurrent
  code (\<open>raceStep\<close>, \<open>run_step\<close>, \<open>shutdownGRPC_step\<close>) is a relation between single steps of its goroutines, so that its properties hold for every interleaving of them. The coarser relations \<open>store_step\<close> and \<open>sys_step\<close> interleave
  whole operations: a call on the store, a reconcile and the handling of a message are one step each, so they say nothing
  about a \<open>Subscribe\<close> that is overtaken between its lock and its send, which is the subject of \<open>raceStep\<close>, nor about two
  reconciles that overlap. Log statements and the measured durations are left out.

  \<^bold>\<open>Parameters.\<close> Code that is not in the repository is an argument: the Kubernetes client and its helpers (\<open>Kube\<close>),
  controller-runtime (\<open>Runtime\<close>, \<open>OperatorDeps\<close>, with the flags it and the logger register), cryptography and encodings (\<open>Crypto\<close>), the gRPC transport, the
  firewall (\<open>Coraza\<close>), the reverse proxy of the standard library, the copies of the Kubernetes types
  (\<open>DeepCopyDeps\<close>) and the scheme (\<open>SchemeDeps\<close>). What a property needs of them is a named predicate among its hypotheses (\<open>meta_laws\<close>, \<open>list_laws\<close>,
  \<open>deep_equal_laws\<close>, \<open>crypto_laws\<close>, \<open>predicate_laws\<close>, \<open>builder_laws\<close>, \<open>owner_laws\<close>, \<open>tls_peer_laws\<close>, \<open>deepcopy_laws\<close>,
  \<open>scheme_laws\<close>, \<open>select_law\<close>, \<open>clock_laws\<close>, \<open>expiry_law\<close>, \<open>enrols_at\<close>, \<open>csr_law\<close>),
  and each has a concrete instance on which the witnesses evaluate.

  \<^bold>\<open>Interfaces.\<close> Seven locales state what clients rely on: \<open>bundle_publisher\<close> (the store, for both publishing controllers),
  \<open>status_patcher\<close> and its extension \<open>source_controller\<close> (the status writers), \<open>identity_codec\<close> (certificate names),
  \<open>reloadable\<close> (the provider and the bundle handler), \<open>waf_provider\<close> (the provider, for both front ends) and
  \<open>deep_copier\<close> (the generated copies). Each is interpreted on the definitions of the code.

  \<^bold>\<open>Fuel and bounds.\<close> The reconnect loop \<open>SubscribeConfig\<close> takes a number of attempts, because it is meant to run until its
  context ends; its property holds for every number and says what is the case when the number is used up. All other
  recursions are total. \<open>Run\<close> takes at most five steps by itself between two events of its surroundings, the shutdown of
  the operator's server at most three steps beside the ends of its streams and the milliseconds of its timer, and a run of
  deliveries at most \<open>backlog\<close>, two for every waiting bundle and one for every message on the wire.

  \<^bold>\<open>Not modelled.\<close> The generated protocol code (\<open>proto/\<close>), which is tables and stubs for the protobuf and gRPC libraries;
  the helpers of the end-to-end tests (\<open>test/utils\<close>); log output; the exported accessors of \<open>metrics.go\<close>, which only tests
  use. The errors of the writes of variables into the answer of the agent, which \<open>spoa.go\<close> discards, are not modelled: every
  write succeeds, where a full frame would lose the variable. \<open>time.Now\<close> is read once per reconcile for the bundles of all
  engines and for the conditions of one status.
\<close>

section \<open>From a rule change to the running firewall\<close>

lemma publishItems_fills_channel:
  assumes "store_inv s" and "publishItems rsName b now items s = Some s'"
    and "e \<in> set items" "es_RuleSetRef (en_Spec e) = rsName"
    and "sub \<in> set (subsOf s (engKey e))" and "map_option b_SHA256 (Get s (engKey e)) \<noteq> Some (cb_SHA256 b)"
  shows "st_chans s' sub = [bundleOf rsName b now]"
proof -
  let ?ks = "map engKey (filter (\<lambda>e. es_RuleSetRef (en_Spec e) = rsName) items)"
  let ?b = "bundleOf rsName b now"
  have "s' = deliveredTo s {k \<in> set ?ks. \<not> isDuplicate s k ?b} ?b"
    using assms(2) publishEach_same [OF assms(1), of ?b ?ks] by (simp add: publishItems_each o_def)
  moreover have "engKey e \<in> set ?ks" using assms(3,4) by auto
  moreover have "\<not> isDuplicate s (engKey e) ?b"
    using assms(6) by (auto simp: isDuplicate_def bundleOf_def Get_def)
  ultimately show ?thesis using assms(5) by auto
qed

lemma RuleSet_Reconcile_published:
  assumes "k_GetRuleSet K req w = (Inr rs, w1)"
    and "collectSources K rs w1 = (Inr (sources, ''''), w2)" and "Compile sources = Inr b"
    and "RuleSet_patchStatusIfChanged K rs (RuleSet_compiled K (k_Now K w2) rs b) w2 = (Inr res, w3)"
    and "k_ListEngines K (Some (rs_Namespace rs)) w3 = (Inr items, w4)"
    and "RuleSet_Reconcile K (Some s) req w = Some (r, Some s', w')"
  shows "publishItems (rs_Name rs) b (k_Now K w4) items s = Some s'"
  using assms by (auto simp: RuleSet_Reconcile_def publishToEngines_def split: option.splits)

text \<open>
  C1. A rule change reaches the running firewall. Suppose the reconcile of a rule set read its sources, compiled them,
  had its status accepted and listed an engine that uses the set, holds an open stream, and was last sent another
  digest. Then the next message of its stream is the compiled bundle; and an engine whose parser accepts the text has,
  after handling it, the firewall of exactly that text active, and reports the digest, the name and the rule count that
  the status of the rule set reports.
\<close>

theorem rule_change_reaches_firewall:
  assumes "store_inv s"
    and "k_GetRuleSet K req w = (Inr rs, w1)"
    and "collectSources K rs w1 = (Inr (sources, ''''), w2)" and "Compile sources = Inr b"
    and "rs' = RuleSet_compiled K (k_Now K w2) rs b"
    and "RuleSet_patchStatusIfChanged K rs rs' w2 = (Inr res, w3)"
    and "k_ListEngines K (Some (rs_Namespace rs)) w3 = (Inr items, w4)"
    and "RuleSet_Reconcile K (Some s) req w = Some (r, Some s', w')"
    and "\<forall>src \<in> set sources. nl \<notin> set (srcLabel src)"
    and "e \<in> set items" "es_RuleSetRef (en_Spec e) = rs_Name rs"
    and "sub \<in> set (subsOf s (engKey e))" "map_option b_SHA256 (Get s (engKey e)) \<noteq> Some (cb_SHA256 b)"
    and "BuildWAF newWAF (concat (map writeSource sources)) = Inr (waf, n)"
  shows "\<exists>pb s2. Subscribe_loop [TakeBundle None] s' sub [] = (StreamOpen, s2, [pb])
    \<and> Current (eg_provider (newBundleHandler newWAF cachePath now oc (ofPB pb) eng)) = Some waf
    \<and> ps_SHA256 (State (eg_provider (newBundleHandler newWAF cachePath now oc (ofPB pb) eng))) = rst_CompiledHash (rs_Status rs')
    \<and> ps_RuleSetName (State (eg_provider (newBundleHandler newWAF cachePath now oc (ofPB pb) eng))) = rs_Name rs
    \<and> of_nat (ps_RuleCount (State (eg_provider (newBundleHandler newWAF cachePath now oc (ofPB pb) eng)))) =
        rst_RuleCount (rs_Status rs')"
proof -
  define pb where "pb = toPB (bundleOf (rs_Name rs) b (k_Now K w4))"
  have "publishItems (rs_Name rs) b (k_Now K w4) items s = Some s'"
    by (rule RuleSet_Reconcile_published [OF assms(2-4) _ assms(7,8)]) (use assms(5,6) in blast)
  then have "st_chans s' sub = [bundleOf (rs_Name rs) b (k_Now K w4)]"
    using publishItems_fills_channel assms(1,10-13) by blast
  then have stream: "\<exists>s2. Subscribe_loop [TakeBundle None] s' sub [] = (StreamOpen, s2, [pb])"
    by (simp add: recvBundle_def chanRecv_def pb_def)
  have b: "cb_Compiled b = concat (map writeSource sources)" "cb_RuleCount b = of_nat (directiveCount sources)"
    using assms(4) by (simp_all add: Compile_Inr_iff)
  have pb: "eb_Compiled (ofPB pb) = cb_Compiled b" "eb_SHA256 (ofPB pb) = cb_SHA256 b" "eb_RuleSetName (ofPB pb) = rs_Name rs"
    by (simp_all add: pb_def ofPB_def toPB_def bundleOf_def)
  let ?x = "(now, oc, ofPB pb)"
  have "parseText newWAF (eb_Compiled (ofPB pb)) = Inr waf"
    using assms(14) by (simp add: pb b)
  then have "ap_waf (eg_provider (handlerStep newWAF cachePath ?x eng)) = Some waf
      \<and> stateTag (ap_state (eg_provider (handlerStep newWAF cachePath ?x eng))) = bundleTag (ofPB pb)"
    using bundle_handler.reload_ok [of newWAF ?x waf cachePath eng] by simp
  moreover have "of_nat (CountRules (cb_Compiled b)) = cb_RuleCount b"
    using b assms(9) by (simp add: CountRules_concat)
  moreover have "rst_CompiledHash (rs_Status rs') = cb_SHA256 b" "rst_RuleCount (rs_Status rs') = cb_RuleCount b"
    by (simp_all add: assms(5) RuleSet_compiled_def)
  ultimately show ?thesis
    using stream by (auto simp: handlerStep_def Current_def State_def pb)
qed

text \<open>
  C13. An engine that starts from the objects the operator built reports the digest the operator announced: with the
  rule file that its ConfigMap mounts, an engine that reads its configuration from the environment of its Deployment
  and loads its first firewall is ready with the digest in the annotation of the pod template and in the status of the
  engine, and with the rule count of the bundle.
\<close>

theorem started_engine_reports_deployed_digest:
  assumes "Compile sources = Inr b" and "\<forall>src \<in> set sources. nl \<notin> set (srcLabel src)"
    and "d = buildDesired r e b"
    and "FromEnv (containerEnv (de_Dep d)) = Inr cfg"
    and "cm_Data (de_CM d) RulesConfigMapKey = Some body"
    and "readFile (RulesConfigMapMountPath @ ''/'' @ RulesConfigMapKey) = Inr body"
    and "loadInitialWAF newWAF readFile now (cfg_RuleFilePath cfg) = Inr (p, n)"
  shows "fst (readyz p) = 200
    \<and> pt_Annotations (dp_Template (de_Dep d)) annotationRulesetHash = Some (ps_SHA256 (State p))
    \<and> et_AppliedRuleSetHash (en_Status (rolloutStatus K t e b ready)) = ps_SHA256 (State p)
    \<and> of_nat n = cb_RuleCount b"
proof (intro conjI)
  have b: "cb_Compiled b = concat (map writeSource sources)" "cb_RuleCount b = of_nat (directiveCount sources)"
      "cb_SHA256 b = sha256hex (cb_Compiled b)"
    using assms(1) by (simp_all add: Compile_Inr_iff)
  have body: "body = cb_Compiled b"
    using assms(3,5) by (simp add: buildDesired_def BuildRulesConfigMap_def)
  have "cfg_RuleFilePath cfg = RulesFilePath"
    using FromEnv_rule_file [OF assms(4)] by (simp add: assms(3) buildDesired_def containerEnv_eq engine_env_values)
  then have rd: "readFile (cfg_RuleFilePath cfg) = Inr body"
    using assms(6) by (simp add: RulesFilePath_def)
  obtain w where w: "BuildWAF newWAF body = Inr (w, n)" "p = NewAtomicProvider now (Some w) (sha256Hex body)"
    using assms(7) rd by (auto simp: loadInitialWAF_def split: sum.splits)
  have sha: "ps_SHA256 (State p) = cb_SHA256 b"
    by (simp add: w State_def NewAtomicProvider_def sha256Hex_def b body)
  have "n = CountRules body"
    using w(1) by (auto simp: BuildWAF_def split: sum.splits)
  then show "of_nat n = cb_RuleCount b"
    using b body assms(2) by (simp add: CountRules_concat)
  show "pt_Annotations (dp_Template (de_Dep d)) annotationRulesetHash = Some (ps_SHA256 (State p))"
    using sha assms(3) by (simp add: buildDesired_def BuildDeployment_def b(3))
  show "et_AppliedRuleSetHash (en_Status (rolloutStatus K t e b ready)) = ps_SHA256 (State p)"
    by (simp add: sha rolloutStatus_def)
  show "fst (readyz p) = 200"
    by (simp add: readyz_def w NewAtomicProvider_def State_def sha256Hex_def)
qed

section \<open>From an edit to the engines\<close>

text \<open>The namespace a watch lists the rule sets of, and which of them read the object of the event.\<close>

definition sourceScope :: "Kind \<Rightarrow> string \<Rightarrow> string option" where
  "sourceScope k ns = (if k = KClusterSecRules then None else Some ns)"

fun readsSource :: "Kind \<Rightarrow> RuleSet \<Rightarrow> NamespacedName \<Rightarrow> bool" where
  "readsSource KSecRules rs key \<longleftrightarrow> readsSecRules rs key"
| "readsSource KClusterSecRules rs key \<longleftrightarrow> readsClusterSecRules rs (snd key)"
| "readsSource _ rs key \<longleftrightarrow> False"

lemma source_requests_reader:
  assumes "predicate_laws rt" "builder_laws rt" "list_laws K" "eventOf (ns, n) ev" "specEvent ev"
    and "k_ListRuleSets K (sourceScope k ns) w = (Inr rss, w)" "rs \<in> set rss" "readsSource k rs (ns, n)"
  shows "requestFor rs \<in> rt_Requests rt (RuleSet_SetupWithManager K) k ev w"
proof (cases "k = KSecRules")
  case True
  with assms(5-8) show ?thesis
    using mapped_readers(1) [OF assms(3,4), of w rss]
    unfolding ruleset_requests [OF assms(1,2)] by (auto simp: sourceScope_def)
next
  case False
  with assms(8) have "k = KClusterSecRules" by (cases k) auto
  with assms(5-8) show ?thesis
    using mapped_readers(2) [OF assms(3,4), of w rss]
    unfolding ruleset_requests [OF assms(1,2)] by (auto simp: sourceScope_def)
qed

text \<open>
  C2. An edit is carried to every engine: when a rule source of either kind, a \<open>SecRules\<close> or a \<open>ClusterSecRules\<close> object,
  is created or its spec is edited, each rule set that reads it is requested; the reconcile of that request, when the
  sources compile and the status is accepted, leaves the new digest in the store for every listed engine that uses the
  set; and any event of the rule set from then on, in particular the one its own status write causes, requests each of
  those engines.
\<close>

theorem rule_edit_carried_to_engines:
  assumes "predicate_laws rt" "builder_laws rt" "list_laws K" "store_inv s"
    and "eventOf (ns, n) ev" "specEvent ev" "k_ListRuleSets K (sourceScope k ns) w = (Inr rss, w)"
    and "rs \<in> set rss" "readsSource k rs (ns, n)"
    and "k_GetRuleSet K (requestFor rs) w = (Inr rs, w1)"
    and "collectSources K rs w1 = (Inr (sources, ''''), w2)" "Compile sources = Inr b"
    and "RuleSet_patchStatusIfChanged K rs (RuleSet_compiled K (k_Now K w2) rs b) w2 = (Inr res, w3)"
    and "k_ListEngines K (Some (rs_Namespace rs)) w3 = (Inr items, w4)"
  shows "\<exists>req s'. req \<in> rt_Requests rt (RuleSet_SetupWithManager K) k ev w \<and>
    RuleSet_Reconcile K (Some s) req w = Some (Inr emptyResult, Some s', w4) \<and> store_inv s' \<and>
    (\<forall>e. e \<in> set items \<and> es_RuleSetRef (en_Spec e) = rs_Name rs \<longrightarrow>
       map_option b_SHA256 (Get s' (engKey e)) = Some (sha256hex (concat (map writeSource sources))) \<and>
       (\<forall>ev' v. eventOf (requestFor rs) ev' \<and> k_ListEngines K (Some (rs_Namespace rs)) v = (Inr items, v) \<longrightarrow>
          (en_Namespace e, en_Name e) \<in> rt_Requests rt (Engine_SetupWithManager K) KRuleSet ev' v))"
proof -
  obtain s' where s': "publishItems (rs_Name rs) b (k_Now K w4) items s = Some s'" "store_inv s'"
    "\<And>e. e \<in> set items \<Longrightarrow> es_RuleSetRef (en_Spec e) = rs_Name rs \<Longrightarrow>
       map_option b_SHA256 (Get s' (engKey e)) = Some (cb_SHA256 b)"
    by (rule publishItems_spec [OF assms(4), of "rs_Name rs" b "k_Now K w4" items]) (rule that)
  have "res = emptyResult"
    using rule_set_patch.patch_result [of K rs "RuleSet_compiled K (k_Now K w2) rs b" w2 res] assms(13) by simp
  with assms(10-14) s'(1) have "RuleSet_Reconcile K (Some s) (requestFor rs) w = Some (Inr emptyResult, Some s', w4)"
    by (simp add: RuleSet_Reconcile_def publishToEngines_def)
  moreover have "cb_SHA256 b = sha256hex (concat (map writeSource sources))"
    using assms(12) by (simp add: Compile_Inr_iff)
  moreover have "requestFor rs \<in> rt_Requests rt (RuleSet_SetupWithManager K) k ev w"
    by (rule source_requests_reader [OF assms(1-3,5-9)])
  moreover have "(en_Namespace e, en_Name e) \<in> rt_Requests rt (Engine_SetupWithManager K) KRuleSet ev' v"
    if "e \<in> set items" "es_RuleSetRef (en_Spec e) = rs_Name rs" "eventOf (requestFor rs) ev'"
      "k_ListEngines K (Some (rs_Namespace rs)) v = (Inr items, v)" for e ev' v
    using that(1,2) unfolding engine_requests_ruleset [OF assms(2)]
      mapped_users [OF that(3) [unfolded requestFor_def] that(4)] by auto
  ultimately show ?thesis
    using s'(2,3) by (intro exI [of _ "requestFor rs"] exI [of _ s']) auto
qed

section \<open>From a deployed engine to its stream\<close>

text \<open>The client's answer to \<open>Enroll\<close> is an answer of the operator's server.\<close>

definition enrolls_with ::
  "('w, 'key, 'pub) Crypto \<Rightarrow> ('w, 'pub) EnrollDeps \<Rightarrow> ('key, 'pub) GrpcServer \<Rightarrow> ('w, 'key, 'pub) ClientDeps \<Rightarrow> bool" where
  "enrolls_with C d srv D \<longleftrightarrow>
     (\<forall>addr creds req w resp w'. cd_Enroll D addr creds req w = (Inr resp, w') \<longrightarrow>
        serveEnroll C d srv req w = (Inr resp, w'))"

text \<open>
  C11. The operator, the engine it deploys and the certificates fit together: an engine whose Deployment the operator
  built with its own address, started in that environment, subscribes with the identity of its resource; and when its
  enrolment against the operator's server succeeds, the certificate it has written to its volume opens, on that
  server, the stream of this engine and of no other.
\<close>

theorem deployed_engine_gets_its_stream:
  assumes "crypto_laws C" and "main_setup C K M w0 = (Inr oper, w0')"
    and "EngineReconcilerWith store addr img \<in> set (op_Controllers oper)" and "addr \<noteq> ''''"
    and "uc_URL (es_Upstream (en_Spec e)) \<noteq> ''''" and "es_Mode (en_Spec e) \<in> {'''', EngineModeDetection, EngineModeBlocking}"
    and "slash \<notin> set (en_Namespace e)"
    and "FromEnv (containerEnv (BuildDeployment e digest addr img)) = Inr cfg"
    and "Run_start newWAF readFile urlParse now cfg = Inr st"
    and "enrolls_with C d (op_Server oper) D"
  shows "\<exists>gc. rs0_subscriber st = Some gc \<and> gc_OperatorAddr gc = od_Getenv M ''OPERATOR_GRPC_ADDR'' \<and>
    gc_EngineNamespace gc = en_Namespace e \<and> gc_EngineName gc = en_Name e \<and>
    (\<forall>fs w fs' w'. \<not> enrolled gc fs \<longrightarrow> ensureEnrolled C D gc fs w = (None, fs', w') \<longrightarrow>
       (\<exists>certPEM c. readDisk fs' (certPath gc) = Inr certPEM \<and> certOf C certPEM = Some c \<and>
          (\<forall>ns name rest others s evs.
             (\<exists>r. serveSubscribe (op_Server oper) (Some (TLSInfo ((c # rest) # others))) ns name s evs = Inr r) \<longleftrightarrow>
             ns = en_Namespace e \<and> name = en_Name e)))"
proof -
  have srv: "gv_Stream (op_Server oper) = [SubscribeClientCertInterceptor]" "gv_Unary (op_Server oper) = [UnaryNoopInterceptor]"
    and addr: "addr = od_Getenv M ''OPERATOR_GRPC_ADDR''"
    using assms(2) by (rule main_setup_Inr; use assms(3) in \<open>simp add: operatorGRPCAddr_def\<close>)+
  have cfg: "cfg = deployedConfig e addr"
    using assms(8) FromEnv_deployment [OF assms(5,6)] by simp
  have sub: "rs0_subscriber st = Some (grpcConfig cfg)"
    using Run_start_Inr(2) [OF assms(9)] assms(4) by (simp add: cfg deployedConfig_def)
  have gc: "gc_OperatorAddr (grpcConfig cfg) = od_Getenv M ''OPERATOR_GRPC_ADDR''"
    "gc_EngineNamespace (grpcConfig cfg) = en_Namespace e" "gc_EngineName (grpcConfig cfg) = en_Name e"
    using assms(4) by (simp_all add: cfg grpcConfig_def deployedConfig_def addr [symmetric])
  have "\<exists>certPEM c. readDisk fs' (certPath (grpcConfig cfg)) = Inr certPEM \<and> certOf C certPEM = Some c \<and>
      (\<forall>ns name rest others s evs.
         (\<exists>r. serveSubscribe (op_Server oper) (Some (TLSInfo ((c # rest) # others))) ns name s evs = Inr r) \<longleftrightarrow>
         ns = en_Namespace e \<and> name = en_Name e)"
    if ne: "\<not> enrolled (grpcConfig cfg) fs" and en: "ensureEnrolled C D (grpcConfig cfg) fs w = (None, fs', w')"
    for fs w fs' w'
  proof -
    obtain resp req w1 w2 where r: "cd_Enroll D (gc_OperatorAddr (grpcConfig cfg)) SkipVerifyTLS req w1 = (Inr resp, w2)"
      and q: "eq_EngineNamespace req = en_Namespace e" "eq_EngineName req = en_Name e"
      and f: "readDisk fs' (certPath (grpcConfig cfg)) = Inr (ep_ClientCertPem resp)"
      using enrolment_on_disk [OF en ne] unfolding gc(2,3) by (metis EnrollRequest.select_convs(1,2))
    have "Enroll C d (gv_Service (op_Server oper)) req w1 = (Inr resp, w2)"
      using r assms(10) unfolding enrolls_with_def serveEnroll_Enroll [OF srv(2)] by blast
    from enrolled_opens [OF assms(1) this] assms(7) f show ?thesis
      unfolding q serveSubscribe_rpc [OF srv(1)] by blast
  qed
  with sub gc show ?thesis by blast
qed

subsection \<open>Witnesses\<close>

lemma demo_labels: "\<forall>src \<in> set demoSources. nl \<notin> set (srcLabel src)"
  by (simp add: demoSources_def srcLabel_def nl_def SourceRefKindSecRules_def)

lemma demo_builds: "BuildWAF demoNewWAF (concat (map writeSource demoSources)) =
    Inr (concat (map writeSource demoSources), CountRules (concat (map writeSource demoSources)))"
  by (simp add: BuildWAF_def demoNewWAF_def demoSources_def writeSource_def)

definition openStore :: Store where
  "openStore = subscribed NewStore (mkKey ''ns'' ''e'')"

lemma open_store: "store_inv openStore" "st_next NewStore \<in> set (subsOf openStore (engKey demoEngine))"
  "Get openStore (engKey demoEngine) = None"
  by (simp_all add: openStore_def subscribed_inv store_inv_NewStore demo_cluster_objects)
    (simp add: Get_def NewStore_def)

definition demoOutcome :: fsOutcome where
  "demoOutcome = \<lparr>fo_create = None, fo_write = None, fo_sync = None, fo_close = None, fo_rename = None\<rparr>"

definition demoEngineState :: "string EngineState" where
  "demoEngineState = \<lparr>eg_provider = NewAtomicProvider 1 (Some ''old'') ''h'', eg_reloadSuccess = 0, eg_reloadFailure = 0,
     eg_currentRules = 0, eg_files = Map.empty\<rparr>"

theorem rule_change_reaches_firewall_witness:
  "\<exists>s' w' pb s2. RuleSet_Reconcile demoKube (Some openStore) (''ns'', ''r'') demoCluster = Some (Inr emptyResult, Some s', w')
     \<and> Subscribe_loop [TakeBundle None] s' (st_next NewStore) [] = (StreamOpen, s2, [pb])
     \<and> Current (eg_provider (newBundleHandler demoNewWAF '''' 9 demoOutcome (ofPB pb) demoEngineState)) =
         Some (concat (map writeSource demoSources))"
proof -
  obtain b w3 where b: "Compile demoSources = Inr b"
    and p: "RuleSet_patchStatusIfChanged demoKube demoRuleSet
      (RuleSet_compiled demoKube (k_Now demoKube demoCluster) demoRuleSet b) demoCluster = (Inr emptyResult, w3)"
    and l: "k_ListEngines demoKube (Some (rs_Namespace demoRuleSet)) w3 = (Inr [demoEngine], w3)"
    by (rule demo_reconcile)
  obtain s' w' where "publishToEngines demoKube (Some openStore) demoRuleSet b w3 = Some (Some s', w')"
    using publishToEngines_total [OF open_store(1), of demoKube demoRuleSet b w3] by blast
  then have r: "RuleSet_Reconcile demoKube (Some openStore) (''ns'', ''r'') demoCluster = Some (Inr emptyResult, Some s', w')"
    using demo_cluster_objects(1) demo_collect b p by (simp add: RuleSet_Reconcile_def)
  have e: "demoEngine \<in> set [demoEngine]" "es_RuleSetRef (en_Spec demoEngine) = rs_Name demoRuleSet"
    "map_option b_SHA256 (Get openStore (engKey demoEngine)) \<noteq> Some (cb_SHA256 b)"
    by (simp_all add: demo_cluster_objects open_store [unfolded demo_cluster_objects])
  show ?thesis
    using rule_change_reaches_firewall [OF open_store(1) demo_cluster_objects(1) demo_collect b refl p l r demo_labels
        e(1,2) open_store(2) e(3) demo_builds, of "''''" 9 demoOutcome demoEngineState] r
    by blast
qed

theorem started_engine_reports_deployed_digest_witness:
  "\<exists>b p n. loadInitialWAF demoNewWAF (\<lambda>path. Inr (cb_Compiled b)) 5 RulesFilePath = Inr (p, n)
     \<and> et_AppliedRuleSetHash (en_Status (rolloutStatus demoKube 5 demoEngine b 1)) = ps_SHA256 (State p)"
proof -
  obtain b where b: "Compile demoSources = Inr b" by (rule demo_compiles)
  let ?d = "buildDesired demoReconciler demoEngine b"
  have c: "FromEnv (containerEnv (de_Dep ?d)) = Inr (deployedConfig demoEngine (er_OperatorGRPCAddr demoReconciler))"
    unfolding buildDesired_def Desired.simps by (rule FromEnv_deployment) (simp_all add: demoEngine_def)
  have m: "cm_Data (de_CM ?d) RulesConfigMapKey = Some (cb_Compiled b)"
    by (simp add: buildDesired_def BuildRulesConfigMap_def)
  have t: "cb_Compiled b = concat (map writeSource demoSources)"
    using b by (simp add: Compile_Inr_iff)
  obtain p n where l: "loadInitialWAF demoNewWAF (\<lambda>path. Inr (cb_Compiled b)) 5
      (cfg_RuleFilePath (deployedConfig demoEngine (er_OperatorGRPCAddr demoReconciler))) = Inr (p, n)"
    by (simp add: loadInitialWAF_def t demo_builds)
  from started_engine_reports_deployed_digest [where readFile = "\<lambda>path. Inr (cb_Compiled b)",
      OF b demo_labels refl c m refl l, of demoKube 5 1] l
  show ?thesis
    by (auto simp: deployedConfig_def)
qed

definition streamServer :: "(string, string) GrpcServer" where
  "streamServer = NewServer 0 (Some demoCA) (Some demoTLS)"

definition streamClient :: "(demoWorld, string, string) ClientDeps" where
  "streamClient =
     \<lparr>cd_MkdirAll = (\<lambda>d w. (None, w)), cd_CreateCertificateRequest = (\<lambda>cn k w. (Inr ''csr'', w)),
      cd_NewClient = (\<lambda>a c w. (None, w)),
      cd_Enroll = (\<lambda>a c req w. case serveEnroll operatorCrypto demoDeps streamServer req w of
        (Inr resp, w') \<Rightarrow> (Inr resp, w') | (Inl err, w') \<Rightarrow> (Inl ''rpc error'', w')),
      cd_WriteOutcome = (\<lambda>p w. (\<lparr>wo_open = None, wo_write = None, wo_close = None\<rparr>, w)),
      cd_Subscribe = (\<lambda>a c ns n w. (Inl ''unavailable'', w)), cd_CtxErr = (\<lambda>w. False), cd_Select = (\<lambda>d w. (False, w))\<rparr>"

lemma stream_client_enrolls: "enrolls_with operatorCrypto demoDeps streamServer streamClient"
  by (auto simp: enrolls_with_def streamClient_def split: prod.splits sum.splits)

definition operatorAddr :: string where
  "operatorAddr = ''coraza-operator-grpc.sys.svc:9443''"

abbreviation streamConfig :: GRPCClientConfig where
  "streamConfig \<equiv> grpcConfig (deployedConfig demoEngine operatorAddr)"

definition tokenDisk :: disk where
  "tokenDisk = [''/var/run/secrets/coraza/token'' \<mapsto> (''jwt'', 420)]"

lemma stream_paths:
  "certPath streamConfig = ''/var/lib/coraza/certs/client.crt''" "keyPath streamConfig = ''/var/lib/coraza/certs/client.key''"
  "caPath streamConfig = ''/var/lib/coraza/certs/ca.crt''"
  by (simp_all add: certPath_def keyPath_def caPath_def grpcConfig_def deployedConfig_def JoinPath_def Clean_def cleanStep_def
      clientCertFile_def clientKeyFile_def caCertFile_def slash_def)

lemma stream_config:
  "gc_EngineNamespace streamConfig = ''ns''" "gc_EngineName streamConfig = ''e''"
  "gc_SATokenPath streamConfig = ''/var/run/secrets/coraza/token''"
  by (simp_all add: grpcConfig_def deployedConfig_def operatorAddr_def demo_cluster_objects)

lemma stream_enroll:
  "eq_EngineNamespace req = ''ns'' \<Longrightarrow> eq_EngineName req = ''e'' \<Longrightarrow> eq_SaToken req = ''jwt'' \<Longrightarrow> eq_CsrDer req = ''csr'' \<Longrightarrow>
   \<exists>resp. serveEnroll operatorCrypto demoDeps streamServer req w = (Inr resp, w)"
  using demo_certs_distinct
  by (simp add: serveEnroll_Enroll streamServer_def Enroll_def demoDeps_def wantUsername_def issueFor_def
      IssueClientCertFromCSR_def newSerial_def operatorCrypto_def demoCrypto_def demoCA_def Let_def demoLeaf_def)

lemma stream_ensureEnrolled:
  "\<not> enrolled streamConfig tokenDisk" "\<exists>fs'. ensureEnrolled operatorCrypto streamClient streamConfig tokenDisk w = (None, fs', w)"
proof -
  let ?req = "\<lparr>eq_EngineNamespace = ''ns'', eq_EngineName = ''e'', eq_SaToken = ''jwt'', eq_CsrDer = ''csr''\<rparr>"
  obtain resp where r: "serveEnroll operatorCrypto demoDeps streamServer ?req w = (Inr resp, w)"
    using stream_enroll [of ?req w] by auto
  have c: "cr_GenerateKey operatorCrypto w = (Inr ''k'', w)" "cr_MarshalECPrivateKey operatorCrypto ''k'' = Inr ''k''"
    by (simp_all add: operatorCrypto_def demoCrypto_def)
  show "\<not> enrolled streamConfig tokenDisk"
    by (simp add: enrolled_def fileExists_def stream_paths tokenDisk_def)
  show "\<exists>fs'. ensureEnrolled operatorCrypto streamClient streamConfig tokenDisk w = (None, fs', w)"
    using r c by (simp add: ensureEnrolled_def fileExists_def stream_paths tokenDisk_def streamClient_def stream_config
        readDisk_def enrollAndPersist_def persist_def writeFile_def)
qed

theorem deployed_engine_gets_its_stream_witness:
  "\<exists>fs' c. ensureEnrolled operatorCrypto streamClient streamConfig tokenDisk emptyWorld = (None, fs', emptyWorld) \<and>
     (\<exists>r. serveSubscribe streamServer (Some (TLSInfo [[c]])) ''ns'' ''e'' NewStore [] = Inr r) \<and>
     \<not> (\<exists>r. serveSubscribe streamServer (Some (TLSInfo [[c]])) ''ns'' ''other'' NewStore [] = Inr r)"
proof -
  obtain oper where m: "main_setup operatorCrypto demoKube demoOperator emptyWorld = (Inr oper, emptyWorld)"
    and s: "op_Server oper = streamServer"
    using demo_operator unfolding streamServer_def by blast
  have rec: "EngineReconcilerWith 0 operatorAddr '''' \<in> set (op_Controllers oper)"
    using m by (rule main_setup_Inr) (simp add: demoOperator_def operatorGRPCAddr_def defaultEngineImage_def operatorAddr_def)
  have v: "operatorAddr \<noteq> ''''" "uc_URL (es_Upstream (en_Spec demoEngine)) \<noteq> ''''"
    "es_Mode (en_Spec demoEngine) \<in> {'''', EngineModeDetection, EngineModeBlocking}" "slash \<notin> set (en_Namespace demoEngine)"
    by (simp_all add: operatorAddr_def demoEngine_def demoMeta_def slash_def)
  note cfg = FromEnv_deployment [OF v(2,3), of "''h''" operatorAddr "''''"]
  obtain st where st: "Run_start demoNewWAF (\<lambda>f. Inr ''SecAction'') (\<lambda>u. None) 1 (deployedConfig demoEngine operatorAddr) = Inr st"
    using demo_run_starts by blast
  obtain fs' where en: "ensureEnrolled operatorCrypto streamClient streamConfig tokenDisk emptyWorld = (None, fs', emptyWorld)"
    using stream_ensureEnrolled(2) by blast
  have sub: "rs0_subscriber st = Some streamConfig"
    using Run_start_Inr(2) [OF st] by (simp add: deployedConfig_def operatorAddr_def)
  from deployed_engine_gets_its_stream [OF operator_crypto_laws m rec v cfg st, of demoDeps streamClient]
    stream_client_enrolls sub
  have "\<exists>certPEM c. readDisk fs' (certPath streamConfig) = Inr certPEM \<and> certOf operatorCrypto certPEM = Some c \<and>
      (\<forall>ns name rest others s evs.
         (\<exists>r. serveSubscribe streamServer (Some (TLSInfo ((c # rest) # others))) ns name s evs = Inr r) \<longleftrightarrow>
         ns = en_Namespace demoEngine \<and> name = en_Name demoEngine)"
    unfolding s using stream_ensureEnrolled(1) en by fastforce
  then obtain c where "\<forall>ns name rest others s evs.
      (\<exists>r. serveSubscribe streamServer (Some (TLSInfo ((c # rest) # others))) ns name s evs = Inr r) \<longleftrightarrow>
      ns = en_Namespace demoEngine \<and> name = en_Name demoEngine" by blast
  then show ?thesis using en by (intro exI [of _ fs'] exI [of _ c]) (simp add: demo_cluster_objects)
qed

theorem rule_edit_carried_to_engines_witness:
  "\<exists>req s' w'. req \<in> rt_Requests demoRuntime (RuleSet_SetupWithManager demoKube) KSecRules
       (CreateEvent (demoMeta ''ns'' ''a'')) demoCluster \<and>
     RuleSet_Reconcile demoKube (Some NewStore) req demoCluster = Some (Inr emptyResult, Some s', w') \<and>
     map_option b_SHA256 (Get s' (mkKey ''ns'' ''e'')) = Some (sha256hex (concat (map writeSource demoSources)))"
proof -
  obtain b w3 where b: "Compile demoSources = Inr b"
    and p: "RuleSet_patchStatusIfChanged demoKube demoRuleSet
      (RuleSet_compiled demoKube (k_Now demoKube demoCluster) demoRuleSet b) demoCluster = (Inr emptyResult, w3)"
    and l: "k_ListEngines demoKube (Some (rs_Namespace demoRuleSet)) w3 = (Inr [demoEngine], w3)"
    by (rule demo_reconcile)
  have e: "eventOf (''ns'', ''a'') (CreateEvent (demoMeta ''ns'' ''a''))" "specEvent (CreateEvent (demoMeta ''ns'' ''a''))"
    and r: "demoRuleSet \<in> set [demoRuleSet]" "readsSource KSecRules demoRuleSet (''ns'', ''a'')"
    and ls: "k_ListRuleSets demoKube (sourceScope KSecRules ''ns'') demoCluster = (Inr [demoRuleSet], demoCluster)"
    using demo_lists(1) by (simp_all add: eventOf_def demoMeta_def readsSecRules_def demoRuleSet_def sourceScope_def)
  have g: "k_GetRuleSet demoKube (requestFor demoRuleSet) demoCluster = (Inr demoRuleSet, demoCluster)"
    using demo_cluster_objects by (simp add: requestFor_def)
  from rule_edit_carried_to_engines [OF demo_runtime_laws(1,2) demo_list_laws store_inv_NewStore e ls r g
      demo_collect b p l]
  obtain req s' where q: "req \<in> rt_Requests demoRuntime (RuleSet_SetupWithManager demoKube) KSecRules
       (CreateEvent (demoMeta ''ns'' ''a'')) demoCluster"
    "RuleSet_Reconcile demoKube (Some NewStore) req demoCluster = Some (Inr emptyResult, Some s', w3)"
    "map_option b_SHA256 (Get s' (engKey demoEngine)) = Some (sha256hex (concat (map writeSource demoSources)))"
    using demo_cluster_objects(4,7) by fastforce
  then show ?thesis unfolding demo_cluster_objects(8) by blast
qed

end
